(* ===== verification/Prelude.thy ===== *)
theory Prelude
  imports Main "HOL-Library.Word" "HOL-Library.AList"
begin

text \<open>
  What every component of the FIX bridge shares: the machine integers, the ways a C++ call
  can end (returning, throwing, terminating the process), the hash containers
  (\<open>utils::unordered_map\<close> and \<open>utils::unordered_set\<close>) and the rules by which a fact about
  single operations is lifted to whole handlers.
\<close>

section \<open>Machine integers\<close>

type_synonym u8 = "8 word"
type_synonym u16 = "16 word"
type_synonym u32 = "32 word"
type_synonym u64 = "64 word"
type_synonym bytes = "8 word list"

text \<open>A duration or a point in time is a signed 64-bit count of nanoseconds.\<close>

type_synonym nanos = int

definition in_i64 :: "int \<Rightarrow> bool" where
  "in_i64 x \<longleftrightarrow> - (2 ^ 63) \<le> x \<and> x < 2 ^ 63"

section \<open>How a call ends\<close>

text \<open>
  Exceptions are the classes the program tells apart: \<open>SystemError\<close>, \<open>Exception\<close> and the
  rest of \<open>std::exception\<close>, with \<open>NotConnected\<close> as the one exception caught by itself, and
  anything thrown that is none of these. A fault ends the process: a failed \<open>assert\<close>, a call
  of \<open>log::fatal\<close>, \<open>utils::exceptions::Unhandled::terminate\<close> or \<open>std::abort\<close>, and undefined
  behaviour, which the model keeps apart so that a theorem can exclude it.
\<close>

datatype exn = System_error | Roq_exception | Not_connected | Std_exception | Foreign_exception

datatype fault = Assertion_failed | Log_fatal | Terminated | Undefined_behaviour

datatype 's outcome = Normal 's | Thrown exn 's | Aborted fault

fun then_do :: "'s outcome \<Rightarrow> ('s \<Rightarrow> 't outcome) \<Rightarrow> (exn \<Rightarrow> 's \<Rightarrow> 't outcome) \<Rightarrow> 't outcome" where
  "then_do (Normal s) f h = f s"
| "then_do (Thrown e s) f h = h e s"
| "then_do (Aborted x) f h = Aborted x"

text \<open>\<open>seq\<close> is the statement sequence of C++: an exception skips what follows.\<close>

definition seq :: "'s outcome \<Rightarrow> ('s \<Rightarrow> 's outcome) \<Rightarrow> 's outcome" where
  "seq r f = then_do r f Thrown"

lemma seq_simps [simp]:
  "seq (Normal s) f = f s"
  "seq (Thrown e s) f = Thrown e s"
  "seq (Aborted x) f = Aborted x"
  by (simp_all add: seq_def)

lemma seq_assoc: "seq (seq r f) g = seq r (\<lambda>s. seq (f s) g)"
  by (cases r) simp_all

fun map_outcome :: "('s \<Rightarrow> 't) \<Rightarrow> 's outcome \<Rightarrow> 't outcome" where
  "map_outcome f (Normal s) = Normal (f s)"
| "map_outcome f (Thrown e s) = Thrown e (f s)"
| "map_outcome f (Aborted x) = Aborted x"

lemma map_outcome_compose: "map_outcome f (map_outcome g r) = map_outcome (\<lambda>s. f (g s)) r"
  by (cases r) simp_all

lemma map_outcome_eq_Normal:
  "map_outcome f r = Normal t \<longleftrightarrow> (\<exists>s. r = Normal s \<and> t = f s)"
  by (cases r) auto

text \<open>
  \<open>assert(c)\<close> is compiled in or out with the build type; the flag says which. Where it is
  compiled out it does nothing.
\<close>

definition cassert :: "bool \<Rightarrow> bool \<Rightarrow> 's \<Rightarrow> 's outcome" where
  "cassert enabled c s = (if enabled \<and> \<not> c then Aborted Assertion_failed else Normal s)"

lemma cassert_holds [simp]: "c \<Longrightarrow> cassert enabled c s = Normal s"
  by (simp add: cassert_def)

lemma cassert_off [simp]: "cassert False c s = Normal s"
  by (simp add: cassert_def)

text \<open>A range-based \<open>for\<close> whose body may throw.\<close>

fun for_each :: "('x \<Rightarrow> 's \<Rightarrow> 's outcome) \<Rightarrow> 'x list \<Rightarrow> 's \<Rightarrow> 's outcome" where
  "for_each f [] s = Normal s"
| "for_each f (x # xs) s = seq (f x s) (for_each f xs)"

lemma for_each_append: "for_each f (xs @ ys) s = seq (for_each f xs s) (for_each f ys)"
proof (induction xs arbitrary: s)
  case (Cons x xs)
  then have "for_each f (xs @ ys) = (\<lambda>s. seq (for_each f xs s) (for_each f ys))"
    by (intro ext)
  then show ?case by (simp add: seq_assoc)
qed simp

text \<open>
  Functions that build a value rather than change a state (the configuration parser, the
  broadcast tables, the authentication) end in a value or in one of these failures.
\<close>

datatype failure = Exn exn | Fault fault

type_synonym 'a result = "failure + 'a"

fun bind_result :: "'a result \<Rightarrow> ('a \<Rightarrow> 'b result) \<Rightarrow> 'b result" where
  "bind_result (Inl e) f = Inl e"
| "bind_result (Inr x) f = f x"

lemma bind_result_eq_Inr:
  "bind_result r f = Inr y \<longleftrightarrow> (\<exists>x. r = Inr x \<and> f x = Inr y)"
  by (cases r) auto

lemma bind_result_Inr_right [simp]: "bind_result r Inr = r"
  by (cases r) auto

lemma bind_result_cong [fundef_cong]:
  "r = r' \<Longrightarrow> (\<And>x. r' = Inr x \<Longrightarrow> f x = f' x) \<Longrightarrow> bind_result r f = bind_result r' f'"
  by (cases r') simp_all

lemma bind_bind_result: "bind_result (bind_result r f) g = bind_result r (\<lambda>x. bind_result (f x) g)"
  by (cases r) simp_all

definition rassert :: "bool \<Rightarrow> bool \<Rightarrow> 'a \<Rightarrow> 'a result" where
  "rassert enabled c x = (if enabled \<and> \<not> c then Inl (Fault Assertion_failed) else Inr x)"

lemma rassert_holds [simp]: "c \<Longrightarrow> rassert enabled c x = Inr x"
  by (simp add: rassert_def)

lemma rassert_eq_Inr: "rassert enabled c x = Inr y \<longleftrightarrow> y = x \<and> (enabled \<longrightarrow> c)"
  by (auto simp: rassert_def)

abbreviation fatal :: "'a result" where
  "fatal \<equiv> Inl (Fault Log_fatal)"

fun fold_result :: "('x \<Rightarrow> 'a \<Rightarrow> 'a result) \<Rightarrow> 'x list \<Rightarrow> 'a \<Rightarrow> 'a result" where
  "fold_result f [] a = Inr a"
| "fold_result f (x # xs) a = bind_result (f x a) (fold_result f xs)"

lemma fold_result_append:
  "fold_result f (xs @ ys) a = bind_result (fold_result f xs a) (fold_result f ys)"
proof (induction xs arbitrary: a)
  case (Cons x xs)
  then show ?case by (cases "f x a") simp_all
qed simp

lemma fold_result_invariant:
  assumes "fold_result f xs a = Inr b" and "P a"
    and "\<And>x a b. x \<in> set xs \<Longrightarrow> P a \<Longrightarrow> f x a = Inr b \<Longrightarrow> P b"
  shows "P b"
  using assms
proof (induction xs arbitrary: a)
  case (Cons x xs)
  from Cons.prems(1) obtain c where c: "f x a = Inr c" "fold_result f xs c = Inr b"
    by (auto simp: bind_result_eq_Inr)
  show ?case
  proof (rule Cons.IH [OF c(2)])
    show "P c" using Cons.prems(2,3) c(1) by force
  qed (use Cons.prems(3) in auto)
qed simp

lemma fold_result_map: "fold_result f (map h xs) a = fold_result (\<lambda>x. f (h x)) xs a"
  by (induction xs arbitrary: a) (simp_all add: fun_eq_iff cong: bind_result_cong)

lemma fold_result_filter:
  "fold_result (\<lambda>x a. if P x then f x a else Inr a) xs a = fold_result f (filter P xs) a"
  by (induction xs arbitrary: a) (simp_all cong: bind_result_cong)

text \<open>A loop whose body updates two variables independently is two loops.\<close>

lemma fold_result_pair:
  "fold_result (\<lambda>x (a, b). bind_result (f x a) (\<lambda>a. bind_result (g x b) (\<lambda>b. Inr (a, b)))) xs (a, b) = Inr (a', b')
   \<longleftrightarrow> fold_result f xs a = Inr a' \<and> fold_result g xs b = Inr b'"
proof (induction xs arbitrary: a b)
  case (Cons x xs)
  show ?case
    by (cases "f x a"; cases "g x b") (simp_all add: Cons.IH)
qed simp

end
