(* ===== verification/Containers.thy ===== *)
theory Containers
  imports Prelude
begin

text \<open>
  \<open>utils::unordered_map\<close> and \<open>utils::unordered_set\<close>, as far as the program uses them: lookup,
  \<open>emplace\<close>, assignment through \<open>operator[]\<close>, \<open>erase\<close> and iteration. The containers are not
  part of the repository, so what its code relies on is stated as the laws of two interfaces
  (the locales \<open>unordered_map\<close> and \<open>unordered_set\<close>). The model runs on association lists and
  lists, which are interpreted as instances. The order of the list stands for the unspecified
  order of iteration.
\<close>

section \<open>Insertion that must succeed\<close>

text \<open>
  \<open>auto res = container.emplace(...); if (!res.second) log::fatal(...);\<close>, on the pair of the
  container after the call and the flag it returned.
\<close>

definition insert_or_fatal :: "'m \<times> bool \<Rightarrow> 'm result" where
  "insert_or_fatal r = (if snd r then Inr (fst r) else fatal)"

lemma insert_or_fatal_eq_Inr: "insert_or_fatal r = Inr m \<longleftrightarrow> snd r \<and> m = fst r"
  by (auto simp: insert_or_fatal_def)

section \<open>Association lists as hash maps\<close>

type_synonym ('k, 'v) umap = "('k \<times> 'v) list"

abbreviation umap_find :: "('k, 'v) umap \<Rightarrow> 'k \<Rightarrow> 'v option" where
  "umap_find \<equiv> map_of"

definition umap_wf :: "('k, 'v) umap \<Rightarrow> bool" where
  "umap_wf m \<longleftrightarrow> distinct (map fst m)"

definition umap_emplace :: "'k \<Rightarrow> 'v \<Rightarrow> ('k, 'v) umap \<Rightarrow> ('k, 'v) umap \<times> bool" where
  "umap_emplace k v m = (if umap_find m k = None then (m @ [(k, v)], True) else (m, False))"

definition umap_assign :: "'k \<Rightarrow> 'v \<Rightarrow> ('k, 'v) umap \<Rightarrow> ('k, 'v) umap" where
  "umap_assign k v m = AList.update k v m"

definition umap_erase :: "'k \<Rightarrow> ('k, 'v) umap \<Rightarrow> ('k, 'v) umap" where
  "umap_erase k m = AList.delete k m"

text \<open>\<open>m[k]\<close> read or updated in place: an absent key is first given the default value.\<close>

definition umap_index :: "'v \<Rightarrow> ('k, 'v) umap \<Rightarrow> 'k \<Rightarrow> 'v" where
  "umap_index d m k = (case umap_find m k of None \<Rightarrow> d | Some v \<Rightarrow> v)"

definition umap_modify :: "'v \<Rightarrow> 'k \<Rightarrow> ('v \<Rightarrow> 'v) \<Rightarrow> ('k, 'v) umap \<Rightarrow> ('k, 'v) umap" where
  "umap_modify d k f m = umap_assign k (f (umap_index d m k)) m"

lemma map_of_snoc:
  "map_of (m @ [(k, v)]) k' = (case map_of m k' of None \<Rightarrow> if k' = k then Some v else None | r \<Rightarrow> r)"
  by (simp add: map_add_def split: option.splits)

lemma umap_find_emplace:
  "umap_find (fst (umap_emplace k v m)) =
     (if umap_find m k = None then (umap_find m)(k \<mapsto> v) else umap_find m)"
  by (auto simp: umap_emplace_def fun_eq_iff map_of_snoc simp del: map_of_append split: option.splits)

lemma umap_emplace_ok: "snd (umap_emplace k v m) \<longleftrightarrow> umap_find m k = None"
  by (simp add: umap_emplace_def)

lemma umap_find_assign [simp]: "umap_find (umap_assign k v m) = (umap_find m)(k \<mapsto> v)"
  by (simp add: umap_assign_def update_conv')

lemma umap_find_erase [simp]: "umap_find (umap_erase k m) = (umap_find m)(k := None)"
  by (simp add: umap_erase_def delete_conv')

lemma umap_find_modify [simp]:
  "umap_find (umap_modify d k f m) = (umap_find m)(k \<mapsto> f (umap_index d m k))"
  by (simp add: umap_modify_def)

lemma umap_wf_emplace: "umap_wf m \<Longrightarrow> umap_wf (fst (umap_emplace k v m))"
  by (auto simp: umap_wf_def umap_emplace_def map_of_eq_None_iff)

lemma umap_wf_assign: "umap_wf m \<Longrightarrow> umap_wf (umap_assign k v m)"
  by (simp add: umap_wf_def umap_assign_def distinct_update)

lemma umap_wf_erase: "umap_wf m \<Longrightarrow> umap_wf (umap_erase k m)"
  by (simp add: umap_wf_def umap_erase_def distinct_delete)

lemma umap_wf_Nil [simp]: "umap_wf []"
  by (simp add: umap_wf_def)

lemma umap_wf_modify: "umap_wf m \<Longrightarrow> umap_wf (umap_modify d k f m)"
  by (simp add: umap_modify_def umap_wf_assign)

lemma umap_erase_keys [simp]: "map fst (umap_erase k m) = filter (\<lambda>x. x \<noteq> k) (map fst m)"
  by (induction m) (auto simp: umap_erase_def AList.delete_eq)

lemma umap_assign_keys: "k \<in> set (map fst m) \<Longrightarrow> map fst (umap_assign k v m) = map fst m"
  by (simp add: umap_assign_def update_keys)

section \<open>The interface of a hash map\<close>

locale unordered_map =
  fixes find :: "'m \<Rightarrow> 'k \<Rightarrow> 'v option"
    and emplace :: "'k \<Rightarrow> 'v \<Rightarrow> 'm \<Rightarrow> 'm \<times> bool"
    and assign :: "'k \<Rightarrow> 'v \<Rightarrow> 'm \<Rightarrow> 'm"
    and erase :: "'k \<Rightarrow> 'm \<Rightarrow> 'm"
    and wf :: "'m \<Rightarrow> bool"
  assumes find_emplace:
      "find (fst (emplace k v m)) = (if find m k = None then (find m)(k \<mapsto> v) else find m)"
    and emplace_ok: "snd (emplace k v m) \<longleftrightarrow> find m k = None"
    and find_assign: "find (assign k v m) = (find m)(k \<mapsto> v)"
    and find_erase: "find (erase k m) = (find m)(k := None)"
    and wf_emplace: "wf m \<Longrightarrow> wf (fst (emplace k v m))"
    and wf_assign: "wf m \<Longrightarrow> wf (assign k v m)"
    and wf_erase: "wf m \<Longrightarrow> wf (erase k m)"
begin

lemma emplace_present: "find m k = Some v' \<Longrightarrow> find (fst (emplace k v m)) = find m"
  by (simp add: find_emplace)

lemma emplace_monotone: "find m k' = Some v' \<Longrightarrow> find (fst (emplace k v m)) k' = Some v'"
  by (auto simp: find_emplace)

lemma erase_after_emplace: "find m k = None \<Longrightarrow> find (erase k (fst (emplace k v m))) = find m"
  by (auto simp: find_emplace find_erase fun_eq_iff)

text \<open>
  The loop that all configuration checks share: put every pair into the map and stop the
  process at the first key that is already there.
\<close>

lemma emplace_all_Inr:
  "fold_result (\<lambda>(k, v) m. insert_or_fatal (emplace k v m)) kvs m = Inr m' \<Longrightarrow>
   find m' = find m ++ map_of kvs \<and> distinct (map fst kvs) \<and> (\<forall>k \<in> set (map fst kvs). find m k = None)"
proof (induction kvs arbitrary: m)
  case (Cons p kvs)
  obtain k v where p: "p = (k, v)" by (cases p)
  from Cons.prems p have none: "find m k = None"
    and rest: "fold_result (\<lambda>(k, v) m. insert_or_fatal (emplace k v m))
        kvs (fst (emplace k v m)) = Inr m'"
    by (auto simp: bind_result_eq_Inr insert_or_fatal_eq_Inr emplace_ok)
  from none have f: "find (fst (emplace k v m)) = (find m)(k \<mapsto> v)"
    by (simp add: find_emplace)
  from Cons.IH [OF rest] have *: "find m' = (find m)(k \<mapsto> v) ++ map_of kvs"
    "distinct (map fst kvs)" "\<forall>k' \<in> set (map fst kvs). ((find m)(k \<mapsto> v)) k' = None"
    by (unfold f) blast+
  from *(3) have nk: "k \<notin> set (map fst kvs)" by auto
  then have "map_of kvs k = None" by (simp add: map_of_eq_None_iff)
  with *(1) have "find m' = find m ++ map_of (p # kvs)"
    by (auto simp: p fun_eq_iff map_add_def split: option.splits)
  moreover from *(2) nk have "distinct (map fst (p # kvs))" by (simp add: p)
  moreover from *(3) none nk have "\<forall>k' \<in> set (map fst (p # kvs)). find m k' = None"
    by (auto simp: p split: if_splits)
  ultimately show ?case by blast
qed simp

lemma emplace_all_total:
  "distinct (map fst kvs) \<Longrightarrow> (\<forall>k \<in> set (map fst kvs). find m k = None) \<Longrightarrow>
   \<exists>m'. fold_result (\<lambda>(k, v) m. insert_or_fatal (emplace k v m)) kvs m = Inr m'"
proof (induction kvs arbitrary: m)
  case (Cons p kvs)
  obtain k v where p: "p = (k, v)" by (cases p)
  from Cons.prems p have "find m k = None" by simp
  then have ok: "snd (emplace k v m)" and f: "find (fst (emplace k v m)) = (find m)(k \<mapsto> v)"
    by (simp_all add: emplace_ok find_emplace)
  from Cons.prems p f have "\<forall>k' \<in> set (map fst kvs). find (fst (emplace k v m)) k' = None"
    by auto
  with Cons.IH [of "fst (emplace k v m)"] Cons.prems(1) ok show ?case
    by (auto simp: p insert_or_fatal_def)
qed simp

end

interpretation umap: unordered_map umap_find umap_emplace umap_assign umap_erase umap_wf
  by unfold_locales
    (simp_all add: umap_find_emplace umap_emplace_ok umap_wf_emplace umap_wf_assign umap_wf_erase)

section \<open>Lists as hash sets\<close>

type_synonym 'a uset = "'a list"

definition uset_emplace :: "'a \<Rightarrow> 'a uset \<Rightarrow> 'a uset \<times> bool" where
  "uset_emplace x s = (if x \<in> set s then (s, False) else (s @ [x], True))"

definition uset_erase :: "'a \<Rightarrow> 'a uset \<Rightarrow> 'a uset" where
  "uset_erase x s = filter (\<lambda>y. y \<noteq> x) s"

locale unordered_set =
  fixes elements :: "'s \<Rightarrow> 'a set"
    and emplace :: "'a \<Rightarrow> 's \<Rightarrow> 's \<times> bool"
    and erase :: "'a \<Rightarrow> 's \<Rightarrow> 's"
    and wf :: "'s \<Rightarrow> bool"
  assumes elements_emplace: "elements (fst (emplace x s)) = insert x (elements s)"
    and emplace_ok: "snd (emplace x s) \<longleftrightarrow> x \<notin> elements s"
    and elements_erase: "elements (erase x s) = elements s - {x}"
    and wf_emplace: "wf s \<Longrightarrow> wf (fst (emplace x s))"
    and wf_erase: "wf s \<Longrightarrow> wf (erase x s)"
begin

text \<open>Putting elements in one by one, stopping the process at a duplicate.\<close>

lemma emplace_all_iff:
  "(\<exists>s'. fold_result (\<lambda>x s. insert_or_fatal (emplace x s)) xs s = Inr s')
   \<longleftrightarrow> distinct xs \<and> set xs \<inter> elements s = {}"
proof (induction xs arbitrary: s)
  case (Cons x xs)
  have "(\<exists>s'. fold_result (\<lambda>x s. insert_or_fatal (emplace x s)) (x # xs) s = Inr s')
    \<longleftrightarrow> x \<notin> elements s \<and> distinct xs \<and> set xs \<inter> insert x (elements s) = {}"
    using Cons.IH [of "fst (emplace x s)"] emplace_ok [of x s] elements_emplace [of x s]
    by (auto simp: insert_or_fatal_def)
  then show ?case by auto
qed simp

lemma emplace_idempotent: "elements (fst (emplace x (fst (emplace x s)))) = elements (fst (emplace x s))"
  by (simp add: elements_emplace)

end

interpretation uset: unordered_set set uset_emplace uset_erase distinct
  by unfold_locales (auto simp: uset_emplace_def uset_erase_def)

end
