(* ===== verification/Model_Data.thy ===== *)
theory Model_Data
  imports Containers
begin

text \<open>
  The program's plain data: the command line flags (\<open>flags/*.json\<close>, gathered by
  \<open>flags/settings.hpp\<close>), \<open>struct User\<close> (\<open>user.hpp\<close>) and \<open>struct Broadcast\<close>
  (\<open>broadcast.hpp\<close>) with their \<open>fmt\<close> formatters, and the decimal rendering of unsigned
  numbers the formatters and the session names use.
\<close>

section \<open>Settings\<close>

text \<open>
  One field per flag the sources read; the flag groups \<open>common\<close>, \<open>fix\<close>, \<open>messaging\<close>,
  \<open>oms\<close> and \<open>test\<close> are flattened. Periods are in nanoseconds.
\<close>

record settings =
  config_file :: string
  client_listen_address :: string
  fix_comp_id :: string
  fix_auth_method :: string
  fix_auth_timestamp_tolerance :: nanos
  fix_logon_timeout :: nanos
  fix_logon_heartbeat_min :: nanos
  fix_logon_heartbeat_max :: nanos
  fix_heartbeat_freq :: nanos
  fix_decode_buffer_size :: u32
  fix_encode_buffer_size :: u32
  fix_debug :: bool
  fix_log_path :: string
  fix_disable_req_id_validation :: bool
  init_missing_md_entry_type_to_zero :: bool
  exchange_time_as_sending_time :: bool
  top_of_book_from_market_by_price :: bool
  cancel_on_disconnect :: bool
  oms_route_by_strategy :: bool
  block_client_on_not_ready :: bool
  terminate_on_timeout :: bool
  terminate_on_disconnect :: bool
  silence_non_final_order_ack :: bool
  skip_order_download :: bool
  strict_checking :: bool
  test_md_entry_position_no :: bool
  test_default_decimal_digits :: u32
  test_request_latency :: bool

text \<open>The defaults of the JSON files (the listen address is the one required flag).\<close>

definition default_settings :: "string \<Rightarrow> settings" where
  "default_settings address =
     \<lparr>config_file = [], client_listen_address = address, fix_comp_id = ''roq-fix-bridge'',
      fix_auth_method = [], fix_auth_timestamp_tolerance = 5000000000, fix_logon_timeout = 0,
      fix_logon_heartbeat_min = 5000000000, fix_logon_heartbeat_max = 60000000000,
      fix_heartbeat_freq = 5000000000, fix_decode_buffer_size = 1048576,
      fix_encode_buffer_size = 10485760, fix_debug = False, fix_log_path = [],
      fix_disable_req_id_validation = False, init_missing_md_entry_type_to_zero = False,
      exchange_time_as_sending_time = False, top_of_book_from_market_by_price = False,
      cancel_on_disconnect = False, oms_route_by_strategy = False,
      block_client_on_not_ready = False, terminate_on_timeout = False,
      terminate_on_disconnect = False, silence_non_final_order_ack = False,
      skip_order_download = False, strict_checking = False, test_md_entry_position_no = False,
      test_default_decimal_digits = 12, test_request_latency = False\<rparr>"

section \<open>Users and broadcasts\<close>

record user =
  u_user_id :: u16
  u_component :: string
  u_username :: string
  u_password :: string
  u_strategy_id :: u32
  u_account :: string
  u_accounts_regex :: "string list"
  u_symbols_regex :: "string list"

record broadcast =
  b_exchange :: string
  b_source_regex :: string
  b_targets_regex :: "string list"

section \<open>Decimal numbers\<close>

definition digit :: "nat \<Rightarrow> char" where
  "digit d = char_of (48 + d)"

fun show_nat :: "nat \<Rightarrow> string" where
  "show_nat n = (if n < 10 then [digit n] else show_nat (n div 10) @ [digit (n mod 10)])"

declare show_nat.simps [simp del]

definition read_nat :: "string \<Rightarrow> nat" where
  "read_nat s = foldl (\<lambda>n c. 10 * n + (of_char c - 48)) 0 s"

lemma of_char_digit [simp]: "d < 10 \<Longrightarrow> of_char (digit d) = 48 + d"
  by (simp add: digit_def)

lemma read_nat_show_nat [simp]: "read_nat (show_nat n) = n"
proof (induction n rule: show_nat.induct)
  case (1 n)
  show ?case
  proof (cases "n < 10")
    case True
    then show ?thesis by (simp add: show_nat.simps [of n] read_nat_def)
  next
    case False
    with 1 have "read_nat (show_nat (n div 10)) = n div 10" by blast
    with False show ?thesis by (simp add: show_nat.simps [of n] read_nat_def)
  qed
qed

lemma show_nat_inject: "show_nat m = show_nat n \<longleftrightarrow> m = n"
  by (metis read_nat_show_nat)

section \<open>Formatting\<close>

definition quoted :: "string \<Rightarrow> string" where
  "quoted s = CHR 0x22 # s @ [CHR 0x22]"

fun join :: "string \<Rightarrow> string list \<Rightarrow> string" where
  "join sep [] = []"
| "join sep [s] = s"
| "join sep (s # ss) = s @ sep @ join sep ss"

text \<open>
  The formatter of a user. Its format string has six placeholders and the call passes seven
  arguments, of which \<open>fmt\<close> uses the first six in order: the placeholder labelled
  \<open>symbols_regex\<close> receives the joined \<open>accounts_regex\<close>, and the joined \<open>symbols_regex\<close> is
  passed but not printed.
\<close>

definition format_user :: "user \<Rightarrow> string" where
  "format_user u =
     (let args = [show_nat (unat (u_user_id u)), quoted (u_component u), quoted (u_username u),
                  show_nat (unat (u_strategy_id u)), quoted (u_account u),
                  join '', '' (u_accounts_regex u), join '', '' (u_symbols_regex u)]
      in ''{user_id='' @ args ! 0 @ '', component='' @ args ! 1 @ '', username='' @ args ! 2 @
         '', password=***, strategy_id='' @ args ! 3 @ '', account='' @ args ! 4 @
         '', symbols_regex=['' @ args ! 5 @ '']}'')"

definition format_broadcast :: "broadcast \<Rightarrow> string" where
  "format_broadcast b =
     ''{exchange='' @ quoted (b_exchange b) @ '', source_regex='' @ quoted (b_source_regex b) @
     '', targets_regex=['' @ join '', '' (b_targets_regex b) @ '']}''"

end
