(* ===== verification/Broadcast_Mapping.thy ===== *)
theory Broadcast_Mapping
  imports Model_Data "HOL-Library.Multiset"
begin

text \<open>
  \<open>tools/mapping.cpp\<close>: the table that says which symbols receive what is published on an index
  symbol. A symbol is a source if the source expression matches it and a target for every
  target expression that matches; source and target meet when the expressions extract the
  same key. Symbols arrive one by one in any order, and the table is kept up to date.
  The theory shows that the table is always exactly that join, that the order of arrival does
  not matter, and when the process is stopped.
\<close>

section \<open>State and operations\<close>

text \<open>
  \<open>utils::regex::Pattern\<close> is not part of the repository. Of a compiled pattern the code uses
  \<open>extract\<close> alone, so a pattern is that function: the extracted key, or \<open>None\<close> where
  \<open>whole\<close> is false.
\<close>

type_synonym pattern = "string \<Rightarrow> string option"

record mapping =
  m_name :: string
  m_exchange :: string
  m_source_regex :: pattern
  m_targets_regex :: "pattern list"
  m_processed :: "string uset"
  m_source :: "(string, string) umap"
  m_target :: "(string, string uset) umap"
  m_outbound :: "(string, string uset) umap"

text \<open>The constructor with a list of target expressions; the one with a single expression.\<close>

definition create_regex :: "(string \<Rightarrow> pattern) \<Rightarrow> string list \<Rightarrow> pattern list" where
  "create_regex compile regex = map compile regex"

definition Mapping_create ::
  "(string \<Rightarrow> pattern) \<Rightarrow> string \<Rightarrow> string \<Rightarrow> string \<Rightarrow> string list \<Rightarrow> mapping" where
  "Mapping_create compile nm exch source targets =
     \<lparr>m_name = nm, m_exchange = exch, m_source_regex = compile source,
      m_targets_regex = create_regex compile targets, m_processed = [], m_source = [],
      m_target = [], m_outbound = []\<rparr>"

definition Mapping_create_single ::
  "(string \<Rightarrow> pattern) \<Rightarrow> string \<Rightarrow> string \<Rightarrow> string \<Rightarrow> string \<Rightarrow> mapping" where
  "Mapping_create_single compile nm exch source target =
     Mapping_create compile nm exch source [target]"

text \<open>One \<open>emplace\<close> into a set that the code asserts to be new.\<close>

definition emplace_asserted :: "bool \<Rightarrow> 'a \<Rightarrow> 'a uset \<Rightarrow> 'a uset result" where
  "emplace_asserted asserts x s =
     (case uset_emplace x s of (s', ok) \<Rightarrow> rassert asserts ok s')"

definition add_source :: "bool \<Rightarrow> string \<Rightarrow> string \<Rightarrow> mapping \<Rightarrow> mapping result" where
  "add_source asserts key symbol m =
     bind_result (insert_or_fatal (umap_emplace key symbol (m_source m))) (\<lambda>source.
       let m = m\<lparr>m_source := source\<rparr>
       in case umap_find (m_target m) key of
            None \<Rightarrow> Inr m
          | Some symbols \<Rightarrow>
              bind_result (fold_result (emplace_asserted asserts) symbols
                             (umap_index [] (m_outbound m) symbol)) (\<lambda>outbound.
                Inr (m\<lparr>m_outbound := umap_assign symbol outbound (m_outbound m)\<rparr>)))"

definition add_target :: "bool \<Rightarrow> string \<Rightarrow> string \<Rightarrow> mapping \<Rightarrow> mapping result" where
  "add_target asserts key symbol m =
     bind_result (insert_or_fatal (uset_emplace symbol (umap_index [] (m_target m) key))) (\<lambda>target.
       let m = m\<lparr>m_target := umap_assign key target (m_target m)\<rparr>
       in case umap_find (m_source m) key of
            None \<Rightarrow> Inr m
          | Some source \<Rightarrow>
              bind_result (emplace_asserted asserts symbol (umap_index [] (m_outbound m) source))
                (\<lambda>outbound. Inr (m\<lparr>m_outbound := umap_assign source outbound (m_outbound m)\<rparr>)))"

text \<open>The loop over the target expressions carries the flag the function returns.\<close>

definition add_targets ::
  "bool \<Rightarrow> string \<Rightarrow> pattern list \<Rightarrow> mapping \<times> bool \<Rightarrow> (mapping \<times> bool) result" where
  "add_targets asserts symbol regexes =
     fold_result (\<lambda>regex (m, res).
       case regex symbol of
         None \<Rightarrow> Inr (m, res)
       | Some key \<Rightarrow> bind_result (add_target asserts key symbol m) (\<lambda>m. Inr (m, True))) regexes"

definition Mapping_add :: "bool \<Rightarrow> string \<Rightarrow> string \<Rightarrow> mapping \<Rightarrow> (mapping \<times> bool) result" where
  "Mapping_add asserts exch symbol m =
     (if m_exchange m \<noteq> exch then Inr (m, False)
      else bind_result (insert_or_fatal (uset_emplace symbol (m_processed m))) (\<lambda>processed.
        let m = m\<lparr>m_processed := processed\<rparr>
        in bind_result
             (case m_source_regex m symbol of
                None \<Rightarrow> Inr (m, False)
              | Some key \<Rightarrow> bind_result (add_source asserts key symbol m) (\<lambda>m. Inr (m, True)))
             (add_targets asserts symbol (m_targets_regex m))))"

text \<open>
  \<open>dispatch\<close> calls the callback with the mapping's own exchange and each target, and returns
  whether there was an entry; the model returns the calls in order.
\<close>

definition Mapping_dispatch :: "mapping \<Rightarrow> string \<Rightarrow> string \<Rightarrow> (string \<times> string) list \<times> bool" where
  "Mapping_dispatch m exch symbol =
     (case umap_find (m_outbound m) symbol of
        None \<Rightarrow> ([], False)
      | Some symbols \<Rightarrow> (map (\<lambda>target. (m_exchange m, target)) symbols, True))"

section \<open>The table as a join\<close>

text \<open>
  \<open>table_inv S T m\<close>: the maps of \<open>m\<close> hold exactly the source pairs \<open>S\<close> and the target
  pairs \<open>T\<close> (both of key and symbol), and the outbound table is their join over the key.
\<close>

definition table_inv :: "(string \<times> string) set \<Rightarrow> (string \<times> string) set \<Rightarrow> mapping \<Rightarrow> bool" where
  "table_inv S T m \<longleftrightarrow>
     (\<forall>k s. umap_find (m_source m) k = Some s \<longleftrightarrow> (k, s) \<in> S) \<and>
     (\<forall>k. distinct (umap_index [] (m_target m) k) \<and>
          set (umap_index [] (m_target m) k) = {t. (k, t) \<in> T} \<and>
          umap_find (m_target m) k \<noteq> Some []) \<and>
     (\<forall>s. distinct (umap_index [] (m_outbound m) s) \<and>
          set (umap_index [] (m_outbound m) s) = {t. \<exists>k. (k, s) \<in> S \<and> (k, t) \<in> T} \<and>
          umap_find (m_outbound m) s \<noteq> Some []) \<and>
     (\<forall>k k' s. (k, s) \<in> S \<longrightarrow> (k', s) \<in> S \<longrightarrow> k = k')"

lemma umap_index_assign [simp]:
  "umap_index d (umap_assign k v m) k' = (if k' = k then v else umap_index d m k')"
  by (simp add: umap_index_def)

lemma umap_index_None: "umap_find m k = None \<Longrightarrow> umap_index d m k = d"
  by (simp add: umap_index_def)

lemma umap_index_Some: "umap_find m k = Some v \<Longrightarrow> umap_index d m k = v"
  by (simp add: umap_index_def)

lemma emplace_asserted_fresh:
  "x \<notin> set s \<Longrightarrow> emplace_asserted asserts x s = Inr (s @ [x])"
  by (simp add: emplace_asserted_def uset_emplace_def)

lemma emplace_all_asserted:
  "distinct xs \<Longrightarrow> set xs \<inter> set s = {} \<Longrightarrow> fold_result (emplace_asserted asserts) xs s = Inr (s @ xs)"
  by (induction xs arbitrary: s) (simp_all add: emplace_asserted_fresh)

lemma table_invD:
  assumes "table_inv S T m"
  shows table_inv_source: "umap_find (m_source m) k = Some s \<longleftrightarrow> (k, s) \<in> S"
    and table_inv_target: "distinct (umap_index [] (m_target m) k)"
      "set (umap_index [] (m_target m) k) = {t. (k, t) \<in> T}" "umap_find (m_target m) k \<noteq> Some []"
    and table_inv_outbound: "distinct (umap_index [] (m_outbound m) s)"
      "set (umap_index [] (m_outbound m) s) = {t. \<exists>k. (k, s) \<in> S \<and> (k, t) \<in> T}"
      "umap_find (m_outbound m) s \<noteq> Some []"
    and table_inv_key: "(k, s) \<in> S \<Longrightarrow> (k', s) \<in> S \<Longrightarrow> k = k'"
  using assms unfolding table_inv_def by blast+

lemma table_invI:
  assumes "\<And>k s. umap_find (m_source m) k = Some s \<longleftrightarrow> (k, s) \<in> S"
    and "\<And>k. distinct (umap_index [] (m_target m) k)"
    and "\<And>k. set (umap_index [] (m_target m) k) = {t. (k, t) \<in> T}"
    and "\<And>k. umap_find (m_target m) k \<noteq> Some []"
    and "\<And>s. distinct (umap_index [] (m_outbound m) s)"
    and "\<And>s. set (umap_index [] (m_outbound m) s) = {t. \<exists>k. (k, s) \<in> S \<and> (k, t) \<in> T}"
    and "\<And>s. umap_find (m_outbound m) s \<noteq> Some []"
    and "\<And>k k' s. (k, s) \<in> S \<Longrightarrow> (k', s) \<in> S \<Longrightarrow> k = k'"
  shows "table_inv S T m"
  using assms unfolding table_inv_def by blast

text \<open>A symbol that is the source of no key yet keeps the keys of sources unique.\<close>

lemma source_key_insert:
  assumes "table_inv S T m" and "symbol \<notin> Range S"
    and "(k, s) \<in> insert (key, symbol) S" and "(k', s) \<in> insert (key, symbol) S"
  shows "k = k'"
  using assms table_inv_key [OF assms(1)] by (auto simp: Range_iff)

lemma table_inv_source_key:
  assumes "table_inv S T m"
  shows "umap_find (m_source m) k = None \<longleftrightarrow> k \<notin> Domain S"
  using table_inv_source [OF assms, of k] by (metis Domain_iff not_None_eq)

lemma table_inv_no_target:
  assumes "table_inv S T m" and "umap_find (m_target m) k = None"
  shows "(k, t) \<notin> T"
  using table_inv_target(2) [OF assms(1), of k] assms(2) by (auto simp: umap_index_None)

text \<open>
  Adding a source stops the process exactly when the key has a source already; otherwise the
  table becomes the join with the new pair, and no assertion fails on the way.
\<close>

lemma add_source_fatal:
  assumes "table_inv S T m" and "key \<in> Domain S"
  shows "add_source asserts key symbol m = fatal"
proof -
  have "umap_find (m_source m) key \<noteq> None"
    using table_inv_source_key [OF assms(1), of key] assms(2) by blast
  then show ?thesis by (simp only: add_source_def umap_emplace_def insert_or_fatal_def) simp
qed

lemma add_source_ok:
  assumes inv: "table_inv S T m" and key: "key \<notin> Domain S" and sym: "symbol \<notin> Range S"
  obtains m' where "add_source asserts key symbol m = Inr m'"
    and "table_inv (insert (key, symbol) S) T m'"
    and "m_processed m' = m_processed m" "m_exchange m' = m_exchange m"
    and "m_source_regex m' = m_source_regex m" "m_targets_regex m' = m_targets_regex m"
proof -
  let ?src = "m_source m @ [(key, symbol)]"
  have none: "umap_find (m_source m) key = None"
    using table_inv_source_key [OF inv] key by simp
  have src: "umap_find ?src k = Some s \<longleftrightarrow> (k, s) \<in> insert (key, symbol) S" for k s
    using table_inv_source [OF inv, of k s] none
    by (cases "k = key") (auto simp: map_of_snoc simp del: map_of_append split: option.splits)
  have empty: "umap_find (m_outbound m) symbol = None" "umap_index [] (m_outbound m) symbol = []"
  proof -
    have "set (umap_index [] (m_outbound m) symbol) = {}"
      using table_inv_outbound(2) [OF inv, of symbol] sym by auto
    then show "umap_index [] (m_outbound m) symbol = []" by simp
    with table_inv_outbound(3) [OF inv, of symbol] show "umap_find (m_outbound m) symbol = None"
      by (auto simp: umap_index_def split: option.splits)
  qed
  show thesis
  proof (cases "umap_find (m_target m) key")
    case None
    note noT = table_inv_no_target [OF inv None]
    have "table_inv (insert (key, symbol) S) T (m\<lparr>m_source := ?src\<rparr>)"
    proof (rule table_invI)
      fix s
      show "set (umap_index [] (m_outbound (m\<lparr>m_source := ?src\<rparr>)) s) =
          {t. \<exists>k. (k, s) \<in> insert (key, symbol) S \<and> (k, t) \<in> T}"
        using table_inv_outbound(2) [OF inv, of s] noT by auto
      show "umap_find (m_source (m\<lparr>m_source := ?src\<rparr>)) k = Some s \<longleftrightarrow> (k, s) \<in> insert (key, symbol) S" for k
        using src by simp
      show "k = k'" if "(k, s) \<in> insert (key, symbol) S" "(k', s) \<in> insert (key, symbol) S" for k k'
        by (rule source_key_insert [OF inv sym that])
    qed (simp_all add: table_inv_target [OF inv] table_inv_outbound [OF inv])
    with None none show thesis
      by (intro that [of "m\<lparr>m_source := ?src\<rparr>"])
        (simp_all add: add_source_def umap_emplace_def insert_or_fatal_def)
  next
    case (Some symbols)
    then have symbols: "distinct symbols" "set symbols = {t. (key, t) \<in> T}" "symbols \<noteq> []"
      using table_inv_target [OF inv, of key] by (auto simp: umap_index_Some)
    let ?m = "m\<lparr>m_source := ?src, m_outbound := umap_assign symbol symbols (m_outbound m)\<rparr>"
    have "table_inv (insert (key, symbol) S) T ?m"
    proof (rule table_invI)
      fix s
      have "(k, symbol) \<notin> S" for k using sym by auto
      then show "set (umap_index [] (m_outbound ?m) s) =
          {t. \<exists>k. (k, s) \<in> insert (key, symbol) S \<and> (k, t) \<in> T}"
        using table_inv_outbound(2) [OF inv, of s] symbols(2) by (cases "s = symbol") auto
      show "umap_find (m_source ?m) k = Some s \<longleftrightarrow> (k, s) \<in> insert (key, symbol) S" for k
        using src by simp
      show "k = k'" if "(k, s) \<in> insert (key, symbol) S" "(k', s) \<in> insert (key, symbol) S" for k k'
        by (rule source_key_insert [OF inv sym that])
    qed (simp_all add: table_inv_target [OF inv] table_inv_outbound [OF inv] symbols)
    moreover have "add_source asserts key symbol m = Inr ?m"
      using Some none symbols(1)
      by (simp add: add_source_def umap_emplace_def insert_or_fatal_def empty(2) emplace_all_asserted)
    ultimately show thesis by (intro that [of ?m]) simp_all
  qed
qed

text \<open>Adding a target stops the process exactly when the pair is in the table already.\<close>

lemma add_target_fatal:
  assumes "table_inv S T m" and "(key, symbol) \<in> T"
  shows "add_target asserts key symbol m = fatal"
  using assms by (simp add: add_target_def uset_emplace_def insert_or_fatal_def table_inv_def)

lemma add_target_ok:
  assumes inv: "table_inv S T m" and new: "(key, symbol) \<notin> T"
  obtains m' where "add_target asserts key symbol m = Inr m'"
    and "table_inv S (insert (key, symbol) T) m'"
    and "m_processed m' = m_processed m" "m_exchange m' = m_exchange m"
    and "m_source_regex m' = m_source_regex m" "m_targets_regex m' = m_targets_regex m"
proof -
  let ?tgt = "umap_index [] (m_target m) key @ [symbol]"
  have fresh: "symbol \<notin> set (umap_index [] (m_target m) key)"
    using inv new by (auto simp: table_inv_def)
  show thesis
  proof (cases "umap_find (m_source m) key")
    case None
    then have noS: "(key, s) \<notin> S" for s
      using table_inv_source_key [OF inv] by auto
    let ?m = "m\<lparr>m_target := umap_assign key ?tgt (m_target m)\<rparr>"
    have "table_inv S (insert (key, symbol) T) ?m"
    proof (rule table_invI)
      fix k s
      show "set (umap_index [] (m_target ?m) k) = {t. (k, t) \<in> insert (key, symbol) T}"
        using table_inv_target(2) [OF inv] by auto
      show "set (umap_index [] (m_outbound ?m) s) =
          {t. \<exists>k. (k, s) \<in> S \<and> (k, t) \<in> insert (key, symbol) T}"
        using table_inv_outbound(2) [OF inv, of s] noS by auto
      show "k = k'" if "(k, s) \<in> S" "(k', s) \<in> S" for k'
        by (rule table_inv_key [OF inv that])
    qed (simp_all add: new fresh table_inv_source [OF inv] table_inv_target [OF inv] table_inv_outbound [OF inv])
    moreover have "add_target asserts key symbol m = Inr ?m"
      using None fresh by (simp add: add_target_def uset_emplace_def insert_or_fatal_def)
    ultimately show thesis by (intro that [of ?m]) simp_all
  next
    case (Some source)
    then have S: "(key, source) \<in> S" using inv by (simp add: table_inv_def)
    have fresh': "symbol \<notin> set (umap_index [] (m_outbound m) source)"
      using table_inv_outbound(2) [OF inv, of source] table_inv_key [OF inv S] new by auto
    let ?m = "m\<lparr>m_target := umap_assign key ?tgt (m_target m),
                m_outbound := umap_assign source (umap_index [] (m_outbound m) source @ [symbol]) (m_outbound m)\<rparr>"
    have srcs: "(key, s) \<in> S \<longleftrightarrow> s = source" for s
      using table_inv_source [OF inv, of key s] Some by auto
    have "table_inv S (insert (key, symbol) T) ?m"
    proof (rule table_invI)
      fix k s
      show "set (umap_index [] (m_target ?m) k) = {t. (k, t) \<in> insert (key, symbol) T}"
        using table_inv_target(2) [OF inv] by auto
      show "set (umap_index [] (m_outbound ?m) s) =
          {t. \<exists>k. (k, s) \<in> S \<and> (k, t) \<in> insert (key, symbol) T}"
        using table_inv_outbound(2) [OF inv, of s] srcs S by (cases "s = source") auto
      show "k = k'" if "(k, s) \<in> S" "(k', s) \<in> S" for k'
        by (rule table_inv_key [OF inv that])
      show "distinct (umap_index [] (m_outbound ?m) s)"
        using table_inv_outbound(1) [OF inv] fresh' by simp
    qed (simp_all add: new fresh table_inv_source [OF inv] table_inv_target [OF inv]
           table_inv_outbound(3) [OF inv])
    moreover have "add_target asserts key symbol m = Inr ?m"
      using Some fresh fresh'
      by (simp add: add_target_def uset_emplace_def insert_or_fatal_def emplace_asserted_fresh)
    ultimately show thesis by (intro that [of ?m]) simp_all
  qed
qed

section \<open>Whole symbols\<close>

definition source_pairs :: "mapping \<Rightarrow> string set \<Rightarrow> (string \<times> string) set" where
  "source_pairs m P = {(k, s). s \<in> P \<and> m_source_regex m s = Some k}"

definition target_keys :: "pattern list \<Rightarrow> string \<Rightarrow> string list" where
  "target_keys regexes t = List.map_filter (\<lambda>r. r t) regexes"

definition target_pairs :: "mapping \<Rightarrow> string set \<Rightarrow> (string \<times> string) set" where
  "target_pairs m P = {(k, t). t \<in> P \<and> k \<in> set (target_keys (m_targets_regex m) t)}"

definition mapping_inv :: "mapping \<Rightarrow> bool" where
  "mapping_inv m \<longleftrightarrow> distinct (m_processed m) \<and>
     table_inv (source_pairs m (set (m_processed m))) (target_pairs m (set (m_processed m))) m"

text \<open>What the constructor fixes: the exchange and the expressions.\<close>

definition same_config :: "mapping \<Rightarrow> mapping \<Rightarrow> bool" where
  "same_config m m' \<longleftrightarrow> m_exchange m' = m_exchange m \<and> m_source_regex m' = m_source_regex m \<and>
     m_targets_regex m' = m_targets_regex m"

lemma target_keys_simps [simp]:
  "target_keys [] t = []"
  "target_keys (r # rs) t = (case r t of None \<Rightarrow> target_keys rs t | Some k \<Rightarrow> k # target_keys rs t)"
  by (simp_all add: target_keys_def List.map_filter_simps split: option.splits)

lemma set_target_keys: "set (target_keys rs t) = {k. \<exists>r \<in> set rs. r t = Some k}"
  by (induction rs) (auto split: option.splits)

lemma mapping_inv_create: "mapping_inv (Mapping_create compile nm exch source targets)"
  by (auto simp: mapping_inv_def Mapping_create_def source_pairs_def target_pairs_def
      umap_index_def intro!: table_invI)

lemma add_targets_simps [simp]:
  "add_targets asserts symbol [] p = Inr p"
  "add_targets asserts symbol (r # rs) (m, res) =
     (case r symbol of None \<Rightarrow> add_targets asserts symbol rs (m, res)
      | Some key \<Rightarrow> bind_result (add_target asserts key symbol m)
                      (\<lambda>m. add_targets asserts symbol rs (m, True)))"
  by (simp_all add: add_targets_def bind_bind_result split: option.splits)

lemma add_targets_spec:
  assumes "table_inv S T m"
  shows "if distinct (target_keys rs symbol) \<and> (\<forall>k \<in> set (target_keys rs symbol). (k, symbol) \<notin> T)
    then \<exists>m'. add_targets asserts symbol rs (m, res) = Inr (m', res \<or> target_keys rs symbol \<noteq> []) \<and>
           table_inv S (T \<union> {(k, symbol) | k. k \<in> set (target_keys rs symbol)}) m' \<and>
           same_config m m' \<and> m_processed m' = m_processed m
    else add_targets asserts symbol rs (m, res) = fatal"
  using assms
proof (induction rs arbitrary: m T res)
  case Nil
  then show ?case by (simp add: same_config_def)
next
  case (Cons r rs)
  show ?case
  proof (cases "r symbol")
    case None
    then show ?thesis using Cons.IH [OF Cons.prems] by simp
  next
    case (Some key)
    show ?thesis
    proof (cases "(key, symbol) \<in> T")
      case True
      then have "add_targets asserts symbol (r # rs) (m, res) = fatal"
        using add_target_fatal [OF Cons.prems] Some by simp
      with True Some show ?thesis by simp
    next
      case False
      obtain m1 where m1: "add_target asserts key symbol m = Inr m1"
        and inv1: "table_inv S (insert (key, symbol) T) m1"
        and cfg: "m_processed m1 = m_processed m" "same_config m m1"
        by (rule add_target_ok [OF Cons.prems False]) (auto simp: same_config_def)
      have step: "add_targets asserts symbol (r # rs) (m, res) = add_targets asserts symbol rs (m1, True)"
        using m1 Some by simp
      have set_eq: "insert (key, symbol) T \<union> {(k, symbol) | k. k \<in> set (target_keys rs symbol)} =
          T \<union> {(k, symbol) | k. k \<in> set (target_keys (r # rs) symbol)}"
        using Some by auto
      from Cons.IH [OF inv1, of True] cfg Some False show ?thesis
        unfolding step set_eq by (auto simp: same_config_def split: if_splits)
    qed
  qed
qed

text \<open>A symbol the mapping can take: new, with a source key of its own, no key twice.\<close>

definition acceptable :: "mapping \<Rightarrow> string \<Rightarrow> bool" where
  "acceptable m symbol \<longleftrightarrow> symbol \<notin> set (m_processed m) \<and>
     (\<forall>k s. m_source_regex m symbol = Some k \<longrightarrow> s \<in> set (m_processed m) \<longrightarrow> m_source_regex m s \<noteq> Some k) \<and>
     distinct (target_keys (m_targets_regex m) symbol)"

definition relevant :: "mapping \<Rightarrow> string \<Rightarrow> bool" where
  "relevant m symbol \<longleftrightarrow> m_source_regex m symbol \<noteq> None \<or> target_keys (m_targets_regex m) symbol \<noteq> []"

lemma pairs_insert:
  "source_pairs m (insert x P) = source_pairs m P \<union> {(k, x) | k. m_source_regex m x = Some k}"
  "target_pairs m (insert x P) = target_pairs m P \<union> {(k, x) | k. k \<in> set (target_keys (m_targets_regex m) x)}"
  by (auto simp: source_pairs_def target_pairs_def)

lemma table_inv_cong:
  "m_source m' = m_source m \<Longrightarrow> m_target m' = m_target m \<Longrightarrow> m_outbound m' = m_outbound m \<Longrightarrow>
   table_inv S T m' = table_inv S T m"
  by (simp add: table_inv_def)

lemma pairs_cong:
  "same_config m m' \<Longrightarrow> source_pairs m' P = source_pairs m P \<and> target_pairs m' P = target_pairs m P"
  by (simp add: source_pairs_def target_pairs_def same_config_def)

lemma source_key_taken:
  "m_source_regex m symbol = Some key \<Longrightarrow>
   key \<in> Domain (source_pairs m P) \<longleftrightarrow> (\<exists>s \<in> P. m_source_regex m s = Some key)"
  by (auto simp: source_pairs_def)

lemma Mapping_add_other_exchange: "m_exchange m \<noteq> exch \<Longrightarrow> Mapping_add asserts exch symbol m = Inr (m, False)"
  by (simp add: Mapping_add_def)

text \<open>The source half of \<open>add\<close>, on a mapping that has just recorded the symbol.\<close>

lemma add_source_half:
  assumes inv: "table_inv (source_pairs m P) (target_pairs m P) m" and new: "symbol \<notin> P"
  shows "if \<forall>k s. m_source_regex m symbol = Some k \<longrightarrow> s \<in> P \<longrightarrow> m_source_regex m s \<noteq> Some k
    then \<exists>m'. (case m_source_regex m symbol of None \<Rightarrow> Inr (m, False)
                | Some key \<Rightarrow> bind_result (add_source asserts key symbol m) (\<lambda>m. Inr (m, True))) =
              Inr (m', m_source_regex m symbol \<noteq> None) \<and>
           table_inv (source_pairs m (insert symbol P)) (target_pairs m P) m' \<and>
           same_config m m' \<and> m_processed m' = m_processed m
    else (case m_source_regex m symbol of None \<Rightarrow> Inr (m, False)
            | Some key \<Rightarrow> bind_result (add_source asserts key symbol m) (\<lambda>m. Inr (m, True))) = fatal"
proof (cases "m_source_regex m symbol")
  case None
  with inv show ?thesis by (simp add: pairs_insert same_config_def)
next
  case (Some key)
  show ?thesis
  proof (cases "key \<in> Domain (source_pairs m P)")
    case True
    with add_source_fatal [OF inv True] Some show ?thesis
      by (auto simp: source_key_taken [OF Some])
  next
    case False
    have rng: "symbol \<notin> Range (source_pairs m P)" using new by (auto simp: source_pairs_def)
    obtain m' where "add_source asserts key symbol m = Inr m'"
      "table_inv (insert (key, symbol) (source_pairs m P)) (target_pairs m P) m'"
      "m_processed m' = m_processed m" "same_config m m'"
      by (rule add_source_ok [OF inv False rng]) (auto simp: same_config_def)
    moreover have "source_pairs m (insert symbol P) = insert (key, symbol) (source_pairs m P)"
      using Some by (auto simp: source_pairs_def)
    ultimately show ?thesis using False Some by (auto simp: source_key_taken [OF Some])
  qed
qed

lemma Mapping_add_spec:
  assumes inv: "mapping_inv m" and exch: "m_exchange m = exch"
  shows "if acceptable m symbol
    then \<exists>m'. Mapping_add asserts exch symbol m = Inr (m', relevant m symbol) \<and> mapping_inv m' \<and>
           same_config m m' \<and> m_processed m' = m_processed m @ [symbol]
    else Mapping_add asserts exch symbol m = fatal"
proof (cases "symbol \<in> set (m_processed m)")
  case True
  then show ?thesis
    using exch by (simp add: Mapping_add_def acceptable_def uset_emplace_def insert_or_fatal_def)
next
  case False
  let ?P = "set (m_processed m)" and ?m = "m\<lparr>m_processed := m_processed m @ [symbol]\<rparr>"
  let ?src = "case m_source_regex ?m symbol of None \<Rightarrow> Inr (?m, False)
      | Some key \<Rightarrow> bind_result (add_source asserts key symbol ?m) (\<lambda>m. Inr (m, True))"
  have cfg: "same_config m ?m" by (simp add: same_config_def)
  have tinv: "table_inv (source_pairs ?m ?P) (target_pairs ?m ?P) ?m"
    using inv pairs_cong [OF cfg] table_inv_cong [of ?m m] by (simp add: mapping_inv_def)
  have add: "Mapping_add asserts exch symbol m =
      bind_result ?src (add_targets asserts symbol (m_targets_regex m))"
    using False exch by (simp add: Mapping_add_def uset_emplace_def insert_or_fatal_def Let_def)
  note half = add_source_half [OF tinv False, of asserts]
  show ?thesis
  proof (cases "\<forall>k s. m_source_regex ?m symbol = Some k \<longrightarrow> s \<in> ?P \<longrightarrow> m_source_regex ?m s \<noteq> Some k")
    case False
    from half have "?src = fatal" unfolding if_not_P [OF False] .
    moreover from False have "\<not> acceptable m symbol" by (auto simp: acceptable_def)
    ultimately show ?thesis using add by simp
  next
    case True
    from half [unfolded if_P [OF True]] obtain m1 where m1: "?src = Inr (m1, m_source_regex m symbol \<noteq> None)"
      "table_inv (source_pairs ?m (insert symbol ?P)) (target_pairs ?m ?P) m1"
      "same_config ?m m1" "m_processed m1 = m_processed m @ [symbol]"
      by auto
    have new: "\<forall>k \<in> set (target_keys (m_targets_regex m) symbol). (k, symbol) \<notin> target_pairs ?m ?P"
      using \<open>symbol \<notin> ?P\<close> by (simp add: target_pairs_def)
    note targets = add_targets_spec [OF m1(2), of "m_targets_regex m" symbol asserts
        "m_source_regex m symbol \<noteq> None"]
    have pairs: "target_pairs ?m ?P \<union> {(k, symbol) | k. k \<in> set (target_keys (m_targets_regex m) symbol)}
        = target_pairs ?m (insert symbol ?P)"
      by (simp add: pairs_insert)
    show ?thesis
    proof (cases "distinct (target_keys (m_targets_regex m) symbol)")
      case False
      with targets add m1(1) show ?thesis by (simp add: acceptable_def)
    next
      case dist: True
      with targets new pairs obtain m' where m':
        "add_targets asserts symbol (m_targets_regex m) (m1, m_source_regex m symbol \<noteq> None) =
           Inr (m', relevant m symbol)"
        "table_inv (source_pairs ?m (insert symbol ?P)) (target_pairs ?m (insert symbol ?P)) m'"
        "same_config m1 m'" "m_processed m' = m_processed m @ [symbol]"
        using m1(4) by (auto simp: relevant_def)
      have cfg': "same_config m m'" using m1(3) m'(3) by (simp add: same_config_def)
      then have "same_config m' ?m" by (simp add: same_config_def)
      with m' inv \<open>symbol \<notin> ?P\<close> have "mapping_inv m'"
        using pairs_cong [of m' ?m] by (simp add: mapping_inv_def)
      moreover have "acceptable m symbol"
        using True dist \<open>symbol \<notin> ?P\<close> by (simp add: acceptable_def)
      ultimately show ?thesis using add m1(1) m' cfg' by auto
    qed
  qed
qed

section \<open>Sequences of symbols\<close>

text \<open>
  The calls of \<open>add\<close> that one mapping sees, one per symbol of its exchange
  (\<open>Shared::update_broadcast_table\<close> makes one of them for each mapping).
\<close>

definition add_symbols :: "bool \<Rightarrow> string \<Rightarrow> string list \<Rightarrow> mapping \<Rightarrow> mapping result" where
  "add_symbols asserts exch = fold_result (\<lambda>symbol m.
     bind_result (Mapping_add asserts exch symbol m) (\<lambda>(m, res). Inr m))"

text \<open>The abstract contract: which symbols a configuration can take, and who receives what.\<close>

definition admissible :: "mapping \<Rightarrow> string list \<Rightarrow> bool" where
  "admissible m symbols \<longleftrightarrow> distinct symbols \<and>
     (\<forall>s \<in> set symbols. \<forall>t \<in> set symbols. \<forall>k. m_source_regex m s = Some k \<longrightarrow>
        m_source_regex m t = Some k \<longrightarrow> s = t) \<and>
     (\<forall>s \<in> set symbols. distinct (target_keys (m_targets_regex m) s))"

definition receivers :: "mapping \<Rightarrow> string set \<Rightarrow> string \<Rightarrow> string set" where
  "receivers m P s = {t \<in> P. s \<in> P \<and>
     (\<exists>k. m_source_regex m s = Some k \<and> k \<in> set (target_keys (m_targets_regex m) t))}"

lemma admissible_snoc:
  "admissible m (xs @ [x]) \<longleftrightarrow> admissible m xs \<and> x \<notin> set xs \<and>
     (\<forall>k s. m_source_regex m x = Some k \<longrightarrow> s \<in> set xs \<longrightarrow> m_source_regex m s \<noteq> Some k) \<and>
     distinct (target_keys (m_targets_regex m) x)"
  by (auto simp: admissible_def)

lemma add_symbols_spec:
  assumes "mapping_inv m" and "m_exchange m = exch" and "admissible m (m_processed m)"
  shows "if admissible m (m_processed m @ symbols)
    then \<exists>m'. add_symbols asserts exch symbols m = Inr m' \<and> mapping_inv m' \<and> same_config m m' \<and>
           m_processed m' = m_processed m @ symbols
    else add_symbols asserts exch symbols m = fatal"
  using assms
proof (induction symbols arbitrary: m)
  case Nil
  then show ?case by (simp add: add_symbols_def same_config_def)
next
  case (Cons x xs)
  have acc: "acceptable m x \<longleftrightarrow> admissible m (m_processed m @ [x])"
    using Cons.prems(3) by (auto simp: admissible_snoc acceptable_def)
  show ?case
  proof (cases "acceptable m x")
    case False
    then have "add_symbols asserts exch (x # xs) m = fatal"
      using Mapping_add_spec [OF Cons.prems(1,2), of x asserts] by (simp add: add_symbols_def)
    moreover from False acc have "\<not> admissible m (m_processed m @ x # xs)"
      by (auto simp: admissible_def)
    ultimately show ?thesis by simp
  next
    case True
    with Mapping_add_spec [OF Cons.prems(1,2), of x asserts] obtain m1 where m1:
      "Mapping_add asserts exch x m = Inr (m1, relevant m x)" "mapping_inv m1" "same_config m m1"
      "m_processed m1 = m_processed m @ [x]"
      by auto
    have adm: "admissible m1 = admissible m" and exch: "m_exchange m1 = exch"
      using m1(3) Cons.prems(2) by (auto simp: same_config_def admissible_def fun_eq_iff)
    have step: "add_symbols asserts exch (x # xs) m = add_symbols asserts exch xs m1"
      using m1(1) by (simp add: add_symbols_def)
    have "admissible m1 (m_processed m1)" using True acc m1(4) adm by simp
    from Cons.IH [OF m1(2) exch this] show ?thesis
      using m1(3,4) adm step by (auto simp: same_config_def split: if_splits)
  qed
qed

lemma admissible_Nil [simp]: "admissible m []"
  by (simp add: admissible_def)

lemma created_simps [simp]:
  "m_processed (Mapping_create compile nm exch source targets) = []"
  "m_exchange (Mapping_create compile nm exch source targets) = exch"
  "m_source_regex (Mapping_create compile nm exch source targets) = compile source"
  "m_targets_regex (Mapping_create compile nm exch source targets) = map compile targets"
  by (simp_all add: Mapping_create_def create_regex_def)

lemmas add_symbols_created =
  add_symbols_spec [OF mapping_inv_create created_simps(2), unfolded created_simps(1), OF admissible_Nil, simplified]

lemma Mapping_dispatch_join:
  assumes "mapping_inv m"
  shows "set (fst (Mapping_dispatch m e s)) = {m_exchange m} \<times> receivers m (set (m_processed m)) s"
    and "distinct (fst (Mapping_dispatch m e s))"
    and "snd (Mapping_dispatch m e s) \<longleftrightarrow> receivers m (set (m_processed m)) s \<noteq> {}"
proof -
  let ?S = "source_pairs m (set (m_processed m))" and ?T = "target_pairs m (set (m_processed m))"
  from assms have tinv: "table_inv ?S ?T m" by (simp add: mapping_inv_def)
  have recv: "{t. \<exists>k. (k, s) \<in> ?S \<and> (k, t) \<in> ?T} = receivers m (set (m_processed m)) s"
    by (auto simp: source_pairs_def target_pairs_def receivers_def)
  note out = table_inv_outbound [OF tinv, of s, unfolded recv]
  show "set (fst (Mapping_dispatch m e s)) = {m_exchange m} \<times> receivers m (set (m_processed m)) s"
    using out by (auto simp: Mapping_dispatch_def umap_index_def split: option.splits)
  show "distinct (fst (Mapping_dispatch m e s))"
    using out by (auto simp: Mapping_dispatch_def umap_index_def distinct_map inj_on_def split: option.splits)
  show "snd (Mapping_dispatch m e s) \<longleftrightarrow> receivers m (set (m_processed m)) s \<noteq> {}"
    using out by (auto simp: Mapping_dispatch_def umap_index_def split: option.splits)
qed

section \<open>Properties\<close>

text \<open>
  C33 (mapping_total). Feeding the symbols of its exchange to a new mapping either succeeds or
  stops the process through \<open>log::fatal\<close>, and it succeeds exactly when no symbol arrives
  twice, no two symbols have the same source key, and no symbol has the same key from two
  target expressions. In particular none of the assertions of \<open>add_source\<close> and \<open>add_target\<close>
  can fail, whether or not they are compiled in.
\<close>

theorem mapping_total:
  "((\<exists>m. add_symbols asserts exch symbols (Mapping_create compile nm exch source targets) = Inr m) =
      admissible (Mapping_create compile nm exch source targets) symbols) \<and>
   add_symbols asserts exch symbols (Mapping_create compile nm exch source targets) \<in> {fatal} \<union> range Inr"
  using add_symbols_created [of compile nm exch source targets symbols asserts]
  by (auto split: if_splits)

text \<open>
  C3 (mapping_join). After any successful sequence of symbols, dispatching a symbol calls the
  callback once for each symbol that a target expression relates to it by key, with the
  mapping's own exchange, and reports \<open>true\<close> exactly when there is at least one. The table
  that is maintained step by step is thus the join of the source and the target expressions
  over the symbols seen.
\<close>

theorem mapping_join:
  assumes "add_symbols asserts exch symbols (Mapping_create compile nm exch source targets) = Inr m"
  shows "set (fst (Mapping_dispatch m e s)) =
      {exch} \<times> {t \<in> set symbols. s \<in> set symbols \<and>
         (\<exists>k r. compile source s = Some k \<and> r \<in> set targets \<and> compile r t = Some k)} \<and>
    distinct (fst (Mapping_dispatch m e s)) \<and>
    snd (Mapping_dispatch m e s) = (fst (Mapping_dispatch m e s) \<noteq> [])"
proof -
  from assms add_symbols_created [of compile nm exch source targets symbols asserts]
  have m: "mapping_inv m" "same_config (Mapping_create compile nm exch source targets) m"
    "m_processed m = symbols"
    by (auto split: if_splits)
  then have recv: "receivers m (set (m_processed m)) s = {t \<in> set symbols. s \<in> set symbols \<and>
         (\<exists>k r. compile source s = Some k \<and> r \<in> set targets \<and> compile r t = Some k)}"
    by (auto simp: receivers_def same_config_def set_target_keys)
  have "fst (Mapping_dispatch m e s) = [] \<longleftrightarrow> receivers m (set (m_processed m)) s = {}"
    using Mapping_dispatch_join(1) [OF m(1), of e s] by (metis Times_empty insert_not_empty set_empty)
  with m(2) Mapping_dispatch_join [OF m(1), of e s] show ?thesis
    by (simp add: recv same_config_def)
qed

text \<open>The example of the repository's own test: the index of an underlying and its contracts.\<close>

definition suffix_pattern :: "string \<Rightarrow> pattern" where
  "suffix_pattern suffix symbol =
     (let n = length symbol - length suffix
      in if drop n symbol = suffix \<and> 0 < n then Some (take n symbol) else None)"

definition deribit_mapping :: mapping where
  "deribit_mapping =
     Mapping_create_single suffix_pattern ''test'' ''deribit'' ''-DERIBIT-INDEX'' ''-PERPETUAL''"

definition deribit_symbols :: "string list" where
  "deribit_symbols = [''BTC-PERPETUAL'', ''BTC-DERIBIT-INDEX'', ''BTC-22JAN22'', ''BTCUSDT'']"

lemmas mapping_eval = deribit_mapping_def deribit_symbols_def Mapping_create_single_def
  Mapping_create_def create_regex_def suffix_pattern_def Let_def

lemma deribit_keys:
  "suffix_pattern ''-DERIBIT-INDEX'' ''BTC-DERIBIT-INDEX'' = Some ''BTC''"
  "suffix_pattern ''-DERIBIT-INDEX'' ''BTC-PERPETUAL'' = None"
  "suffix_pattern ''-PERPETUAL'' ''BTC-PERPETUAL'' = Some ''BTC''"
  "suffix_pattern ''-PERPETUAL'' ''BTC-DERIBIT-INDEX'' = None"
  "suffix_pattern ''-PERPETUAL'' ''BTC-22JAN22'' = None"
  "suffix_pattern ''-PERPETUAL'' ''BTCUSDT'' = None"
  by (simp_all add: suffix_pattern_def)

lemma deribit_receivers:
  "{t \<in> set deribit_symbols. ''BTC-DERIBIT-INDEX'' \<in> set deribit_symbols \<and>
     (\<exists>k r. suffix_pattern ''-DERIBIT-INDEX'' ''BTC-DERIBIT-INDEX'' = Some k \<and>
        r \<in> set [''-PERPETUAL''] \<and> suffix_pattern r t = Some k)} = {''BTC-PERPETUAL''}"
  unfolding deribit_symbols_def by (auto simp: deribit_keys)

lemma deribit_run:
  "\<exists>m. add_symbols True ''deribit'' deribit_symbols deribit_mapping = Inr m \<and>
       m_outbound m = [(''BTC-DERIBIT-INDEX'', [''BTC-PERPETUAL''])]"
  by (simp add: mapping_eval add_symbols_def Mapping_add_def add_source_def add_target_def
      add_targets_def uset_emplace_def umap_emplace_def insert_or_fatal_def umap_index_def
      emplace_asserted_def rassert_def umap_assign_def)

theorem mapping_join_witness:
  "\<exists>m. add_symbols True ''deribit'' deribit_symbols deribit_mapping = Inr m \<and>
     set (fst (Mapping_dispatch m ''deribit'' ''BTC-DERIBIT-INDEX'')) = {(''deribit'', ''BTC-PERPETUAL'')} \<and>
     \<not> snd (Mapping_dispatch m ''deribit'' ''BTC-PERPETUAL'')"
proof -
  obtain m where m: "add_symbols True ''deribit'' deribit_symbols deribit_mapping = Inr m"
    using deribit_run by blast
  note join = mapping_join [OF m [unfolded deribit_mapping_def Mapping_create_single_def]]
  have "set (fst (Mapping_dispatch m ''deribit'' ''BTC-DERIBIT-INDEX'')) = {(''deribit'', ''BTC-PERPETUAL'')}"
    using join [of "''deribit''" "''BTC-DERIBIT-INDEX''"] unfolding deribit_receivers by simp
  moreover have "fst (Mapping_dispatch m ''deribit'' ''BTC-PERPETUAL'') = []"
    using join [of "''deribit''" "''BTC-PERPETUAL''"] unfolding deribit_keys by simp
  ultimately show ?thesis
    using m join [of "''deribit''" "''BTC-PERPETUAL''"] by blast
qed

text \<open>
  C22 (mapping_order_independent). The order in which symbols are discovered does not matter: a
  permutation of a sequence that was taken is taken too, and every symbol is dispatched to the
  same targets.
\<close>

theorem mapping_order_independent:
  assumes "mset xs = mset ys"
    and "add_symbols asserts exch xs (Mapping_create compile nm exch source targets) = Inr m"
  shows "\<exists>m'. add_symbols asserts2 exch ys (Mapping_create compile nm exch source targets) = Inr m' \<and>
    (\<forall>e s. set (fst (Mapping_dispatch m' e s)) = set (fst (Mapping_dispatch m e s)) \<and>
           snd (Mapping_dispatch m' e s) = snd (Mapping_dispatch m e s))"
proof -
  let ?c = "Mapping_create compile nm exch source targets"
  have eq: "set xs = set ys" "distinct xs = distinct ys"
    using assms(1) mset_eq_setD mset_eq_imp_distinct_iff by blast+
  from assms(2) add_symbols_created [of compile nm exch source targets xs asserts]
  have m: "admissible ?c xs" "mapping_inv m" "same_config ?c m" "m_processed m = xs"
    by (auto split: if_splits)
  from m(1) eq have "admissible ?c ys" by (simp add: admissible_def)
  with add_symbols_created [of compile nm exch source targets ys asserts2] obtain m' where
    m': "add_symbols asserts2 exch ys ?c = Inr m'" "mapping_inv m'" "same_config ?c m'" "m_processed m' = ys"
    by auto
  have "receivers m' P = receivers m P" "m_exchange m' = m_exchange m" for P
    using m(3) m'(3) by (simp_all add: receivers_def same_config_def fun_eq_iff)
  with m'(1,4) m(4) eq Mapping_dispatch_join [OF m(2)] Mapping_dispatch_join [OF m'(2)] show ?thesis
    by auto
qed

theorem mapping_order_independent_witness:
  "\<exists>m m'. add_symbols True ''deribit'' deribit_symbols deribit_mapping = Inr m \<and>
     add_symbols False ''deribit'' (rev deribit_symbols) deribit_mapping = Inr m' \<and>
     set (fst (Mapping_dispatch m' [] ''BTC-DERIBIT-INDEX'')) =
     set (fst (Mapping_dispatch m [] ''BTC-DERIBIT-INDEX''))"
proof -
  obtain m where m: "add_symbols True ''deribit'' deribit_symbols deribit_mapping = Inr m"
    using deribit_run by blast
  have "mset deribit_symbols = mset (rev deribit_symbols)" by simp
  from mapping_order_independent [OF this m [unfolded deribit_mapping_def Mapping_create_single_def],
      of False]
  obtain m' where "add_symbols False ''deribit'' (rev deribit_symbols) deribit_mapping = Inr m'"
    and "\<forall>e s. set (fst (Mapping_dispatch m' e s)) = set (fst (Mapping_dispatch m e s))"
    unfolding deribit_mapping_def Mapping_create_single_def by blast
  with m show ?thesis by blast
qed

end
