(* ===== verification/Crypto.thy ===== *)
theory Crypto
  imports Model_Data
begin

text \<open>
  \<open>tools/crypto.cpp\<close>: the three ways a logon password is checked. What a component that checks
  credentials relies on is stated as the interface \<open>authenticator\<close>, whose instance is
  \<open>validate\<close>; the remaining lemmas give each method's meaning, the window in which a
  timestamped signature is accepted, and the one input for which the time arithmetic is
  undefined.
\<close>

section \<open>Methods\<close>

datatype crypto_method = UNDEFINED_METHOD | HMAC_SHA256 | HMAC_SHA256_TS

definition parse_method :: "string \<Rightarrow> crypto_method result" where
  "parse_method auth_method =
     (if auth_method = [] then Inr UNDEFINED_METHOD
      else if auth_method = ''hmac_sha256'' then Inr HMAC_SHA256
      else if auth_method = ''hmac_sha256_ts'' then Inr HMAC_SHA256_TS
      else fatal)"

record crypto =
  c_method :: crypto_method
  c_timestamp_tolerance :: nanos

definition Crypto_create :: "string \<Rightarrow> nanos \<Rightarrow> crypto result" where
  "Crypto_create auth_method tolerance =
     bind_result (parse_method auth_method) (\<lambda>method.
       Inr \<lparr>c_method = method, c_timestamp_tolerance = tolerance\<rparr>)"

text \<open>
  The keyed hash, the base64 encoding and the number parser come from libraries outside the
  repository: the digest of a text under a key, the encoding of a digest with its two flags, and
  the parser, which may throw.
\<close>

record crypto_lib =
  lib_hmac :: "string \<Rightarrow> string \<Rightarrow> bytes"
  lib_base64 :: "bytes \<Rightarrow> bool \<Rightarrow> bool \<Rightarrow> string"
  lib_from_chars_i64 :: "string \<Rightarrow> int result"

definition signature :: "crypto_lib \<Rightarrow> string \<Rightarrow> string \<Rightarrow> string" where
  "signature lib secret raw_data = lib_base64 lib (lib_hmac lib secret raw_data) False False"

section \<open>Signed arithmetic\<close>

text \<open>
  \<open>std::chrono\<close> durations are signed 64-bit numbers. Comparing milliseconds with nanoseconds
  converts the former, which multiplies by a million; where a product or a difference does not
  fit, the behaviour is undefined.
\<close>

definition checked_i64 :: "int \<Rightarrow> int result" where
  "checked_i64 x = (if in_i64 x then Inr x else Inl (Fault Undefined_behaviour))"

definition nanos_of_millis :: "int \<Rightarrow> nanos result" where
  "nanos_of_millis t = checked_i64 (t * 1000000)"

lemma checked_i64_eq_Inr: "checked_i64 x = Inr y \<longleftrightarrow> in_i64 x \<and> y = x"
  by (auto simp: checked_i64_def)

section \<open>Validation\<close>

definition validate_timestamp :: "crypto_lib \<Rightarrow> crypto \<Rightarrow> nanos \<Rightarrow> string \<Rightarrow> bool result" where
  "validate_timestamp lib c now raw_data =
     (if CHR ''.'' \<notin> set raw_data then Inr False
      else bind_result (lib_from_chars_i64 lib (takeWhile (\<lambda>x. x \<noteq> CHR ''.'') raw_data)) (\<lambda>tmp.
        bind_result (nanos_of_millis tmp) (\<lambda>sending_time_utc.
        bind_result (if sending_time_utc < now then checked_i64 (now - sending_time_utc)
                     else checked_i64 (sending_time_utc - now)) (\<lambda>diff.
        Inr (\<not> diff > c_timestamp_tolerance c)))))"

definition validate ::
  "crypto_lib \<Rightarrow> crypto \<Rightarrow> nanos \<Rightarrow> string \<Rightarrow> string \<Rightarrow> string \<Rightarrow> bool result" where
  "validate lib c now password secret raw_data =
     (case c_method c of
        UNDEFINED_METHOD \<Rightarrow> Inr (password = secret)
      | HMAC_SHA256 \<Rightarrow> Inr (signature lib secret raw_data = password)
      | HMAC_SHA256_TS \<Rightarrow>
          bind_result (validate_timestamp lib c now raw_data) (\<lambda>ok.
            if ok then Inr (signature lib secret raw_data = password) else Inr False))"

section \<open>The interface of an authenticator\<close>

text \<open>
  For every secret and every raw text there is one password that is accepted, and whether the
  raw text is fresh does not depend on the password or the secret.
\<close>

locale authenticator =
  fixes check :: "string \<Rightarrow> string \<Rightarrow> string \<Rightarrow> bool result"
    and token :: "string \<Rightarrow> string \<Rightarrow> string"
    and freshness :: "string \<Rightarrow> bool result"
  assumes check_eq: "check password secret raw =
    bind_result (freshness raw) (\<lambda>ok. Inr (ok \<and> password = token secret raw))"
begin

lemma check_accepts: "check password secret raw = Inr True \<longleftrightarrow>
    freshness raw = Inr True \<and> password = token secret raw"
  by (auto simp: check_eq bind_result_eq_Inr)

lemma check_unique:
  "check p secret raw = Inr True \<Longrightarrow> check q secret raw = Inr True \<Longrightarrow> p = q"
  by (simp add: check_accepts)

lemma check_failure_blind:
  "check p secret raw = Inl f \<longleftrightarrow> check q secret2 raw = Inl f"
  by (cases "freshness raw") (simp_all add: check_eq)

end

definition auth_token :: "crypto_lib \<Rightarrow> crypto \<Rightarrow> string \<Rightarrow> string \<Rightarrow> string" where
  "auth_token lib c secret raw_data =
     (case c_method c of UNDEFINED_METHOD \<Rightarrow> secret | _ \<Rightarrow> signature lib secret raw_data)"

definition auth_freshness :: "crypto_lib \<Rightarrow> crypto \<Rightarrow> nanos \<Rightarrow> string \<Rightarrow> bool result" where
  "auth_freshness lib c now raw_data =
     (case c_method c of HMAC_SHA256_TS \<Rightarrow> validate_timestamp lib c now raw_data | _ \<Rightarrow> Inr True)"

interpretation auth: authenticator "validate lib c now" "auth_token lib c" "auth_freshness lib c now"
  for lib c now
proof unfold_locales
  show "validate lib c now password secret raw =
      bind_result (auth_freshness lib c now raw) (\<lambda>ok. Inr (ok \<and> password = auth_token lib c secret raw))"
    for password secret raw
    by (cases "validate_timestamp lib c now raw")
      (auto simp: validate_def auth_freshness_def auth_token_def split: crypto_method.splits)
qed

section \<open>The window of a timestamp\<close>

text \<open>The timestamp a raw text starts with, in nanoseconds.\<close>

definition timestamp_of :: "crypto_lib \<Rightarrow> string \<Rightarrow> nanos \<Rightarrow> bool" where
  "timestamp_of lib raw_data t \<longleftrightarrow> CHR ''.'' \<in> set raw_data \<and>
     (\<exists>tmp. lib_from_chars_i64 lib (takeWhile (\<lambda>x. x \<noteq> CHR ''.'') raw_data) = Inr tmp \<and> t = tmp * 1000000)"

lemma validate_timestamp_defined:
  assumes "timestamp_of lib raw_data t" and "in_i64 t" and "in_i64 (now - t)" and "in_i64 (t - now)"
  shows "validate_timestamp lib c now raw_data = Inr (\<bar>now - t\<bar> \<le> c_timestamp_tolerance c)"
  using assms
  by (auto simp: timestamp_of_def validate_timestamp_def nanos_of_millis_def checked_i64_def abs_if)

text \<open>
  C16 (validate_timestamped). With a timestamp and a clock at least 2^62 nanoseconds (146 years)
  within range, the timestamped method accepts exactly when the clock is within the tolerance
  of the timestamp, on either side, and the password is the signature of the raw text.
\<close>

theorem validate_timestamped:
  assumes "c_method c = HMAC_SHA256_TS" and "timestamp_of lib raw_data t"
    and "\<bar>t\<bar> \<le> 2 ^ 62" and "\<bar>now\<bar> < 2 ^ 62"
  shows "validate lib c now password secret raw_data =
    Inr (\<bar>now - t\<bar> \<le> c_timestamp_tolerance c \<and> password = signature lib secret raw_data)"
proof -
  have "in_i64 t" "in_i64 (now - t)" "in_i64 (t - now)"
    using assms(3,4) by (auto simp: in_i64_def)
  from validate_timestamp_defined [OF assms(2) this] assms(1) show ?thesis
    by (auto simp: validate_def)
qed

text \<open>Decimal digits, read with their sign, stand for the library's parser in the examples.\<close>

definition example_from_chars :: "string \<Rightarrow> int result" where
  "example_from_chars s = (case s of [] \<Rightarrow> Inl (Exn Roq_exception)
     | x # xs \<Rightarrow> Inr (if x = CHR ''-'' then - int (read_nat xs) else int (read_nat s)))"

definition example_lib :: crypto_lib where
  "example_lib = \<lparr>lib_hmac = (\<lambda>k t. map (\<lambda>x. word_of_nat (of_char x)) (k @ t)),
     lib_base64 = (\<lambda>d _ _. map (\<lambda>b. char_of (unat b)) d),
     lib_from_chars_i64 = example_from_chars\<rparr>"

lemma byte_char [simp]: "char_of (unat (word_of_nat (of_char x) :: 8 word)) = x"
  by (simp add: unat_of_nat take_bit_eq_mod)

lemma example_signature [simp]: "signature example_lib secret raw_data = secret @ raw_data"
  by (simp add: signature_def example_lib_def comp_def del: map_append)

lemma lib_from_example: "lib_from_chars_i64 example_lib = example_from_chars"
  by (simp add: example_lib_def)

definition example_crypto :: crypto where
  "example_crypto = \<lparr>c_method = HMAC_SHA256_TS, c_timestamp_tolerance = 5000000000\<rparr>"

theorem validate_timestamped_witness:
  "validate example_lib example_crypto 3000000000 ''key1000.x'' ''key'' ''1000.x'' = Inr True \<and>
   validate example_lib example_crypto 7000000000 ''key1000.x'' ''key'' ''1000.x'' = Inr False"
proof -
  have m: "c_method example_crypto = HMAC_SHA256_TS" by (simp add: example_crypto_def)
  have t: "timestamp_of example_lib ''1000.x'' 1000000000"
    by (simp add: timestamp_of_def example_lib_def example_from_chars_def read_nat_def)
  show ?thesis
    using validate_timestamped [OF m t, of 3000000000 "''key1000.x''" "''key''"]
      validate_timestamped [OF m t, of 7000000000 "''key1000.x''" "''key''"]
    by (simp add: example_crypto_def)
qed



text \<open>
  C31 (validate_timestamp_overflow). The timestamp is converted before the signature is looked
  at, so a timestamp of 9223372036855 milliseconds or more (a valid 64-bit number) makes the
  conversion overflow, which is undefined behaviour, whatever password comes with it.
\<close>

theorem validate_timestamp_overflow:
  assumes "c_method c = HMAC_SHA256_TS" and "CHR ''.'' \<in> set raw_data"
    and "lib_from_chars_i64 lib (takeWhile (\<lambda>x. x \<noteq> CHR ''.'') raw_data) = Inr tmp"
    and "9223372036855 \<le> tmp"
  shows "validate lib c now password secret raw_data = Inl (Fault Undefined_behaviour)"
proof -
  from assms(4) have "\<not> in_i64 (tmp * 1000000)" by (simp add: in_i64_def)
  with assms(1-3) show ?thesis
    by (simp add: validate_def validate_timestamp_def nanos_of_millis_def checked_i64_def)
qed

theorem validate_timestamp_overflow_witness:
  "validate example_lib example_crypto 0 [] ''key'' ''9223372036855.'' = Inl (Fault Undefined_behaviour)"
  by (rule validate_timestamp_overflow [where tmp = 9223372036855])
    (simp_all add: example_crypto_def example_lib_def example_from_chars_def read_nat_def)

text \<open>
  C32 (validate_one_password). In every method at most one password is accepted for a secret and
  a raw text, and a check that fails with an exception or a fault fails the same way for every
  password and secret, so a failure reveals nothing about the secret.
\<close>

theorem validate_one_password:
  "(validate lib c now p secret raw_data = Inr True \<and> validate lib c now q secret raw_data = Inr True
      \<longrightarrow> p = q) \<and>
   (validate lib c now p secret raw_data = Inl f) = (validate lib c now q secret2 raw_data = Inl f)"
  using auth.check_unique auth.check_failure_blind by blast

theorem validate_one_password_witness:
  "validate example_lib example_crypto 1000000000 ''key1000.x'' ''key'' ''1000.x'' = Inr True \<and>
   \<not> validate example_lib example_crypto 1000000000 [] ''key'' ''1000.x'' = Inr True"
proof -
  have ok: "validate example_lib example_crypto 1000000000 ''key1000.x'' ''key'' ''1000.x'' = Inr True"
    by (simp add: validate_def validate_timestamp_def lib_from_example
        example_crypto_def example_from_chars_def read_nat_def nanos_of_millis_def
        checked_i64_def in_i64_def)
  then show ?thesis
    using validate_one_password [of example_lib example_crypto 1000000000 "''key1000.x''" "''key''"
        "''1000.x''" "[]"] by auto
qed

end
