(* ===== verification/Bridge_Config.thy ===== *)
theory Bridge_Config
  imports Model_Data
begin

text \<open>
  \<open>config.cpp\<close>: reading the TOML configuration. The parser of the file is a library; what it
  returns is a tree of nodes, and the functions here take that tree apart, removing what they
  have read so that unknown keys are noticed. Every \<open>log::fatal\<close>, every exception and every
  null pointer that the code would follow is a branch of the model.
\<close>

section \<open>TOML nodes\<close>

datatype toml = TTable "(string \<times> toml) list" | TArray "toml list" | TString string
  | TInteger int | TFloat u64 | TBoolean bool | TDateTime string

type_synonym table = "(string \<times> toml) list"

text \<open>\<open>as_table\<close> is a null pointer for any other node, and the code follows it unchecked.\<close>

fun deref_table :: "toml \<Rightarrow> table result" where
  "deref_table (TTable t) = Inr t"
| "deref_table _ = Inl (Fault Undefined_behaviour)"

fun value_string :: "toml \<Rightarrow> string option" where
  "value_string (TString s) = Some s"
| "value_string _ = None"

datatype md_entry_type = MD_UNDEFINED | MD_BID | MD_OFFER | MD_TRADE | MD_OTHER nat

type_synonym statistics_type = u8
type_synonym error_code = u32

text \<open>
  From libraries: the conversions of a node to a number (which accept some nodes of other
  types) and the enumerations by name. The last field says whether assertions are compiled in.
\<close>

record config_lib =
  value_u32 :: "toml \<Rightarrow> u32 option"
  value_double :: "toml \<Rightarrow> u64 option"
  cast_statistics_type :: "string \<Rightarrow> statistics_type option"
  cast_md_entry_type :: "string \<Rightarrow> md_entry_type option"
  parse_error_code :: "string \<Rightarrow> error_code result"
  config_asserts :: bool

text \<open>\<open>.value()\<close> of an empty optional throws; \<open>*\<close> of an empty optional is undefined.\<close>

fun value_or_throw :: "'a option \<Rightarrow> 'a result" where
  "value_or_throw None = Inl (Exn Std_exception)"
| "value_or_throw (Some x) = Inr x"

fun deref_optional :: "'a option \<Rightarrow> 'a result" where
  "deref_optional None = Inl (Fault Undefined_behaviour)"
| "deref_optional (Some x) = Inr x"

section \<open>Reading and removing keys\<close>

fun check_empty :: "toml \<Rightarrow> unit result" where
  "check_empty (TTable t) = (if t = [] then Inr () else fatal)"
| "check_empty _ = Inr ()"

text \<open>
  The callback works on an accumulator \<open>'a\<close>; the result is the node without the key, whether
  the key was there, and the accumulator. A node that is no table is only warned about.
\<close>

fun find_and_remove ::
  "toml \<Rightarrow> string \<Rightarrow> (toml \<Rightarrow> 'a \<Rightarrow> 'a result) \<Rightarrow> 'a \<Rightarrow> (toml \<times> bool \<times> 'a) result" where
  "find_and_remove (TTable t) key callback a =
     (case umap_find t key of
        None \<Rightarrow> Inr (TTable t, False, a)
      | Some node \<Rightarrow> bind_result (callback node a) (\<lambda>a. Inr (TTable (umap_erase key t), True, a)))"
| "find_and_remove node key callback a = Inr (node, False, a)"

definition get_value :: "(toml \<Rightarrow> 'a option) \<Rightarrow> toml \<Rightarrow> string \<Rightarrow> 'a result" where
  "get_value conv node key =
     (case node of
        TTable t \<Rightarrow> (case umap_find t key of
            None \<Rightarrow> Inl (Exn Roq_exception)
          | Some v \<Rightarrow> value_or_throw (conv v))
      | _ \<Rightarrow> Inl (Exn Roq_exception))"

definition get_and_remove :: "(toml \<Rightarrow> 'a option) \<Rightarrow> toml \<Rightarrow> string \<Rightarrow> (toml \<times> 'a) result" where
  "get_and_remove conv node key =
     (case node of
        TTable t \<Rightarrow> (case umap_find t key of
            None \<Rightarrow> Inl (Exn Roq_exception)
          | Some v \<Rightarrow> bind_result (value_or_throw (conv v)) (\<lambda>x. Inr (TTable (umap_erase key t), x)))
      | _ \<Rightarrow> Inl (Exn Roq_exception))"

definition maybe_get_and_remove ::
  "(toml \<Rightarrow> 'a option) \<Rightarrow> 'a \<Rightarrow> toml \<Rightarrow> string \<Rightarrow> (toml \<times> 'a) result" where
  "maybe_get_and_remove conv dflt node key =
     (case node of
        TTable t \<Rightarrow> (case umap_find t key of
            None \<Rightarrow> Inr (TTable t, dflt)
          | Some v \<Rightarrow> bind_result (value_or_throw (conv v)) (\<lambda>x. Inr (TTable (umap_erase key t), x)))
      | _ \<Rightarrow> Inl (Exn Roq_exception))"

section \<open>Lists of expressions\<close>

text \<open>A string, or an array of strings; what happens otherwise differs between the callers.\<close>

definition parse_strings :: "string list result \<Rightarrow> toml \<Rightarrow> string list result" where
  "parse_strings otherwise node =
     (case node of
        TString s \<Rightarrow> Inr [s]
      | TArray xs \<Rightarrow> fold_result (\<lambda>x acc. case x of TString s \<Rightarrow> Inr (acc @ [s]) | _ \<Rightarrow> fatal) xs []
      | _ \<Rightarrow> otherwise)"

definition parse_accounts_2 :: "settings \<Rightarrow> toml \<Rightarrow> string \<Rightarrow> (toml \<times> string list) result" where
  "parse_accounts_2 cfg tab key =
     bind_result (find_and_remove tab key (\<lambda>node _.
         parse_strings (if oms_route_by_strategy cfg then fatal else Inr []) node) [])
       (\<lambda>(tab, _, res). Inr (tab, res))"

definition parse_symbols_2 :: "settings \<Rightarrow> toml \<Rightarrow> string \<Rightarrow> (toml \<times> string list) result" where
  "parse_symbols_2 cfg tab key =
     bind_result (find_and_remove tab key (\<lambda>node _.
         if \<not> oms_route_by_strategy cfg then fatal
         else parse_strings (if oms_route_by_strategy cfg then fatal else Inr []) node) [])
       (\<lambda>(tab, _, res). Inr (tab, res))"

definition parse_symbols_3 :: "toml \<Rightarrow> string \<Rightarrow> (toml \<times> string list) result" where
  "parse_symbols_3 tab key =
     bind_result (find_and_remove tab key (\<lambda>node _. parse_strings fatal node) [])
       (\<lambda>(tab, _, res). Inr (tab, res))"

section \<open>Symbols\<close>

type_synonym symbols_map = "(string, string uset) umap"

definition emplace_symbol :: "string \<Rightarrow> string \<Rightarrow> symbols_map \<Rightarrow> symbols_map" where
  "emplace_symbol gateway regex = umap_modify [] gateway (\<lambda>s. fst (uset_emplace regex s))"

text \<open>The body of \<open>parse_symbols\<close> for one expression list of a gateway.\<close>

definition add_symbol_regex :: "string \<Rightarrow> toml \<Rightarrow> symbols_map \<Rightarrow> symbols_map result" where
  "add_symbol_regex gateway node acc =
     (case node of
        TString s \<Rightarrow> Inr (emplace_symbol gateway s acc)
      | TArray xs \<Rightarrow> fold_result (\<lambda>x acc. case x of
            TString s \<Rightarrow> Inr (emplace_symbol gateway s acc)
          | _ \<Rightarrow> fatal) xs acc
      | _ \<Rightarrow> fatal)"

definition parse_symbols :: "toml \<Rightarrow> (toml \<times> symbols_map) result" where
  "parse_symbols tab =
     bind_result (deref_table tab) (\<lambda>t.
       case umap_find t ''symbols'' of
         None \<Rightarrow> fatal
       | Some item \<Rightarrow>
           bind_result
             (case item of
                TTable table_2 \<Rightarrow> fold_result (\<lambda>(gateway, node) acc.
                    case node of
                      TTable t \<Rightarrow> (case umap_find t ''regex'' of
                          None \<Rightarrow> fatal
                        | Some v \<Rightarrow> add_symbol_regex gateway v acc)
                    | _ \<Rightarrow> if gateway = ''regex'' then add_symbol_regex [] node acc else fatal)
                  table_2 []
              | _ \<Rightarrow> fatal)
             (\<lambda>res. Inr (TTable (umap_erase ''symbols'' t), res)))"

section \<open>Users\<close>

type_synonym users_map = "(string, user) umap"

text \<open>One entry of the users table: the reads in the order of the initialiser, then the checks.\<close>

definition parse_user :: "config_lib \<Rightarrow> settings \<Rightarrow> string \<times> toml \<Rightarrow> users_map \<Rightarrow> users_map result" where
  "parse_user lib cfg = (\<lambda>(key, node) acc.
     bind_result (deref_table node) (\<lambda>t.
     bind_result (get_and_remove value_string (TTable t) ''component'') (\<lambda>(tab, comp).
     bind_result (get_and_remove value_string tab ''username'') (\<lambda>(tab, uname).
     bind_result (maybe_get_and_remove value_string [] tab ''password'') (\<lambda>(tab, pw).
     bind_result (maybe_get_and_remove (value_u32 lib) 0 tab ''strategy_id'') (\<lambda>(tab, strategy).
     bind_result (maybe_get_and_remove value_string [] tab ''account'') (\<lambda>(tab, acct).
     bind_result (parse_accounts_2 cfg tab ''accounts'') (\<lambda>(tab, accts).
     bind_result (parse_symbols_2 cfg tab ''symbols'') (\<lambda>(tab, syms).
       let user = \<lparr>u_user_id = word_of_nat (length acc + 1), u_component = comp, u_username = uname,
                   u_password = pw, u_strategy_id = strategy, u_account = acct,
                   u_accounts_regex = accts, u_symbols_regex = syms\<rparr>
       in if uname = [] \<or> oms_route_by_strategy cfg \<and> acct \<noteq> [] then fatal
          else bind_result (check_empty tab) (\<lambda>_. Inr (fst (umap_emplace key user acc))))))))))))"

definition parse_users :: "config_lib \<Rightarrow> settings \<Rightarrow> toml \<Rightarrow> (toml \<times> users_map) result" where
  "parse_users lib cfg tab =
     bind_result (find_and_remove tab ''users'' (\<lambda>node acc.
         bind_result (deref_table node) (\<lambda>t. fold_result (parse_user lib cfg) t acc)) [])
       (\<lambda>(tab, found, res). if found then Inr (tab, res) else fatal)"

section \<open>Statistics\<close>

type_synonym statistics_map = "(statistics_type, md_entry_type) umap"
type_synonym defaults_map = "(statistics_type, u64) umap"

text \<open>One override: the entry type is read first, then the optional default value.\<close>

definition parse_default_value ::
  "config_lib \<Rightarrow> settings \<Rightarrow> statistics_type \<Rightarrow> toml \<Rightarrow> defaults_map \<Rightarrow> defaults_map result" where
  "parse_default_value lib cfg typ node defaults =
     (if init_missing_md_entry_type_to_zero cfg
      then bind_result (deref_optional (value_double lib node)) (\<lambda>v. Inr (fst (umap_emplace typ v defaults)))
      else fatal)"

definition check_md_entry_type :: "md_entry_type \<Rightarrow> unit result" where
  "check_md_entry_type t =
     (case t of
        MD_UNDEFINED \<Rightarrow> fatal | MD_BID \<Rightarrow> fatal | MD_OFFER \<Rightarrow> fatal | MD_TRADE \<Rightarrow> fatal
      | MD_OTHER _ \<Rightarrow> Inr ())"

definition parse_statistic ::
  "config_lib \<Rightarrow> settings \<Rightarrow> string \<times> toml \<Rightarrow> defaults_map \<times> statistics_map \<Rightarrow>
   (defaults_map \<times> statistics_map) result" where
  "parse_statistic lib cfg = (\<lambda>(key, node) (defaults, stats).
     case cast_statistics_type lib key of
       None \<Rightarrow> fatal
     | Some typ \<Rightarrow>
         bind_result (deref_table node) (\<lambda>t.
         bind_result (get_value value_string (TTable t) ''fix_md_entry_type'') (\<lambda>value.
           case cast_md_entry_type lib value of
             None \<Rightarrow> fatal
           | Some md \<Rightarrow>
               bind_result (check_md_entry_type md) (\<lambda>_.
               bind_result (rassert (config_asserts lib) (umap_find stats typ = None)
                              (fst (umap_emplace typ md stats))) (\<lambda>stats.
               bind_result (find_and_remove (TTable t) ''default_value''
                              (parse_default_value lib cfg typ) defaults) (\<lambda>(tab, _, defaults).
               bind_result (deref_table tab) (\<lambda>t.
                 if length t \<noteq> 1 then fatal else Inr (defaults, stats))))))))"

definition parse_statistics ::
  "config_lib \<Rightarrow> settings \<Rightarrow> toml \<Rightarrow> (toml \<times> defaults_map \<times> statistics_map) result" where
  "parse_statistics lib cfg tab =
     bind_result (find_and_remove tab ''statistics'' (\<lambda>node acc.
         bind_result (deref_table node) (\<lambda>t. fold_result (parse_statistic lib cfg) t acc)) ([], []))
       (\<lambda>(tab, _, res). Inr (tab, res))"

section \<open>Broadcasts\<close>

type_synonym broadcasts_map = "(string, broadcast) umap"

definition parse_broadcast_entry :: "string \<times> toml \<Rightarrow> broadcasts_map \<Rightarrow> broadcasts_map result" where
  "parse_broadcast_entry = (\<lambda>(key, node) acc.
     bind_result (get_and_remove value_string node ''exchange'') (\<lambda>(node, exch).
     bind_result (get_and_remove value_string node ''source_regex'') (\<lambda>(node, source).
     bind_result (parse_symbols_3 node ''targets_regex'') (\<lambda>(node, targets).
       if exch = [] \<or> source = [] \<or> targets = [] then fatal
       else bind_result (check_empty node) (\<lambda>_.
         Inr (fst (umap_emplace key \<lparr>b_exchange = exch, b_source_regex = source, b_targets_regex = targets\<rparr> acc)))))))"

definition parse_broadcast :: "toml \<Rightarrow> (toml \<times> broadcasts_map) result" where
  "parse_broadcast tab =
     bind_result (find_and_remove tab ''broadcast'' (\<lambda>node acc.
         bind_result (deref_table node) (\<lambda>t. fold_result parse_broadcast_entry t acc)) [])
       (\<lambda>(tab, _, res). Inr (tab, res))"

section \<open>Cancel reject reasons\<close>

type_synonym cxl_rej_map = "(error_code, u32) umap"

definition parse_cxl_rej_entry :: "config_lib \<Rightarrow> string \<times> toml \<Rightarrow> cxl_rej_map \<Rightarrow> cxl_rej_map result" where
  "parse_cxl_rej_entry lib = (\<lambda>(key, node) acc.
     bind_result (parse_error_code lib key) (\<lambda>error.
     bind_result (deref_table node) (\<lambda>table_2.
       fold_result (\<lambda>(key_2, node_2) acc.
         bind_result (value_or_throw (value_u32 lib node_2)) (\<lambda>value.
           if value < 100 then fatal
           else if key_2 = ''cxl_rej_reason'' then Inr (umap_assign error value acc)
           else fatal)) table_2 acc)))"

definition parse_cxl_rej_reason :: "config_lib \<Rightarrow> toml \<Rightarrow> (toml \<times> cxl_rej_map) result" where
  "parse_cxl_rej_reason lib tab =
     bind_result (find_and_remove tab ''errors'' (\<lambda>node acc.
         bind_result (deref_table node) (\<lambda>t. fold_result (parse_cxl_rej_entry lib) t acc)) [])
       (\<lambda>(tab, _, res). Inr (tab, res))"

section \<open>Uniqueness\<close>

definition check_unique_usernames :: "config_lib \<Rightarrow> users_map \<Rightarrow> unit result" where
  "check_unique_usernames lib users =
     bind_result (fold_result (\<lambda>(_, user) names.
         bind_result (rassert (config_asserts lib) (u_username user \<noteq> []) ()) (\<lambda>_.
           insert_or_fatal (uset_emplace (u_username user) names))) users [])
       (\<lambda>_. Inr ())"

definition check_unique_accounts :: "users_map \<Rightarrow> unit result" where
  "check_unique_accounts users =
     bind_result (fold_result (\<lambda>(_, user) accounts.
         if u_account user \<noteq> [] then insert_or_fatal (uset_emplace (u_account user) accounts)
         else Inr accounts) users [])
       (\<lambda>_. Inr ())"

section \<open>The configuration\<close>

datatype order_cancel_policy = POLICY_UNDEFINED | BY_ACCOUNT

definition get_order_cancel_policy :: "settings \<Rightarrow> order_cancel_policy" where
  "get_order_cancel_policy cfg = (if cancel_on_disconnect cfg then BY_ACCOUNT else POLICY_UNDEFINED)"

record config =
  cfg_order_cancel_policy :: order_cancel_policy
  cfg_symbols :: symbols_map
  cfg_users :: users_map
  cfg_default_values :: defaults_map
  cfg_statistics :: statistics_map
  cfg_broadcast :: broadcasts_map
  cfg_cxl_rej_reason :: cxl_rej_map

text \<open>
  The constructor, on the table that parsing the file gave: the members in the order of the
  initialiser list, each taking its keys out of the table, then the checks of the body.
\<close>

definition Config_create :: "config_lib \<Rightarrow> settings \<Rightarrow> toml \<Rightarrow> config result" where
  "Config_create lib cfg tab =
     bind_result (parse_symbols tab) (\<lambda>(tab, symbols).
     bind_result (parse_users lib cfg tab) (\<lambda>(tab, users).
     bind_result (parse_statistics lib cfg tab) (\<lambda>(tab, defaults, statistics).
     bind_result (parse_broadcast tab) (\<lambda>(tab, broadcasts).
     bind_result (parse_cxl_rej_reason lib tab) (\<lambda>(tab, cxl_rej_reason).
     bind_result (check_empty tab) (\<lambda>_.
     bind_result (check_unique_usernames lib users) (\<lambda>_.
     bind_result (if \<not> oms_route_by_strategy cfg then check_unique_accounts users else Inr ()) (\<lambda>_.
       Inr \<lparr>cfg_order_cancel_policy = get_order_cancel_policy cfg, cfg_symbols = symbols,
            cfg_users = users, cfg_default_values = defaults, cfg_statistics = statistics,
            cfg_broadcast = broadcasts, cfg_cxl_rej_reason = cxl_rej_reason\<rparr>))))))))"

text \<open>What \<open>dispatch\<close> hands to the client library, in order.\<close>

datatype client_setup = Setup_settings order_cancel_policy | Setup_symbol string string | Setup_account string

definition Config_dispatch :: "config \<Rightarrow> client_setup list" where
  "Config_dispatch cfg =
     [Setup_settings (cfg_order_cancel_policy cfg)] @
     concat (map (\<lambda>(gateway, subscriptions). map (\<lambda>regex. Setup_symbol regex gateway) subscriptions)
       (cfg_symbols cfg)) @
     concat (map (\<lambda>(_, user). if u_account user \<noteq> [] then [Setup_account (u_account user)] else [])
       (cfg_users cfg))"

section \<open>What the parsing functions guarantee\<close>

lemma umap_erase_absent: "k \<notin> set (map fst t) \<Longrightarrow> umap_erase k t = t"
  by (induction t) (auto simp: umap_erase_def AList.delete_eq)

text \<open>A key is gone after it was read, whether it was there or not.\<close>

lemma find_and_remove_table:
  assumes "find_and_remove (TTable t) key callback a = Inr (tab, found, b)"
  shows "tab = TTable (umap_erase key t)"
    and "found \<longleftrightarrow> key \<in> set (map fst t)"
    and "(\<exists>node. umap_find t key = Some node \<and> callback node a = Inr b) \<or> umap_find t key = None \<and> b = a"
  using assms
  by (auto simp: bind_result_eq_Inr map_of_eq_None_iff umap_erase_absent split: option.splits)
    (metis domI dom_map_of_conv_image_fst)+

lemma find_and_remove_invariant:
  assumes "find_and_remove tab key callback a = Inr (tab', found, b)" and "P a"
    and "\<And>node b. callback node a = Inr b \<Longrightarrow> P b"
  shows "P b"
  using assms by (cases tab) (auto simp: bind_result_eq_Inr split: option.splits)

declare find_and_remove.simps [simp del]

lemma parse_symbols_table:
  assumes "parse_symbols (TTable t) = Inr (tab, res)"
  shows "tab = TTable (umap_erase ''symbols'' t)" and "''symbols'' \<in> set (map fst t)"
  using assms
  by (auto simp: parse_symbols_def bind_result_eq_Inr split: option.splits dest: map_of_SomeD intro: rev_image_eqI)

lemma parse_users_table:
  assumes "parse_users lib cfg (TTable t) = Inr (tab, res)"
  shows "tab = TTable (umap_erase ''users'' t)" and "''users'' \<in> set (map fst t)"
proof -
  from assms obtain callback where "find_and_remove (TTable t) ''users'' callback [] = Inr (tab, True, res)"
    by (auto simp: parse_users_def bind_result_eq_Inr split: if_splits)
  then show "tab = TTable (umap_erase ''users'' t)" and "''users'' \<in> set (map fst t)"
    by (blast dest: find_and_remove_table(1,2))+
qed

lemma parse_statistics_table:
  "parse_statistics lib cfg (TTable t) = Inr (tab, res) \<Longrightarrow> tab = TTable (umap_erase ''statistics'' t)"
  by (auto simp: parse_statistics_def bind_result_eq_Inr dest!: find_and_remove_table(1))

lemma parse_broadcast_table:
  "parse_broadcast (TTable t) = Inr (tab, res) \<Longrightarrow> tab = TTable (umap_erase ''broadcast'' t)"
  by (auto simp: parse_broadcast_def bind_result_eq_Inr dest!: find_and_remove_table(1))

lemma parse_cxl_rej_reason_table:
  "parse_cxl_rej_reason lib (TTable t) = Inr (tab, res) \<Longrightarrow> tab = TTable (umap_erase ''errors'' t)"
  by (auto simp: parse_cxl_rej_reason_def bind_result_eq_Inr dest!: find_and_remove_table(1))

text \<open>
  The pattern of all optional sections: a loop over the entries of the section's table, run
  under \<open>find_and_remove\<close>. An invariant of the loop body holds of what was read.
\<close>

lemma section_invariant:
  assumes "find_and_remove tab key (\<lambda>node acc. bind_result (deref_table node) (\<lambda>t. fold_result f t acc)) init
      = Inr (tab', found, res)"
    and "P init" and "\<And>x a b. f x a = Inr b \<Longrightarrow> P a \<Longrightarrow> P b"
  shows "P res"
proof (cases tab)
  case (TTable t)
  show ?thesis
  proof (cases "umap_find t key")
    case None
    with assms(1,2) TTable show ?thesis by (simp add: find_and_remove.simps)
  next
    case (Some node)
    with assms(1) TTable obtain t' where "fold_result f t' init = Inr res"
      by (auto simp: find_and_remove.simps bind_result_eq_Inr)
    then show ?thesis using assms(2,3) by (rule fold_result_invariant)
  qed
qed (use assms(1,2) in \<open>simp_all add: find_and_remove.simps\<close>)

text \<open>Users: numbered from one in the order of the table, with a name, and in the mode's fields.\<close>

definition user_ok :: "settings \<Rightarrow> user \<Rightarrow> bool" where
  "user_ok cfg u \<longleftrightarrow> u_username u \<noteq> [] \<and>
     (if oms_route_by_strategy cfg then u_account u = [] else u_symbols_regex u = [])"

definition users_ok :: "settings \<Rightarrow> users_map \<Rightarrow> bool" where
  "users_ok cfg users \<longleftrightarrow> umap_wf users \<and>
     map (\<lambda>(_, u). u_user_id u) users = map word_of_nat [1..<Suc (length users)] \<and>
     list_all (\<lambda>(_, u). user_ok cfg u) users"

lemma parse_symbols_2_off:
  "parse_symbols_2 cfg tab key = Inr (tab', syms) \<Longrightarrow> \<not> oms_route_by_strategy cfg \<Longrightarrow> syms = []"
  by (auto simp: parse_symbols_2_def bind_result_eq_Inr elim!: find_and_remove_invariant)

lemma users_ok_emplace:
  assumes "users_ok cfg users" and "user_ok cfg u" and "u_user_id u = word_of_nat (length users + 1)"
  shows "users_ok cfg (fst (umap_emplace key u users))"
  using assms by (auto simp: users_ok_def umap_emplace_def umap_wf_def map_of_eq_None_iff)

lemma parse_user_ok:
  assumes "parse_user lib cfg kn acc = Inr acc'" and "users_ok cfg acc"
  shows "users_ok cfg acc'"
  using assms
  by (auto simp: parse_user_def bind_result_eq_Inr Let_def user_ok_def dest: parse_symbols_2_off
      intro!: users_ok_emplace split: prod.splits if_splits)

lemma parse_users_ok:
  assumes "parse_users lib cfg tab = Inr (tab', users)"
  shows "users_ok cfg users"
proof -
  from assms have "find_and_remove tab ''users'' (\<lambda>node acc.
      bind_result (deref_table node) (\<lambda>t. fold_result (parse_user lib cfg) t acc)) [] = Inr (tab', True, users)"
    by (auto simp: parse_users_def bind_result_eq_Inr split: if_splits)
  then show ?thesis
    by (rule section_invariant) (simp add: users_ok_def, rule parse_user_ok)
qed

text \<open>Statistics are never mapped to the basic entry types; defaults need the flag.\<close>

definition statistics_ok :: "settings \<Rightarrow> defaults_map \<times> statistics_map \<Rightarrow> bool" where
  "statistics_ok cfg = (\<lambda>(defaults, stats).
     list_all (\<lambda>(_, md). md \<notin> {MD_UNDEFINED, MD_BID, MD_OFFER, MD_TRADE}) stats \<and>
     (defaults \<noteq> [] \<longrightarrow> init_missing_md_entry_type_to_zero cfg))"

lemma parse_default_value_ok:
  "parse_default_value lib cfg typ node d = Inr d' \<Longrightarrow> init_missing_md_entry_type_to_zero cfg"
  by (simp add: parse_default_value_def split: if_splits)

lemma check_md_entry_type_ok:
  "check_md_entry_type md = Inr u \<Longrightarrow> md \<notin> {MD_UNDEFINED, MD_BID, MD_OFFER, MD_TRADE}"
  by (auto simp: check_md_entry_type_def)

lemma parse_statistic_ok:
  assumes "parse_statistic lib cfg kn acc = Inr acc'" and "statistics_ok cfg acc"
  shows "statistics_ok cfg acc'"
proof -
  obtain key node defaults stats where eq: "kn = (key, node)" "acc = (defaults, stats)"
    by (cases kn; cases acc) blast
  with assms(1) obtain sty t md u tab found d where md: "check_md_entry_type md = Inr u"
    and d: "find_and_remove (TTable t) ''default_value'' (parse_default_value lib cfg sty) defaults =
      Inr (tab, found, d)"
    and acc': "acc' = (d, fst (umap_emplace sty md stats))"
    by (auto simp: parse_statistic_def bind_result_eq_Inr rassert_eq_Inr split: option.splits if_splits)
  have "d \<noteq> [] \<longrightarrow> init_missing_md_entry_type_to_zero cfg"
    using d
  proof (rule find_and_remove_invariant)
    show "defaults \<noteq> [] \<longrightarrow> init_missing_md_entry_type_to_zero cfg"
      using assms(2) eq by (simp add: statistics_ok_def)
  qed (blast dest: parse_default_value_ok)
  with check_md_entry_type_ok [OF md] assms(2) eq acc' show ?thesis
    by (auto simp: statistics_ok_def umap_emplace_def)
qed

lemma parse_statistics_ok:
  assumes "parse_statistics lib cfg tab = Inr (tab', res)"
  shows "statistics_ok cfg res"
proof -
  from assms obtain found where "find_and_remove tab ''statistics'' (\<lambda>node acc.
      bind_result (deref_table node) (\<lambda>t. fold_result (parse_statistic lib cfg) t acc)) ([], []) =
      Inr (tab', found, res)"
    by (auto simp: parse_statistics_def bind_result_eq_Inr)
  then show ?thesis
    by (rule section_invariant) (auto simp: statistics_ok_def dest: parse_statistic_ok [unfolded statistics_ok_def])
qed

definition broadcast_ok :: "broadcast \<Rightarrow> bool" where
  "broadcast_ok b \<longleftrightarrow> b_exchange b \<noteq> [] \<and> b_source_regex b \<noteq> [] \<and> b_targets_regex b \<noteq> []"

lemma parse_broadcast_entry_ok:
  assumes "parse_broadcast_entry kn acc = Inr acc'" and "list_all (\<lambda>(_, b). broadcast_ok b) acc"
  shows "list_all (\<lambda>(_, b). broadcast_ok b) acc'"
  using assms
  by (auto simp: parse_broadcast_entry_def broadcast_ok_def bind_result_eq_Inr umap_emplace_def
      split: prod.splits if_splits)

lemma parse_broadcast_ok:
  assumes "parse_broadcast tab = Inr (tab', res)"
  shows "list_all (\<lambda>(_, b). broadcast_ok b) res"
proof -
  from assms obtain found where "find_and_remove tab ''broadcast'' (\<lambda>node acc.
      bind_result (deref_table node) (\<lambda>t. fold_result parse_broadcast_entry t acc)) [] = Inr (tab', found, res)"
    by (auto simp: parse_broadcast_def bind_result_eq_Inr)
  then show ?thesis
    by (rule section_invariant) (simp, rule parse_broadcast_entry_ok)
qed

lemma list_all_umap_assign:
  "list_all (\<lambda>(_, v). P v) m \<Longrightarrow> P v \<Longrightarrow> list_all (\<lambda>(_, v). P v) (umap_assign k v m)"
  by (induction m) (auto simp: umap_assign_def)

lemma parse_cxl_rej_entry_ok:
  assumes "parse_cxl_rej_entry lib kn acc = Inr acc'" and "list_all (\<lambda>(_, v). 100 \<le> v) acc"
  shows "list_all (\<lambda>(_, v). 100 \<le> v) acc'"
proof -
  obtain key node where kn: "kn = (key, node)" by (cases kn)
  let ?body = "\<lambda>error (key_2, node_2) acc. bind_result (value_or_throw (value_u32 lib node_2)) (\<lambda>value.
           if value < 100 then fatal
           else if key_2 = ''cxl_rej_reason'' then Inr (umap_assign error value acc) else fatal)"
  from assms(1) kn obtain error t where "fold_result (?body error) t acc = Inr acc'"
    by (auto simp: parse_cxl_rej_entry_def bind_result_eq_Inr)
  then show ?thesis using assms(2)
    by (rule fold_result_invariant)
      (auto simp: bind_result_eq_Inr not_less split: if_splits intro!: list_all_umap_assign)
qed

lemma parse_cxl_rej_reason_ok:
  assumes "parse_cxl_rej_reason lib tab = Inr (tab', res)"
  shows "list_all (\<lambda>(_, v). 100 \<le> v) res"
proof -
  from assms obtain found where "find_and_remove tab ''errors'' (\<lambda>node acc.
      bind_result (deref_table node) (\<lambda>t. fold_result (parse_cxl_rej_entry lib) t acc)) [] = Inr (tab', found, res)"
    by (auto simp: parse_cxl_rej_reason_def bind_result_eq_Inr)
  then show ?thesis
    by (rule section_invariant) (simp, rule parse_cxl_rej_entry_ok)
qed

lemma check_unique_usernames_ok:
  assumes "check_unique_usernames lib users = Inr ()"
  shows "distinct (map (\<lambda>(_, u). u_username u) users)"
proof -
  let ?f = "\<lambda>n s. insert_or_fatal (uset_emplace n s)"
  from assms obtain names where n: "fold_result (\<lambda>(_, user) names.
         bind_result (rassert (config_asserts lib) (u_username user \<noteq> []) ()) (\<lambda>_.
           ?f (u_username user) names)) users [] = Inr names"
    by (auto simp: check_unique_usernames_def bind_result_eq_Inr)
  have "fold_result (\<lambda>(_, user) names.
         bind_result (rassert (config_asserts lib) (u_username user \<noteq> []) ()) (\<lambda>_.
           ?f (u_username user) names)) us s = Inr s' \<Longrightarrow>
      fold_result ?f (map (\<lambda>(_, u). u_username u) us) s = Inr s'" for us s s'
    by (induction us arbitrary: s) (auto simp: bind_result_eq_Inr split: prod.splits)
  from this [OF n] show ?thesis
    using uset.emplace_all_iff [of "map (\<lambda>(_, u). u_username u) users" "[]"] by blast
qed

lemma check_unique_accounts_ok:
  assumes "check_unique_accounts users = Inr ()"
  shows "distinct (filter (\<lambda>a. a \<noteq> []) (map (\<lambda>(_, u). u_account u) users))"
proof -
  let ?f = "\<lambda>n s. insert_or_fatal (uset_emplace n s)"
  have "fold_result (\<lambda>(_, user) accounts. if u_account user \<noteq> [] then ?f (u_account user) accounts
      else Inr accounts) us s =
      fold_result (\<lambda>a s. if a \<noteq> [] then ?f a s else Inr s) (map (\<lambda>(_, u). u_account u) us) s" for us s
    unfolding fold_result_map case_prod_beta ..
  with assms obtain s' where
    "fold_result ?f (filter (\<lambda>a. a \<noteq> []) (map (\<lambda>(_, u). u_account u) users)) [] = Inr s'"
    unfolding check_unique_accounts_def bind_result_eq_Inr fold_result_filter by (metis (no_types))
  then show ?thesis using uset.emplace_all_iff by blast
qed

section \<open>Whole configurations\<close>

text \<open>What the constructor went through when it returned a configuration.\<close>

lemma Config_createE:
  assumes "Config_create lib cfg tab = Inr c"
  obtains t where "tab = TTable t"
    and "set (map fst t) \<subseteq> {''symbols'', ''users'', ''statistics'', ''broadcast'', ''errors''}"
    and "''symbols'' \<in> set (map fst t)" and "''users'' \<in> set (map fst t)"
    and "users_ok cfg (cfg_users c)"
    and "statistics_ok cfg (cfg_default_values c, cfg_statistics c)"
    and "list_all (\<lambda>(_, b). broadcast_ok b) (cfg_broadcast c)"
    and "list_all (\<lambda>(_, v). 100 \<le> v) (cfg_cxl_rej_reason c)"
    and "distinct (map (\<lambda>(_, u). u_username u) (cfg_users c))"
    and "\<not> oms_route_by_strategy cfg \<Longrightarrow>
      distinct (filter (\<lambda>a. a \<noteq> []) (map (\<lambda>(_, u). u_account u) (cfg_users c)))"
    and "cfg_order_cancel_policy c = get_order_cancel_policy cfg"
proof -
  from assms obtain t0 tab1 symbols tab2 users tab3 defaults stats tab4 bcs tab5 cxls where
    r: "tab = TTable t0" "parse_symbols (TTable t0) = Inr (tab1, symbols)" "parse_users lib cfg tab1 = Inr (tab2, users)"
      "parse_statistics lib cfg tab2 = Inr (tab3, defaults, stats)" "parse_broadcast tab3 = Inr (tab4, bcs)"
      "parse_cxl_rej_reason lib tab4 = Inr (tab5, cxls)" "check_empty tab5 = Inr ()"
      "check_unique_usernames lib users = Inr ()"
      "(if \<not> oms_route_by_strategy cfg then check_unique_accounts users else Inr ()) = Inr ()"
    and c: "c = \<lparr>cfg_order_cancel_policy = get_order_cancel_policy cfg, cfg_symbols = symbols,
            cfg_users = users, cfg_default_values = defaults, cfg_statistics = stats,
            cfg_broadcast = bcs, cfg_cxl_rej_reason = cxls\<rparr>"
    by (cases tab) (auto simp: Config_create_def bind_result_eq_Inr parse_symbols_def simp del: if_not_P split: option.splits)
  note t1 = parse_symbols_table [OF r(2)]
  note t2 = parse_users_table [OF r(3) [unfolded t1(1)]]
  note t3 = parse_statistics_table [OF r(4) [unfolded t2(1)]]
  note t4 = parse_broadcast_table [OF r(5) [unfolded t3]]
  note t5 = parse_cxl_rej_reason_table [OF r(6) [unfolded t4]]
  have "umap_erase ''errors'' (umap_erase ''broadcast'' (umap_erase ''statistics''
      (umap_erase ''users'' (umap_erase ''symbols'' t0)))) = []"
    using r(7) unfolding t5 by (simp split: if_splits)
  then have "map fst (umap_erase ''errors'' (umap_erase ''broadcast'' (umap_erase ''statistics''
      (umap_erase ''users'' (umap_erase ''symbols'' t0))))) = []"
    by (simp only: list.map)
  then have keys: "set (map fst t0) \<subseteq> {''symbols'', ''users'', ''statistics'', ''broadcast'', ''errors''}"
    unfolding umap_erase_keys filter_filter filter_empty_conv by blast
  have users: "''users'' \<in> set (map fst t0)" using t2(2) by auto
  show thesis
  proof (rule that [OF r(1) keys t1(2) users])
    show "\<not> oms_route_by_strategy cfg \<Longrightarrow>
        distinct (filter (\<lambda>a. a \<noteq> []) (map (\<lambda>(_, u). u_account u) (cfg_users c)))"
      using r(9) c by (simp add: check_unique_accounts_ok)
  qed (use c parse_users_ok [OF r(3)] parse_statistics_ok [OF r(4)] parse_broadcast_ok [OF r(5)]
         parse_cxl_rej_reason_ok [OF r(6)] check_unique_usernames_ok [OF r(8)] in simp_all)
qed

section \<open>Properties\<close>

text \<open>
  C11 (config_users_wellformed). A configuration that loads has users with non-empty, pairwise
  different usernames, numbered from one in the order of the table (as 16-bit numbers). When
  routing by account no user restricts symbols and no two share a non-empty account; when
  routing by strategy no user has an account.
\<close>

theorem config_users_wellformed:
  assumes "Config_create lib cfg tab = Inr c"
  shows "distinct (map (\<lambda>(_, u). u_username u) (cfg_users c)) \<and>
    list_all (\<lambda>(_, u). u_username u \<noteq> []) (cfg_users c) \<and>
    map (\<lambda>(_, u). u_user_id u) (cfg_users c) = map word_of_nat [1..<Suc (length (cfg_users c))] \<and>
    (if oms_route_by_strategy cfg
     then list_all (\<lambda>(_, u). u_account u = []) (cfg_users c)
     else list_all (\<lambda>(_, u). u_symbols_regex u = []) (cfg_users c) \<and>
          distinct (filter (\<lambda>a. a \<noteq> []) (map (\<lambda>(_, u). u_account u) (cfg_users c))))"
  using assms
  by (rule Config_createE)
    (auto simp: users_ok_def user_ok_def list_all_iff case_prod_beta split: if_splits)

text \<open>A small configuration file in the shape of the one that is shipped.\<close>

definition example_config_lib :: config_lib where
  "example_config_lib =
     \<lparr>value_u32 = (\<lambda>n. case n of TInteger i \<Rightarrow> if 0 \<le> i \<and> i < 2 ^ 32 then Some (word_of_int i) else None
                     | _ \<Rightarrow> None),
      value_double = (\<lambda>n. case n of TFloat d \<Rightarrow> Some d | _ \<Rightarrow> None),
      cast_statistics_type = (\<lambda>s. if s = ''FUNDING_RATE'' then Some 10 else None),
      cast_md_entry_type = (\<lambda>s. if s = ''BID'' then Some MD_BID
                              else if s = ''SETTLEMENT_PRICE'' then Some (MD_OTHER 6) else None),
      parse_error_code = (\<lambda>s. if s = ''REQUEST_RATE_LIMIT_REACHED'' then Inr 7 else Inl (Exn Roq_exception)),
      config_asserts = True\<rparr>"

definition example_table :: table where
  "example_table =
     [(''errors'', TTable [(''REQUEST_RATE_LIMIT_REACHED'', TTable [(''cxl_rej_reason'', TInteger 1139)])]),
      (''statistics'', TTable [(''FUNDING_RATE'', TTable [(''fix_md_entry_type'', TString ''SETTLEMENT_PRICE'')])]),
      (''symbols'', TTable [(''deribit'', TTable [(''regex'', TString ''.*'')]), (''regex'', TString ''USD.*'')]),
      (''users'', TTable
        [(''OM1'', TTable [(''component'', TString ''fix-client''), (''username'', TString ''trader''),
            (''password'', TString ''secret''), (''strategy_id'', TInteger 123), (''account'', TString ''A1'')]),
         (''OM2'', TTable [(''component'', TString ''fix-client''), (''username'', TString ''tbom2'')])])]"

definition example_settings :: settings where
  "example_settings = default_settings ''9000''"

definition example_user :: user where
  "example_user = \<lparr>u_user_id = 1, u_component = ''fix-client'', u_username = ''trader'',
     u_password = ''secret'', u_strategy_id = 123, u_account = ''A1'', u_accounts_regex = [],
     u_symbols_regex = []\<rparr>"

definition example_user_2 :: user where
  "example_user_2 = \<lparr>u_user_id = 2, u_component = ''fix-client'', u_username = ''tbom2'',
     u_password = [], u_strategy_id = 0, u_account = [], u_accounts_regex = [], u_symbols_regex = []\<rparr>"

definition example_config :: config where
  "example_config = \<lparr>cfg_order_cancel_policy = POLICY_UNDEFINED,
     cfg_symbols = [(''deribit'', [''.*'']), ([], [''USD.*''])],
     cfg_users = [(''OM1'', example_user), (''OM2'', example_user_2)], cfg_default_values = [],
     cfg_statistics = [(10, MD_OTHER 6)], cfg_broadcast = [], cfg_cxl_rej_reason = [(7, 1139)]\<rparr>"

lemma example_config_loads:
  "Config_create example_config_lib example_settings (TTable example_table) = Inr example_config"
  by code_simp

theorem config_users_wellformed_witness:
  "\<exists>c. Config_create example_config_lib example_settings (TTable example_table) = Inr c \<and>
     map (\<lambda>(_, u). u_user_id u) (cfg_users c) = [1, 2]"
proof -
  from config_users_wellformed [OF example_config_loads] have
    "map (\<lambda>(_, u). u_user_id u) (cfg_users example_config) = map word_of_nat [1..<Suc (length (cfg_users example_config))]"
    by simp
  then show ?thesis
    using example_config_loads by (simp add: example_config_def upt_rec)
qed

text \<open>
  C34 (config_no_unknown_keys). A configuration only loads if its top level has the tables of
  symbols and of users and nothing besides the three optional sections: every unknown key is
  noticed, because each section takes its own key out of the table and the rest must be empty.
\<close>

theorem config_no_unknown_keys:
  assumes "Config_create lib cfg (TTable t) = Inr c"
  shows "{''symbols'', ''users''} \<subseteq> set (map fst t) \<and>
    set (map fst t) \<subseteq> {''symbols'', ''users'', ''statistics'', ''broadcast'', ''errors''}"
  using assms by (rule Config_createE) auto

theorem config_no_unknown_keys_witness:
  "(\<exists>c. Config_create example_config_lib example_settings (TTable example_table) = Inr c) \<and>
   (\<forall>c. Config_create example_config_lib example_settings (TTable ((''colour'', TString ''red'') # example_table))
      \<noteq> Inr c)"
proof -
  have "''colour'' \<in> set (map fst ((''colour'', TString ''red'') # example_table))" by simp
  then show ?thesis
    using example_config_loads config_no_unknown_keys
      [of example_config_lib example_settings "(''colour'', TString ''red'') # example_table"] by auto
qed

text \<open>
  C35 (config_overrides_valid). The optional sections of a configuration that loads keep their
  rules: no statistics type is mapped to the undefined, bid, offer or trade entry type; default
  values occur only with the flag that enables them; custom cancel reject reasons are at least
  100; a broadcast names an exchange, a source expression and at least one target expression.
\<close>

theorem config_overrides_valid:
  assumes "Config_create lib cfg tab = Inr c"
  shows "list_all (\<lambda>(_, md). md \<notin> {MD_UNDEFINED, MD_BID, MD_OFFER, MD_TRADE}) (cfg_statistics c) \<and>
    (cfg_default_values c = [] \<or> init_missing_md_entry_type_to_zero cfg) \<and>
    list_all (\<lambda>(_, reason). 100 \<le> reason) (cfg_cxl_rej_reason c) \<and>
    list_all (\<lambda>(_, b). b_exchange b \<noteq> [] \<and> b_source_regex b \<noteq> [] \<and> b_targets_regex b \<noteq> [])
      (cfg_broadcast c)"
  using assms by (rule Config_createE) (auto simp: statistics_ok_def broadcast_ok_def)

theorem config_overrides_valid_witness:
  "\<exists>c. Config_create example_config_lib example_settings (TTable example_table) = Inr c \<and>
     list_all (\<lambda>(_, reason). 100 \<le> reason) (cfg_cxl_rej_reason c) \<and> cfg_cxl_rej_reason c = [(7, 1139)]"
proof -
  from config_overrides_valid [OF example_config_loads]
  have "list_all (\<lambda>(_, reason). 100 \<le> reason) (cfg_cxl_rej_reason example_config)" by blast
  then show ?thesis using example_config_loads by (simp add: example_config_def)
qed



text \<open>
  C37 (config_dispatch_accounts). The client library is first told the order cancel policy,
  then every pair of gateway and expression, then the accounts: the non-empty accounts of the
  users, each once; when routing by strategy there is none. The policy is by account exactly
  when orders are to be cancelled on disconnect.
\<close>

theorem config_dispatch_accounts:
  assumes "Config_create lib cfg tab = Inr c"
  shows "\<exists>symbols accounts. Config_dispatch c =
      Setup_settings (if cancel_on_disconnect cfg then BY_ACCOUNT else POLICY_UNDEFINED) #
      map (\<lambda>(regex, gateway). Setup_symbol regex gateway) symbols @ map Setup_account accounts \<and>
    set symbols = {(regex, gateway). \<exists>res. (gateway, res) \<in> set (cfg_symbols c) \<and> regex \<in> set res} \<and>
    accounts = filter (\<lambda>a. a \<noteq> []) (map (\<lambda>(_, u). u_account u) (cfg_users c)) \<and> distinct accounts \<and>
    (accounts = [] \<or> \<not> oms_route_by_strategy cfg)"
proof -
  let ?symbols = "concat (map (\<lambda>(gateway, res). map (\<lambda>regex. (regex, gateway)) res) (cfg_symbols c))"
  let ?accounts = "filter (\<lambda>a. a \<noteq> []) (map (\<lambda>(_, u). u_account u) (cfg_users c))"
  have sym: "concat (map (\<lambda>(gateway, res). map (\<lambda>regex. Setup_symbol regex gateway) res) m) =
      map (\<lambda>(regex, gateway). Setup_symbol regex gateway)
        (concat (map (\<lambda>(gateway, res). map (\<lambda>regex. (regex, gateway)) res) m))" for m :: symbols_map
    by (induction m) (auto simp: comp_def)
  have acc: "concat (map (\<lambda>(_, u). if u_account u \<noteq> [] then [Setup_account (u_account u)] else []) us) =
      map Setup_account (filter (\<lambda>a. a \<noteq> []) (map (\<lambda>(_, u). u_account u) us))" for us :: users_map
    by (induction us) auto
  have policy: "cfg_order_cancel_policy c = get_order_cancel_policy cfg"
    using assms by (rule Config_createE)
  have route: "oms_route_by_strategy cfg \<Longrightarrow> ?accounts = []"
    using assms by (rule Config_createE) (auto simp: users_ok_def user_ok_def list_all_iff filter_empty_conv)
  have dist: "distinct ?accounts"
    using assms by (rule Config_createE) (cases "oms_route_by_strategy cfg", use route in auto)
  show ?thesis
    by (intro exI [of _ ?symbols] exI [of _ ?accounts])
      (use route dist policy in \<open>auto simp: Config_dispatch_def sym acc get_order_cancel_policy_def\<close>)
qed

theorem config_dispatch_accounts_witness:
  "Config_dispatch example_config =
     [Setup_settings POLICY_UNDEFINED, Setup_symbol ''.*'' ''deribit'', Setup_symbol ''USD.*'' [],
      Setup_account ''A1''] \<and>
   distinct (filter (\<lambda>a. a \<noteq> []) (map (\<lambda>(_, u). u_account u) (cfg_users example_config)))"
  using config_dispatch_accounts [OF example_config_loads]
  by (auto simp: Config_dispatch_def example_config_def example_user_def example_user_2_def)

section \<open>Printing\<close>

text \<open>
  The formatter of the configuration joins the printed entries of each map. How the library prints
  an entry is a parameter; it is given the key and, for users and broadcasts, the text that the
  formatters of this repository produce for the value.
\<close>

record config_format =
  print_symbols :: "string \<times> string uset \<Rightarrow> string"
  print_entry :: "string \<Rightarrow> string \<Rightarrow> string"
  print_default_value :: "statistics_type \<times> u64 \<Rightarrow> string"
  print_statistics :: "statistics_type \<times> md_entry_type \<Rightarrow> string"
  print_cxl_rej_reason :: "error_code \<times> u32 \<Rightarrow> string"

definition format_config :: "config_format \<Rightarrow> config \<Rightarrow> string" where
  "format_config lib c =
     ''{symbols={'' @ join '', '' (map (print_symbols lib) (cfg_symbols c)) @
     ''}, users={'' @ join '', '' (map (\<lambda>(k, u). print_entry lib k (format_user u)) (cfg_users c)) @
     ''}, default_values={'' @ join '', '' (map (print_default_value lib) (cfg_default_values c)) @
     ''}, statistics={'' @ join '', '' (map (print_statistics lib) (cfg_statistics c)) @
     ''}, broadcast={'' @ join '', '' (map (\<lambda>(k, b). print_entry lib k (format_broadcast b)) (cfg_broadcast c)) @
     ''}, cxl_rej_reason={'' @ join '', '' (map (print_cxl_rej_reason lib) (cfg_cxl_rej_reason c)) @ ''}}''"

text \<open>Two users that look alike to anyone who must not know the password.\<close>

definition same_but_password :: "user \<Rightarrow> user \<Rightarrow> bool" where
  "same_but_password u v \<longleftrightarrow> u\<lparr>u_password := []\<rparr> = v\<lparr>u_password := []\<rparr>"

lemma format_user_same: "same_but_password u v \<Longrightarrow> format_user u = format_user v"
  by (cases u; cases v) (simp add: same_but_password_def format_user_def)

text \<open>
  C39 (format_config_masks). What is printed of a configuration says nothing about the passwords:
  two configurations that differ in nothing else are printed alike, however the library prints
  the entries of a map.
\<close>

theorem format_config_masks:
  assumes "list_all2 (\<lambda>(k, u) (k2, u2). k = k2 \<and> same_but_password u u2) (cfg_users c) (cfg_users c2)"
    and "c\<lparr>cfg_users := []\<rparr> = c2\<lparr>cfg_users := []\<rparr>"
  shows "format_config lib c = format_config lib c2"
proof -
  have "map (\<lambda>(k, u). print_entry lib k (format_user u)) us = map (\<lambda>(k, u). print_entry lib k (format_user u)) us2"
    if "list_all2 (\<lambda>(k, u) (k2, u2). k = k2 \<and> same_but_password u u2) us us2" for us us2
    using that by (induction rule: list_all2_induct) (auto dest: format_user_same)
  from this [OF assms(1)] show ?thesis
    using assms(2) by (cases c; cases c2) (simp add: format_config_def)
qed

definition example_format :: config_format where
  "example_format =
     \<lparr>print_symbols = (\<lambda>(k, v). quoted k @ join '', '' v),
      print_entry = (\<lambda>k v. ''('' @ quoted k @ '', '' @ v @ '')''),
      print_default_value = (\<lambda>(k, v). show_nat (unat k) @ ''='' @ show_nat (unat v)),
      print_statistics = (\<lambda>(k, v). show_nat (unat k)),
      print_cxl_rej_reason = (\<lambda>(k, v). show_nat (unat k) @ ''='' @ show_nat (unat v))\<rparr>"

theorem format_config_masks_witness:
  "format_config example_format example_config =
   format_config example_format
     (example_config\<lparr>cfg_users := [(''OM1'', example_user\<lparr>u_password := ''hidden''\<rparr>), (''OM2'', example_user_2)]\<rparr>)"
  by (rule format_config_masks) (simp_all add: example_config_def same_but_password_def)

end
