(* ===== verification/Shared_State.thy ===== *)
theory Shared_State
  imports Broadcast_Mapping Crypto Bridge_Config
begin

text \<open>
  \<open>shared.cpp\<close> and the inline parts of \<open>shared.hpp\<close>: what all sessions share. The directory of
  users, the check of a logon, the gateways and their order management status, the broadcast
  tables, and the routing of strategies to sessions. Routing is stated as the interface
  \<open>route_table\<close>, of which the two hash maps of \<open>Shared\<close> are the instance.
\<close>

section \<open>The directory of users\<close>

text \<open>
  \<open>extract_username_to_user\<close> of \<open>shared.cpp\<close> and \<open>create_username_to_user\<close> of
  \<open>controller.cpp\<close> are the same text: the users by name, stopping the process at a repeated
  name and, when routing by account, at a repeated account.
\<close>

type_synonym directory = "(string, user) umap"

definition add_to_directory ::
  "settings \<Rightarrow> string \<times> user \<Rightarrow> directory \<times> (string, string) umap \<Rightarrow>
   (directory \<times> (string, string) umap) result" where
  "add_to_directory cfg = (\<lambda>(_, user) (res, account_to_username).
     bind_result (insert_or_fatal (umap_emplace (u_username user) user res)) (\<lambda>res.
     bind_result (if oms_route_by_strategy cfg then Inr account_to_username
                  else if u_account user \<noteq> []
                  then insert_or_fatal (umap_emplace (u_account user) (u_username user) account_to_username)
                  else Inr account_to_username) (\<lambda>account_to_username.
       Inr (res, account_to_username))))"

definition extract_username_to_user :: "settings \<Rightarrow> users_map \<Rightarrow> directory result" where
  "extract_username_to_user cfg users =
     bind_result (fold_result (add_to_directory cfg) users ([], [])) (\<lambda>(res, _). Inr res)"

definition create_username_to_user :: "settings \<Rightarrow> users_map \<Rightarrow> directory result" where
  "create_username_to_user cfg users =
     bind_result (fold_result (add_to_directory cfg) users ([], [])) (\<lambda>(res, _). Inr res)"

section \<open>State\<close>

datatype connection_status = STATUS_UNDEFINED | STATUS_READY | STATUS_OTHER nat

record shared =
  sh_username_to_user :: directory
  sh_crypto :: crypto
  sh_gateways :: "(string, u8 \<times> bool) umap"
  sh_oms_status :: "(string, connection_status) umap list"
  sh_oms_cancel_all_orders :: "u32 list"
  sh_broadcast_mappings :: "mapping list"
  sh_strategy_to_session :: "(u32, u64) umap"
  sh_session_to_strategies :: "(u64, u32 uset) umap"

definition extract_broadcast_mappings :: "(string \<Rightarrow> pattern) \<Rightarrow> broadcasts_map \<Rightarrow> mapping list" where
  "extract_broadcast_mappings compile bs =
     map (\<lambda>(nm, b). Mapping_create compile nm (b_exchange b) (b_source_regex b) (b_targets_regex b)) bs"

definition Shared_create :: "(string \<Rightarrow> pattern) \<Rightarrow> settings \<Rightarrow> config \<Rightarrow> nat \<Rightarrow> shared result" where
  "Shared_create compile cfg c source_count =
     bind_result (Crypto_create (fix_auth_method cfg) (fix_auth_timestamp_tolerance cfg)) (\<lambda>crypto.
     bind_result (extract_username_to_user cfg (cfg_users c)) (\<lambda>dir.
       Inr \<lparr>sh_username_to_user = dir, sh_crypto = crypto, sh_gateways = [],
            sh_oms_status = replicate source_count [], sh_oms_cancel_all_orders = replicate source_count 0,
            sh_broadcast_mappings = extract_broadcast_mappings compile (cfg_broadcast c),
            sh_strategy_to_session = [], sh_session_to_strategies = []\<rparr>))"

section \<open>Logon\<close>

text \<open>
  The helper returns the account, the user if there is one, and the reason of a refusal; an
  empty reason means success. A user without an account is let through before the component
  and the password are looked at.
\<close>

definition oms_ready :: "shared \<Rightarrow> string \<Rightarrow> bool" where
  "oms_ready sh acct = list_all (\<lambda>item. umap_find item acct = Some STATUS_READY) (sh_oms_status sh)"

definition session_logon_helper ::
  "crypto_lib \<Rightarrow> settings \<Rightarrow> nanos \<Rightarrow> string \<Rightarrow> string \<Rightarrow> string \<Rightarrow> string \<Rightarrow> shared \<Rightarrow>
   (string \<times> user option \<times> string) result" where
  "session_logon_helper lib cfg now compo uname pw raw_data sh =
     (case umap_find (sh_username_to_user sh) uname of
        None \<Rightarrow> Inr ([], None, ''Unknown username='' @ quoted uname)
      | Some user \<Rightarrow>
          if u_account user = [] then Inr ([], None, [])
          else if block_client_on_not_ready cfg \<and> \<not> oms_ready sh (u_account user)
          then Inr ([], None, ''Not ready: account='' @ quoted (u_account user))
          else if compo \<noteq> u_component user then Inr ([], None, ''Invalid component'')
          else bind_result (validate lib (sh_crypto sh) now pw (u_password user) raw_data) (\<lambda>ok.
            if \<not> ok then Inr ([], None, ''Invalid password'')
            else Inr (u_account user, Some user, [])))"

text \<open>What \<open>session_logon\<close> passes to its callback: success, account, user id and reason.\<close>

definition session_logon ::
  "crypto_lib \<Rightarrow> settings \<Rightarrow> nanos \<Rightarrow> string \<Rightarrow> string \<Rightarrow> string \<Rightarrow> string \<Rightarrow> shared \<Rightarrow>
   (bool \<times> string \<times> u16 \<times> string) result" where
  "session_logon lib cfg now compo uname pw raw_data sh =
     bind_result (session_logon_helper lib cfg now compo uname pw raw_data sh) (\<lambda>(acct, user, reason).
       Inr (reason = [], acct, (case user of Some u \<Rightarrow> u_user_id u | None \<Rightarrow> 0), reason))"

section \<open>Gateways\<close>

definition add_source :: "u8 \<Rightarrow> string \<Rightarrow> shared \<Rightarrow> shared" where
  "add_source source_id source_name sh =
     sh\<lparr>sh_gateways := umap_modify (0, False) source_name
          (\<lambda>tmp. if snd tmp then tmp else (source_id, True)) (sh_gateways sh)\<rparr>"

definition remove_source :: "u8 \<Rightarrow> string \<Rightarrow> shared \<Rightarrow> shared" where
  "remove_source source_id source_name sh =
     sh\<lparr>sh_gateways := umap_modify (0, False) source_name
          (\<lambda>tmp. if snd tmp then (source_id, False) else tmp) (sh_gateways sh)\<rparr>"

text \<open>The callback's arguments, gateway by gateway, and the value returned.\<close>

definition get_sources :: "shared \<Rightarrow> (u8 \<times> string \<times> bool) list \<times> bool" where
  "get_sources sh =
     (if sh_gateways sh = [] then ([], False)
      else (map (\<lambda>(source_name, tmp). (fst tmp, source_name, snd tmp)) (sh_gateways sh), True))"

text \<open>An index beyond the end of a vector is undefined behaviour.\<close>

definition vector_update :: "nat \<Rightarrow> ('a \<Rightarrow> 'a) \<Rightarrow> 'a list \<Rightarrow> 'a list result" where
  "vector_update i f xs =
     (if i < length xs then Inr (xs[i := f (xs ! i)]) else Inl (Fault Undefined_behaviour))"

definition on_disconnected :: "u8 \<Rightarrow> shared \<Rightarrow> shared result" where
  "on_disconnected source sh =
     bind_result (vector_update (unat source) (\<lambda>_. []) (sh_oms_status sh)) (\<lambda>v.
       Inr (sh\<lparr>sh_oms_status := v\<rparr>))"

record stream_status =
  ss_account :: string
  ss_supports_order :: bool
  ss_connection_status :: connection_status

definition on_stream_status :: "u8 \<Rightarrow> stream_status \<Rightarrow> shared \<Rightarrow> shared result" where
  "on_stream_status source st sh =
     (if ss_account st = [] then Inr sh
      else if \<not> ss_supports_order st then Inr sh
      else bind_result (vector_update (unat source)
             (umap_assign (ss_account st) (ss_connection_status st)) (sh_oms_status sh)) (\<lambda>v.
               Inr (sh\<lparr>sh_oms_status := v\<rparr>)))"

definition on_gateway_settings :: "u8 \<Rightarrow> u32 \<Rightarrow> shared \<Rightarrow> shared result" where
  "on_gateway_settings source msk sh =
     bind_result (vector_update (unat source) (\<lambda>_. msk) (sh_oms_cancel_all_orders sh)) (\<lambda>v.
       Inr (sh\<lparr>sh_oms_cancel_all_orders := v\<rparr>))"

section \<open>Broadcast tables\<close>

definition update_broadcast_table :: "bool \<Rightarrow> string \<Rightarrow> string \<Rightarrow> shared \<Rightarrow> shared result" where
  "update_broadcast_table asserts exch symbol sh =
     bind_result (fold_result (\<lambda>mapping acc.
         bind_result (Mapping_add asserts exch symbol mapping) (\<lambda>(m, _). Inr (acc @ [m])))
         (sh_broadcast_mappings sh) [])
       (\<lambda>ms. Inr (sh\<lparr>sh_broadcast_mappings := ms\<rparr>))"

text \<open>
  \<open>get_market\<close> is looked up only where the template is used, which is nowhere; it is a
  parameter that says which markets exist. The result is the callback's arguments and the flag.
\<close>

definition Shared_broadcast ::
  "(string \<Rightarrow> string \<Rightarrow> bool) \<Rightarrow> string \<Rightarrow> string \<Rightarrow> shared \<Rightarrow> (string \<times> string) list \<times> bool" where
  "Shared_broadcast get_market exch symbol sh =
     (let markets = filter (\<lambda>(e, s). get_market e s)
        (concat (map (\<lambda>m. fst (Mapping_dispatch m exch symbol)) (sh_broadcast_mappings sh)))
      in (markets, markets \<noteq> []))"

section \<open>Routes\<close>

definition add_route :: "u64 \<Rightarrow> u32 \<Rightarrow> shared \<Rightarrow> shared \<times> bool" where
  "add_route session_id strategy sh =
     (case umap_find (sh_strategy_to_session sh) strategy of
        None \<Rightarrow>
          (sh\<lparr>sh_strategy_to_session := fst (umap_emplace strategy session_id (sh_strategy_to_session sh)),
              sh_session_to_strategies := umap_modify [] session_id (\<lambda>s. fst (uset_emplace strategy s))
                (sh_session_to_strategies sh)\<rparr>, True)
      | Some _ \<Rightarrow> (sh, False))"

definition remove_route :: "u64 \<Rightarrow> u32 \<Rightarrow> shared \<Rightarrow> shared \<times> bool" where
  "remove_route session_id strategy sh =
     (case umap_find (sh_strategy_to_session sh) strategy of
        None \<Rightarrow> (sh, False)
      | Some owner \<Rightarrow>
          if owner \<noteq> session_id then (sh, False)
          else
            (sh\<lparr>sh_session_to_strategies := umap_modify [] session_id (uset_erase strategy)
                  (sh_session_to_strategies sh),
                sh_strategy_to_session := umap_erase strategy (sh_strategy_to_session sh)\<rparr>, True))"

definition remove_all_routes :: "u64 \<Rightarrow> shared \<Rightarrow> shared" where
  "remove_all_routes session_id sh =
     (case umap_find (sh_session_to_strategies sh) session_id of
        None \<Rightarrow> sh
      | Some strategies \<Rightarrow>
          sh\<lparr>sh_strategy_to_session := fold umap_erase strategies (sh_strategy_to_session sh),
             sh_session_to_strategies := umap_erase session_id (sh_session_to_strategies sh)\<rparr>)"

section \<open>The interface of a route table\<close>

text \<open>
  The abstract table is a partial map from strategies to the sessions that own them. Each
  operation has its meaning on that map, together with the flag it returns.
\<close>

datatype route_op = Add_route u64 u32 | Remove_route u64 u32 | Remove_all_routes u64

fun route_spec :: "route_op \<Rightarrow> (u32 \<rightharpoonup> u64) \<Rightarrow> (u32 \<rightharpoonup> u64) \<times> bool" where
  "route_spec (Add_route s k) m = (if m k = None then (m(k \<mapsto> s), True) else (m, False))"
| "route_spec (Remove_route s k) m = (if m k = Some s then (m(k := None), True) else (m, False))"
| "route_spec (Remove_all_routes s) m = ((\<lambda>k. if m k = Some s then None else m k), True)"

fun route_specs :: "route_op list \<Rightarrow> (u32 \<rightharpoonup> u64) \<Rightarrow> (u32 \<rightharpoonup> u64) \<times> bool list" where
  "route_specs [] m = (m, [])"
| "route_specs (r # rs) m =
     (case route_spec r m of (m, ok) \<Rightarrow> case route_specs rs m of (m, oks) \<Rightarrow> (m, ok # oks))"

fun route_apply :: "route_op \<Rightarrow> shared \<Rightarrow> shared \<times> bool" where
  "route_apply (Add_route s k) sh = add_route s k sh"
| "route_apply (Remove_route s k) sh = remove_route s k sh"
| "route_apply (Remove_all_routes s) sh = (remove_all_routes s sh, True)"

fun route_applies :: "route_op list \<Rightarrow> shared \<Rightarrow> shared \<times> bool list" where
  "route_applies [] sh = (sh, [])"
| "route_applies (r # rs) sh =
     (case route_apply r sh of (sh, ok) \<Rightarrow> case route_applies rs sh of (sh, oks) \<Rightarrow> (sh, ok # oks))"

locale route_table =
  fixes owner :: "'t \<Rightarrow> u32 \<rightharpoonup> u64"
    and apply_op :: "route_op \<Rightarrow> 't \<Rightarrow> 't \<times> bool"
    and wf :: "'t \<Rightarrow> bool"
  assumes refines: "wf t \<Longrightarrow> owner (fst (apply_op r t)) = fst (route_spec r (owner t))"
    and answers: "wf t \<Longrightarrow> snd (apply_op r t) = snd (route_spec r (owner t))"
    and wf_apply: "wf t \<Longrightarrow> wf (fst (apply_op r t))"
begin

lemma add_then_remove:
  "wf t \<Longrightarrow> owner t k = None \<Longrightarrow>
   owner (fst (apply_op (Remove_route s k) (fst (apply_op (Add_route s k) t)))) = owner t"
  by (auto simp: refines wf_apply fun_eq_iff)

lemma add_keeps_owner:
  "wf t \<Longrightarrow> owner t k = Some s \<Longrightarrow> owner (fst (apply_op (Add_route s2 k2) t)) k = Some s"
  by (auto simp: refines)

lemma foreign_remove_refused:
  "wf t \<Longrightarrow> owner t k = Some s \<Longrightarrow> s2 \<noteq> s \<Longrightarrow>
   \<not> snd (apply_op (Remove_route s2 k) t) \<and> owner (fst (apply_op (Remove_route s2 k) t)) = owner t"
  by (simp add: refines answers)

lemma remove_all_frees:
  "wf t \<Longrightarrow> owner (fst (apply_op (Remove_all_routes s) t)) k \<noteq> Some s"
  by (simp add: refines)

lemma remove_all_keeps_others:
  "wf t \<Longrightarrow> owner t k = Some s2 \<Longrightarrow> s2 \<noteq> s \<Longrightarrow>
   owner (fst (apply_op (Remove_all_routes s) t)) k = Some s2"
  by (simp add: refines)

end

text \<open>The two hash maps of \<open>Shared\<close> describe the same relation from both sides.\<close>

definition route_owner :: "shared \<Rightarrow> u32 \<rightharpoonup> u64" where
  "route_owner sh = umap_find (sh_strategy_to_session sh)"

definition strategies_of :: "shared \<Rightarrow> u64 \<Rightarrow> u32 uset" where
  "strategies_of sh = umap_index [] (sh_session_to_strategies sh)"

definition routes_wf :: "shared \<Rightarrow> bool" where
  "routes_wf sh \<longleftrightarrow>
     (\<forall>s. set (strategies_of sh s) = {k. route_owner sh k = Some s} \<and> distinct (strategies_of sh s))"

lemma routes_wfD:
  assumes "routes_wf sh"
  shows "set (strategies_of sh s) = {k. route_owner sh k = Some s}" and "distinct (strategies_of sh s)"
  using assms by (auto simp: routes_wf_def)

lemma routes_wfI:
  "(\<And>s. set (strategies_of sh s) = {k. route_owner sh k = Some s}) \<Longrightarrow>
   (\<And>s. distinct (strategies_of sh s)) \<Longrightarrow> routes_wf sh"
  by (simp add: routes_wf_def)

lemma umap_index_modify [simp]:
  "umap_index d (umap_modify d k f m) k' = (if k' = k then f (umap_index d m k) else umap_index d m k')"
  by (simp add: umap_modify_def)

lemma umap_index_erase [simp]:
  "umap_index d (umap_erase k m) k' = (if k' = k then d else umap_index d m k')"
  by (simp add: umap_index_def)

lemma find_erase_list:
  "umap_find (fold umap_erase ks m) = (\<lambda>k. if k \<in> set ks then None else umap_find m k)"
  by (induction ks arbitrary: m) (auto simp: fun_eq_iff)

lemma add_route_owner:
  "route_owner (fst (add_route s k sh)) = (if route_owner sh k = None then (route_owner sh)(k \<mapsto> s) else route_owner sh)"
  "snd (add_route s k sh) \<longleftrightarrow> route_owner sh k = None"
  by (auto simp: add_route_def route_owner_def umap_find_emplace split: option.splits)

lemma add_route_strategies:
  "route_owner sh k = None \<Longrightarrow> strategies_of (fst (add_route s k sh)) s2 =
     (if s2 = s then fst (uset_emplace k (strategies_of sh s)) else strategies_of sh s2)"
  "route_owner sh k = Some s1 \<Longrightarrow> fst (add_route s k sh) = sh"
  by (simp_all add: add_route_def strategies_of_def route_owner_def)

lemma add_route_wf:
  assumes "routes_wf sh"
  shows "routes_wf (fst (add_route s k sh))"
proof (cases "route_owner sh k")
  case None
  then show ?thesis
    by (intro routes_wfI)
      (auto simp: add_route_strategies add_route_owner(1) uset_emplace_def routes_wfD [OF assms])
qed (simp add: add_route_strategies assms)

lemma remove_route_owner:
  "route_owner (fst (remove_route s k sh)) = (if route_owner sh k = Some s then (route_owner sh)(k := None) else route_owner sh)"
  "snd (remove_route s k sh) \<longleftrightarrow> route_owner sh k = Some s"
  by (auto simp: remove_route_def route_owner_def split: option.splits)

lemma remove_route_strategies:
  "route_owner sh k = Some s \<Longrightarrow> strategies_of (fst (remove_route s k sh)) s2 =
     (if s2 = s then uset_erase k (strategies_of sh s) else strategies_of sh s2)"
  "route_owner sh k \<noteq> Some s \<Longrightarrow> fst (remove_route s k sh) = sh"
  by (auto simp: remove_route_def strategies_of_def route_owner_def split: option.splits)

lemma remove_route_wf:
  assumes "routes_wf sh"
  shows "routes_wf (fst (remove_route s k sh))"
proof (cases "route_owner sh k = Some s")
  case True
  then show ?thesis
    by (intro routes_wfI)
      (auto simp: remove_route_strategies remove_route_owner(1) uset_erase_def routes_wfD [OF assms])
qed (simp add: remove_route_strategies assms)

lemma remove_all_routes_owner:
  assumes "routes_wf sh"
  shows "route_owner (remove_all_routes s sh) = (\<lambda>k. if route_owner sh k = Some s then None else route_owner sh k)"
proof (cases "umap_find (sh_session_to_strategies sh) s")
  case None
  then have "{k. route_owner sh k = Some s} = {}"
    using routes_wfD(1) [OF assms, of s] by (simp add: strategies_of_def umap_index_None)
  with None show ?thesis by (auto simp: remove_all_routes_def fun_eq_iff)
next
  case (Some ks)
  then have "set ks = {k. route_owner sh k = Some s}"
    using routes_wfD(1) [OF assms, of s] by (simp add: strategies_of_def umap_index_Some)
  with Some show ?thesis
    by (simp add: remove_all_routes_def route_owner_def find_erase_list fun_eq_iff)
qed

lemma remove_all_routes_strategies:
  "strategies_of (remove_all_routes s sh) s2 = (if s2 = s then [] else strategies_of sh s2)"
  by (auto simp: remove_all_routes_def strategies_of_def umap_index_None split: option.splits)

lemma remove_all_routes_wf:
  assumes "routes_wf sh"
  shows "routes_wf (remove_all_routes s sh)"
  by (intro routes_wfI)
    (auto simp: remove_all_routes_strategies remove_all_routes_owner [OF assms] routes_wfD [OF assms])

interpretation routes: route_table route_owner route_apply routes_wf
proof unfold_locales
  fix t r
  assume wf: "routes_wf t"
  show "route_owner (fst (route_apply r t)) = fst (route_spec r (route_owner t))"
    using wf by (cases r) (simp_all add: add_route_owner remove_route_owner remove_all_routes_owner)
  show "snd (route_apply r t) = snd (route_spec r (route_owner t))"
    by (cases r) (simp_all add: add_route_owner remove_route_owner)
  show "routes_wf (fst (route_apply r t))"
    using wf by (cases r) (simp_all add: add_route_wf remove_route_wf remove_all_routes_wf)
qed

lemma route_applies_refines:
  "routes_wf sh \<Longrightarrow>
   routes_wf (fst (route_applies ops sh)) \<and>
   route_owner (fst (route_applies ops sh)) = fst (route_specs ops (route_owner sh)) \<and>
   snd (route_applies ops sh) = snd (route_specs ops (route_owner sh))"
proof (induction ops arbitrary: sh)
  case (Cons r ops)
  from Cons.IH [OF routes.wf_apply [OF Cons.prems, of r]] show ?case
    using routes.refines [OF Cons.prems, of r] routes.answers [OF Cons.prems, of r]
    by (auto split: prod.splits)
qed simp

lemma Shared_create_routes:
  assumes "Shared_create compile cfg c n = Inr sh"
  shows "routes_wf sh" and "route_owner sh = Map.empty"
  using assms
  by (auto simp: Shared_create_def bind_result_eq_Inr routes_wf_def route_owner_def strategies_of_def
      umap_index_def)

section \<open>Properties\<close>

text \<open>
  C6 (routes_refine). However routes are added and removed, the two hash maps behave as one
  partial map from strategies to sessions: every call returns what the abstract operation
  returns, the strategy table is that map, and the strategies listed under a session are exactly
  those that map to it.
\<close>

theorem routes_refine:
  assumes "Shared_create compile cfg c source_count = Inr sh"
  shows "umap_find (sh_strategy_to_session (fst (route_applies ops sh))) = fst (route_specs ops Map.empty) \<and>
    snd (route_applies ops sh) = snd (route_specs ops Map.empty) \<and>
    set (umap_index [] (sh_session_to_strategies (fst (route_applies ops sh))) session) =
      {k. fst (route_specs ops Map.empty) k = Some session}"
proof -
  note created = Shared_create_routes [OF assms]
  note ref = route_applies_refines [OF created(1), of ops, unfolded created(2)]
  with routes_wfD(1) [of "fst (route_applies ops sh)" session] show ?thesis
    by (simp add: route_owner_def strategies_of_def)
qed

definition example_shared :: shared where
  "example_shared =
     \<lparr>sh_username_to_user = [(''trader'', example_user), (''tbom2'', example_user_2)],
      sh_crypto = \<lparr>c_method = UNDEFINED_METHOD, c_timestamp_tolerance = 5000000000\<rparr>, sh_gateways = [],
      sh_oms_status = [[]], sh_oms_cancel_all_orders = [0], sh_broadcast_mappings = [],
      sh_strategy_to_session = [], sh_session_to_strategies = []\<rparr>"

lemma example_shared_created:
  "Shared_create suffix_pattern example_settings example_config 1 = Inr example_shared"
  by (simp add: Shared_create_def Crypto_create_def parse_method_def example_settings_def
      default_settings_def extract_username_to_user_def example_config_def add_to_directory_def
      example_user_def example_user_2_def umap_emplace_def insert_or_fatal_def
      extract_broadcast_mappings_def example_shared_def)

theorem routes_refine_witness:
  "snd (route_applies [Add_route 1 7, Add_route 2 7, Remove_route 2 7, Remove_all_routes 1, Add_route 2 7]
     example_shared) = [True, False, False, True, True] \<and>
   umap_find (sh_strategy_to_session (fst (route_applies
     [Add_route 1 7, Add_route 2 7, Remove_route 2 7, Remove_all_routes 1, Add_route 2 7] example_shared))) 7 = Some 2"
  using routes_refine [OF example_shared_created,
      of "[Add_route 1 7, Add_route 2 7, Remove_route 2 7, Remove_all_routes 1, Add_route 2 7]"]
  by simp

lemma directory_split:
  "fold_result (add_to_directory cfg) users (d, a) = Inr (d', a') \<longleftrightarrow>
     fold_result (\<lambda>p. case p of (k, v) \<Rightarrow> \<lambda>m. insert_or_fatal (umap_emplace k v m))
       (map (\<lambda>(_, u). (u_username u, u)) users) d = Inr d' \<and>
     fold_result (\<lambda>p. case p of (k, v) \<Rightarrow> \<lambda>m. insert_or_fatal (umap_emplace k v m))
       (filter (\<lambda>(k, _). \<not> oms_route_by_strategy cfg \<and> k \<noteq> [])
          (map (\<lambda>(_, u). (u_account u, u_username u)) users)) a = Inr a'"
proof (induction users arbitrary: d a)
  case (Cons p users)
  obtain k u where p: "p = (k, u)" by (cases p)
  show ?case
    using Cons.IH by (auto simp: p add_to_directory_def bind_result_eq_Inr)
qed simp

lemma config_directory:
  assumes "Config_create lib cfg tab = Inr c"
  shows "\<exists>dir. create_username_to_user cfg (cfg_users c) = Inr dir \<and>
    extract_username_to_user cfg (cfg_users c) = Inr dir \<and>
    umap_find dir = map_of (map (\<lambda>(_, u). (u_username u, u)) (cfg_users c)) \<and>
    (\<forall>k u. (k, u) \<in> set (cfg_users c) \<longrightarrow> umap_find dir (u_username u) = Some u)"
proof -
  let ?named = "map (\<lambda>(_, u). (u_username u, u)) (cfg_users c)"
  let ?accounts = "filter (\<lambda>(k, _). \<not> oms_route_by_strategy cfg \<and> k \<noteq> [])
      (map (\<lambda>(_, u). (u_account u, u_username u)) (cfg_users c))"
  have "distinct (map (\<lambda>(_, u). u_username u) (cfg_users c))"
    using assms by (rule Config_createE)
  then have names: "distinct (map fst ?named)" by (simp add: comp_def case_prod_unfold)
  have acc: "map fst (filter (\<lambda>(k, _). k \<noteq> []) (map (\<lambda>(_, u). (u_account u, u_username u)) us)) =
      filter (\<lambda>a. a \<noteq> []) (map (\<lambda>(_, u). u_account u) us)" for us :: users_map
    by (induction us) auto
  have accounts: "distinct (map fst ?accounts)"
  proof (cases "oms_route_by_strategy cfg")
    case False
    then have "distinct (filter (\<lambda>a. a \<noteq> []) (map (\<lambda>(_, u). u_account u) (cfg_users c)))"
      using assms by (blast elim: Config_createE)
    with False acc show ?thesis by simp
  qed (simp add: case_prod_beta)
  from umap.emplace_all_total [OF names, of "[]"] obtain dir where
    dir: "fold_result (\<lambda>(k, v) m. insert_or_fatal (umap_emplace k v m)) ?named [] = Inr dir"
    by auto
  from umap.emplace_all_total [OF accounts, of "[]"] obtain acs where
    "fold_result (\<lambda>(k, v) m. insert_or_fatal (umap_emplace k v m)) ?accounts [] = Inr acs"
    by auto
  with dir have "fold_result (add_to_directory cfg) (cfg_users c) ([], []) = Inr (dir, acs)"
    by (simp add: directory_split)
  moreover have find: "umap_find dir = map_of ?named"
    using umap.emplace_all_Inr [OF dir] by simp
  moreover have "umap_find dir (u_username u) = Some u" if "(k, u) \<in> set (cfg_users c)" for k u
    using that names unfolding find by (force intro: map_of_is_SomeI)
  ultimately show ?thesis
    by (auto simp: create_username_to_user_def extract_username_to_user_def)
qed

text \<open>
  C23 (config_gives_directory). The checks of the configuration make those of the two
  directories redundant: for any configuration that loads, both constructors build the
  directory without stopping the process, it finds every user under the user's name, and it
  knows no other name.
\<close>

theorem config_gives_directory:
  assumes "Config_create lib cfg tab = Inr c"
  shows "\<exists>dir. create_username_to_user cfg (cfg_users c) = Inr dir \<and>
    extract_username_to_user cfg (cfg_users c) = Inr dir \<and>
    umap_find dir = map_of (map (\<lambda>(_, u). (u_username u, u)) (cfg_users c)) \<and>
    (\<forall>k u. (k, u) \<in> set (cfg_users c) \<longrightarrow> umap_find dir (u_username u) = Some u)"
  using assms by (rule config_directory)

theorem config_gives_directory_witness:
  "\<exists>dir. create_username_to_user example_settings (cfg_users example_config) = Inr dir \<and>
     umap_find dir ''trader'' = Some example_user"
proof -
  from config_gives_directory [OF example_config_loads] obtain dir where
    "create_username_to_user example_settings (cfg_users example_config) = Inr dir"
    "umap_find dir = map_of (map (\<lambda>(_, u). (u_username u, u)) (cfg_users example_config))"
    by blast
  then show ?thesis by (simp add: example_config_def example_user_def)
qed

text \<open>
  C25 (session_logon_checked). For a user with an account, a logon succeeds exactly when the
  account is ready where that is demanded, the component is the configured one, the raw text is
  fresh and the password is the one the method expects; then the account and the user's number
  are passed on.
\<close>

theorem session_logon_checked:
  assumes "umap_find (sh_username_to_user sh) uname = Some user" and "u_account user \<noteq> []"
  shows "(\<exists>acct uid. session_logon lib cfg now compo uname pw raw_data sh = Inr (True, acct, uid, [])) \<longleftrightarrow>
      (block_client_on_not_ready cfg \<longrightarrow> oms_ready sh (u_account user)) \<and> compo = u_component user \<and>
      auth_freshness lib (sh_crypto sh) now raw_data = Inr True \<and>
      pw = auth_token lib (sh_crypto sh) (u_password user) raw_data"
    (is "?ok \<longleftrightarrow> ?ready \<and> ?comp \<and> ?fresh \<and> ?pw")
proof -
  have check: "validate lib (sh_crypto sh) now pw (u_password user) raw_data = Inr True \<longleftrightarrow> ?fresh \<and> ?pw"
    by (rule auth.check_accepts)
  show ?thesis
    unfolding check [symmetric] using assms
    by (cases "validate lib (sh_crypto sh) now pw (u_password user) raw_data")
      (auto simp: session_logon_def session_logon_helper_def)
qed

theorem session_logon_checked_witness:
  "\<exists>acct uid. session_logon example_lib example_settings 0 ''fix-client'' ''trader'' ''secret'' [] example_shared =
     Inr (True, acct, uid, [])"
proof -
  have u: "umap_find (sh_username_to_user example_shared) ''trader'' = Some example_user"
    and a: "u_account example_user \<noteq> []"
    by (simp_all add: example_shared_def example_user_def)
  show ?thesis
    using session_logon_checked [OF u a, of example_lib example_settings 0 "''fix-client''" "''secret''" "[]"]
    by (simp add: example_shared_def example_user_def example_settings_def default_settings_def
        auth_freshness_def auth_token_def)
qed

text \<open>
  C29 (session_logon_without_account). A configured user without an account is let in whatever
  component, password and raw text come with the request, and without readiness: the check for
  the account comes first and returns an empty reason, which the caller reads as success. The
  user's number is then reported as zero.
\<close>

theorem session_logon_without_account:
  assumes "umap_find (sh_username_to_user sh) uname = Some user" and "u_account user = []"
  shows "session_logon lib cfg now compo uname pw raw_data sh = Inr (True, [], 0, [])"
  using assms by (simp add: session_logon_def session_logon_helper_def)

theorem session_logon_without_account_witness:
  "session_logon example_lib example_settings 0 ''intruder'' ''tbom2'' ''guess'' [] example_shared =
   Inr (True, [], 0, [])"
  by (rule session_logon_without_account [where user = example_user_2])
    (simp_all add: example_shared_def example_user_2_def)

end
