(* ===== verification/Fix_Session.thy ===== *)
theory Fix_Session
  imports Shared_State
begin

text \<open>
  The data of a client session (\<open>session.hpp\<close>): the message types and messages it
  exchanges, the state of one \<open>Session\<close> object, and the parts of \<open>session.cpp\<close> that
  concern that object alone (names, texts, the check of a header).
\<close>

section \<open>Messages\<close>

text \<open>The message types the switch of \<open>parse_helper\<close> names; the rest by number.\<close>

datatype msg_type = LOGON | LOGOUT | TEST_REQUEST | RESEND_REQUEST | REJECT | HEARTBEAT
  | TRADING_SESSION_STATUS_REQUEST | SECURITY_LIST_REQUEST | SECURITY_DEFINITION_REQUEST
  | SECURITY_STATUS_REQUEST | MARKET_DATA_REQUEST | USER_REQUEST | ORDER_STATUS_REQUEST
  | ORDER_MASS_STATUS_REQUEST | NEW_ORDER_SINGLE | ORDER_CANCEL_REQUEST
  | ORDER_CANCEL_REPLACE_REQUEST | ORDER_MASS_CANCEL_REQUEST | TRADE_CAPTURE_REPORT_REQUEST
  | REQUEST_FOR_POSITIONS | MASS_QUOTE | QUOTE_CANCEL | OTHER_MSG_TYPE nat

text \<open>The decoders of client messages (all but the one of user requests, whose fields matter).\<close>

datatype in_codec = In_Logon | In_Logout | In_TestRequest | In_ResendRequest | In_Reject | In_Heartbeat
  | In_TradingSessionStatusRequest | In_SecurityListRequest | In_SecurityDefinitionRequest
  | In_SecurityStatusRequest | In_MarketDataRequest | In_OrderStatusRequest
  | In_OrderMassStatusRequest | In_NewOrderSingle | In_OrderCancelRequest
  | In_OrderCancelReplaceRequest | In_OrderMassCancelRequest | In_TradeCaptureReportRequest
  | In_RequestForPositions | In_MassQuote | In_QuoteCancel

text \<open>The kinds of messages the bridge library sends to a session, one per handler.\<close>

datatype out_codec = Out_Reject | Out_Logon | Out_Logout | Out_Heartbeat | Out_TestRequest
  | Out_BusinessMessageReject | Out_UserResponse | Out_TradingSessionStatus | Out_SecurityList
  | Out_SecurityDefinition | Out_SecurityStatus | Out_MarketDataRequestReject
  | Out_MarketDataSnapshotFullRefresh | Out_MarketDataIncrementalRefresh | Out_ExecutionReport
  | Out_OrderCancelReject | Out_OrderMassCancelReport | Out_TradeCaptureReportRequestAck
  | Out_TradeCaptureReport | Out_RequestForPositionsAck | Out_PositionReport | Out_MassQuoteAck
  | Out_QuoteStatusReport

datatype fix_version = FIX_44 | OTHER_VERSION nat

definition FIX_VERSION :: fix_version where
  "FIX_VERSION = FIX_44"

record fix_header =
  h_version :: fix_version
  h_msg_type :: msg_type
  h_sender_comp_id :: string
  h_target_comp_id :: string
  h_msg_seq_num :: u64
  h_sending_time :: nanos

record fix_message =
  fm_header :: fix_header
  fm_bytes :: bytes

datatype user_request_type = UR_UNDEFINED | UR_UNKNOWN | LOG_ON_USER | LOG_OFF_USER
  | CHANGE_PASSWORD_FOR_USER | REQUEST_INDIVIDUAL_USER_STATUS

datatype user_status = LOGGED_IN | NOT_LOGGED_IN | OTHER_USER_STATUS

record user_request =
  ur_user_request_id :: string
  ur_username :: string
  ur_user_request_type :: user_request_type

datatype business_reject_reason = UNSUPPORTED_MESSAGE_TYPE | OTHER_REJECT_REASON nat

text \<open>
  What a session sends: the three messages this repository builds itself, field by field, and
  those the bridge library built, which pass through unread (\<open>'q\<close> is their content).
\<close>

datatype 'q out_msg =
    Logout_msg string
  | Business_message_reject_msg u64 msg_type string business_reject_reason string
  | User_response_msg string string user_status string
  | Bridge_msg out_codec 'q

section \<open>Error codes and their texts\<close>

datatype codec_error = ERROR_UNDEFINED | NO_ORDERS | NO_TRADES | UNEXPECTED_MSG_TYPE
  | UNSUPPORTED_USER_REQUEST_TYPE | INVALID_USERNAME | INVALID_COMPONENT | INVALID_PASSWORD
  | OTHER_ERROR string

text \<open>\<open>magic_enum::enum_name\<close> is the identifier of the enumerator.\<close>

fun enum_name :: "codec_error \<Rightarrow> string" where
  "enum_name ERROR_UNDEFINED = ''UNDEFINED''"
| "enum_name NO_ORDERS = ''NO_ORDERS''"
| "enum_name NO_TRADES = ''NO_TRADES''"
| "enum_name UNEXPECTED_MSG_TYPE = ''UNEXPECTED_MSG_TYPE''"
| "enum_name UNSUPPORTED_USER_REQUEST_TYPE = ''UNSUPPORTED_USER_REQUEST_TYPE''"
| "enum_name INVALID_USERNAME = ''INVALID_USERNAME''"
| "enum_name INVALID_COMPONENT = ''INVALID_COMPONENT''"
| "enum_name INVALID_PASSWORD = ''INVALID_PASSWORD''"
| "enum_name (OTHER_ERROR identifier) = identifier"

definition get_text :: "codec_error \<Rightarrow> string" where
  "get_text error =
     (case error of
        ERROR_UNDEFINED \<Rightarrow> []
      | NO_ORDERS \<Rightarrow> ''NO ORDERS''
      | NO_TRADES \<Rightarrow> ''NO TRADES''
      | _ \<Rightarrow> enum_name error)"

section \<open>The state of a session\<close>

datatype session_state = WAITING_LOGON | READY | ZOMBIE

text \<open>The enumerators in the order of the declaration.\<close>

fun state_rank :: "session_state \<Rightarrow> nat" where
  "state_rank WAITING_LOGON = 0"
| "state_rank READY = 1"
| "state_rank ZOMBIE = 2"

lemma state_rank_inject: "state_rank a = state_rank b \<longleftrightarrow> a = b"
  by (cases a; cases b) simp_all

instantiation session_state :: linorder
begin

definition less_eq_session_state :: "session_state \<Rightarrow> session_state \<Rightarrow> bool" where
  "a \<le> b \<longleftrightarrow> state_rank a \<le> state_rank b"

definition less_session_state :: "session_state \<Rightarrow> session_state \<Rightarrow> bool" where
  "a < b \<longleftrightarrow> state_rank a < state_rank b"

instance
  by intro_classes (auto simp: less_eq_session_state_def less_session_state_def state_rank_inject)

end

lemma ZOMBIE_top [simp]: "s \<le> ZOMBIE" "ZOMBIE \<le> s \<longleftrightarrow> s = ZOMBIE"
  by (cases s; simp add: less_eq_session_state_def)+

record session =
  s_session_id :: u64
  s_name :: string
  s_prefix :: string
  s_buffer :: bytes
  s_state :: session_state
  s_account :: string
  s_user_id :: u16
  s_waiting_for_heartbeat :: bool
  s_decode_buffer_size :: u32
  s_decode_buffer_2_size :: u32
  s_encode_buffer_size :: u32
  s_outbound_msg_seq_num :: u64
  s_inbound_msg_seq_num :: u64
  s_comp_id :: string

definition create_name :: "u64 \<Rightarrow> string" where
  "create_name session_id = show_nat (unat session_id) @ '':cl''"

definition create_prefix :: "u64 \<Rightarrow> string" where
  "create_prefix session_id = ''[session_id='' @ show_nat (unat session_id) @ '']:''"

definition Session_create :: "settings \<Rightarrow> u64 \<Rightarrow> session" where
  "Session_create cfg session_id =
     \<lparr>s_session_id = session_id, s_name = create_name session_id, s_prefix = create_prefix session_id,
      s_buffer = [], s_state = WAITING_LOGON, s_account = [], s_user_id = 0,
      s_waiting_for_heartbeat = False, s_decode_buffer_size = fix_decode_buffer_size cfg,
      s_decode_buffer_2_size = fix_decode_buffer_size cfg,
      s_encode_buffer_size = fix_encode_buffer_size cfg, s_outbound_msg_seq_num = 0,
      s_inbound_msg_seq_num = 0, s_comp_id = []\<rparr>"

section \<open>The check of a header\<close>

text \<open>What is logged about the sequence number: current, previous and the distance between them.\<close>

datatype seq_check = In_sequence | Sequence_gap u64 u64 u64 | Sequence_replay u64 u64 u64

definition seq_verdict :: "u64 \<Rightarrow> u64 \<Rightarrow> seq_check" where
  "seq_verdict current previous =
     (let expected = previous + 1
      in if current \<noteq> expected
         then if expected < current then Sequence_gap current previous (current - previous)
              else Sequence_replay current previous (previous - current)
         else In_sequence)"

definition check_comp_id :: "bool \<Rightarrow> string \<Rightarrow> session \<Rightarrow> session outcome" where
  "check_comp_id asserts sender s =
     seq (cassert asserts (sender \<noteq> []) s) (\<lambda>s.
       if s_comp_id s = [] then Normal (s\<lparr>s_comp_id := sender\<rparr>)
       else cassert asserts (sender = s_comp_id s) s)"

text \<open>\<open>Session::check\<close> on the object itself, and the verdict it logs.\<close>

definition check_header :: "bool \<Rightarrow> fix_header \<Rightarrow> session \<Rightarrow> session outcome \<times> seq_check" where
  "check_header asserts header s =
     (map_outcome (\<lambda>s. s\<lparr>s_inbound_msg_seq_num := h_msg_seq_num header\<rparr>)
        (check_comp_id asserts (h_sender_comp_id header) s),
      seq_verdict (h_msg_seq_num header) (s_inbound_msg_seq_num s))"

end
