(* ===== verification/Bridge_World.thy ===== *)
theory Bridge_World
  imports Fix_Session
begin

text \<open>
  The running program as one state. \<open>world\<close> holds the state of the bridge library (opaque), the
  \<open>Shared\<close> object, the members of \<open>SessionManager\<close> with all sessions, and the trace of
  everything that left the process. \<open>env\<close> holds what does not change: the settings, the
  constant members of \<open>Controller\<close>, and the code outside the repository as functions. What
  a library or the outside world answers may depend on everything that happened before, so those
  functions take the trace.
\<close>

section \<open>Requests to the gateways\<close>

datatype side = SIDE_UNDEFINED | BUY | SELL

record cancel_all_orders =
  ca_account :: string
  ca_order_id :: u64
  ca_exchange :: string
  ca_symbol :: string
  ca_strategy_id :: u32
  ca_side :: side

datatype service_state = STATE_UNDEFINED | ENABLED | DISABLED

datatype 'q order = CreateOrder 'q | ModifyOrder 'q | CancelOrder 'q | MassQuote 'q | CancelQuotes 'q

datatype 'q request =
    Send_order "'q order" u8
  | Send_cancel_all cancel_all_orders u8
  | Broadcast_cancel_all cancel_all_orders
  | Strategy_update u32 service_state
  | Service_update service_state

section \<open>The bridge library\<close>

text \<open>
  \<open>fix::bridge::Manager\<close> is told about client messages, connections and gateway events.
  While it handles one of these it may call the controller any number of times, look at the
  answers, and return or throw. Such a run is a tree of calls; what the tree is, is a parameter.
\<close>

datatype client_event = Ev_Timer | Ev_Connected | Ev_Disconnected | Ev_DownloadBegin | Ev_DownloadEnd
  | Ev_Ready | Ev_GatewaySettings | Ev_StreamStatus | Ev_GatewayStatus | Ev_ReferenceData
  | Ev_MarketStatus | Ev_TopOfBook | Ev_MarketByPriceUpdate | Ev_TradeSummary | Ev_StatisticsUpdate
  | Ev_OrderAck | Ev_OrderUpdate | Ev_TradeUpdate | Ev_FundsUpdate | Ev_PositionUpdate

datatype 'p bridge_input =
    Client_message in_codec 'p fix_header u64
  | Client_user_request user_request fix_header u64
  | Bridge_connected u64
  | Bridge_disconnected u64
  | Gateway_event client_event 'p

record credentials =
  cr_component :: string
  cr_username :: string
  cr_password :: string
  cr_raw_data :: string

datatype 'q bridge_call =
    Credentials_call credentials
  | Order_call "'q order" u8
  | Cancel_all_call cancel_all_orders
  | Disconnect_call u64
  | Send_call out_codec 'q u64
  | Send_execution_report_call 'q

datatype call_result = Call_ok | Call_threw exn | Credentials_result codec_error u32

datatype ('q, 'b) bridge_run =
    Return 'b
  | Throw exn 'b
  | Call "'q bridge_call" "call_result \<Rightarrow> ('q, 'b) bridge_run"

section \<open>Effects\<close>

datatype direction = IN | OUT

text \<open>
  \<open>Sent\<close> stands for a call of \<open>Connection::send\<close>: the session, the header, the message,
  whether the connection ran the encoder, and what the call ended in.
\<close>

datatype ('p, 'q) effect =
    Header_checked u64 seq_check
  | Fix_log_info direction u64 bytes
  | Fix_log_file direction u64 bytes
  | Unexpected_msg_type u64 msg_type
  | To_bridge "'p bridge_input"
  | Sent u64 fix_header "'q out_msg" bool "exn + bool"
  | Latency int
  | Connection_close u64
  | Timer_resume
  | Session_connected u64
  | Session_logout u64
  | Request "'q request" "exn option"

section \<open>Environment and world\<close>

text \<open>
  What \<open>Reader::dispatch\<close> does with a buffer: the calls it makes of the two callbacks it was
  given, in order, and then the number of bytes it returns or the exception it throws. An
  exception of a callback is taken to pass through it.
\<close>

datatype reader_call = Logger_call bytes | Parser_call fix_message

record ('p, 'q, 'b) env =
  e_settings :: settings
  e_asserts :: bool
  e_fix_file :: bool
  e_username_to_user :: directory
  e_crypto :: crypto
  e_crypto_lib :: crypto_lib
  e_reader :: "bytes \<Rightarrow> reader_call list \<times> (exn + nat)"
  e_decode :: "in_codec \<Rightarrow> fix_message \<Rightarrow> exn + 'p"
  e_decode_user_request :: "fix_message \<Rightarrow> exn + user_request"
  e_encode :: "fix_header \<Rightarrow> 'q out_msg \<Rightarrow> exn + bytes"
  e_msg_type :: "'q out_msg \<Rightarrow> msg_type"
  e_strategy_id :: "string \<Rightarrow> exn + u32"
  e_bridge :: "'p bridge_input \<Rightarrow> 'b \<Rightarrow> ('q, 'b) bridge_run"
  e_connection_send :: "('p, 'q) effect list \<Rightarrow> u64 \<Rightarrow> bool \<times> (exn + bool)"
  e_dispatcher :: "('p, 'q) effect list \<Rightarrow> 'q request \<Rightarrow> exn option"
  e_realtime :: "('p, 'q) effect list \<Rightarrow> nanos"
  e_system_time :: "('p, 'q) effect list \<Rightarrow> nanos"

record ('p, 'q, 'b) world =
  w_bridge :: 'b
  w_shared :: shared
  w_next_session_id :: u64
  w_sessions :: "(u64, session) umap"
  w_next_cleanup :: nanos
  w_zombies :: "u64 uset"
  w_trace :: "('p, 'q) effect list"

definition initial_world :: "'b \<Rightarrow> shared \<Rightarrow> ('p, 'q, 'b) world" where
  "initial_world b sh = \<lparr>w_bridge = b, w_shared = sh, w_next_session_id = 0, w_sessions = [],
     w_next_cleanup = 0, w_zombies = [], w_trace = []\<rparr>"

section \<open>Elementary steps\<close>

definition emit :: "('p, 'q) effect \<Rightarrow> ('p, 'q, 'b) world \<Rightarrow> ('p, 'q, 'b) world" where
  "emit e w = w\<lparr>w_trace := w_trace w @ [e]\<rparr>"

definition find_session :: "u64 \<Rightarrow> ('p, 'q, 'b) world \<Rightarrow> session option" where
  "find_session sid w = umap_find (w_sessions w) sid"

definition update_session :: "u64 \<Rightarrow> (session \<Rightarrow> session) \<Rightarrow> ('p, 'q, 'b) world \<Rightarrow> ('p, 'q, 'b) world" where
  "update_session sid f w =
     (case find_session sid w of
        None \<Rightarrow> w
      | Some s \<Rightarrow> w\<lparr>w_sessions := umap_assign sid (f s) (w_sessions w)\<rparr>)"

text \<open>
  A method of a session runs on an object that exists; on one that does not, the program would
  use freed memory.
\<close>

definition with_session ::
  "u64 \<Rightarrow> ('p, 'q, 'b) world \<Rightarrow> (session \<Rightarrow> 't outcome) \<Rightarrow> 't outcome" where
  "with_session sid w f =
     (case find_session sid w of None \<Rightarrow> Aborted Undefined_behaviour | Some s \<Rightarrow> f s)"

definition update_shared :: "(shared \<Rightarrow> shared) \<Rightarrow> ('p, 'q, 'b) world \<Rightarrow> ('p, 'q, 'b) world" where
  "update_shared f w = w\<lparr>w_shared := f (w_shared w)\<rparr>"

text \<open>\<open>FIXLog::log\<close>: to the log when debugging, to the file when \<open>file_\<close> is not null.\<close>

definition fix_log :: "('p, 'q, 'b) env \<Rightarrow> direction \<Rightarrow> u64 \<Rightarrow> bytes \<Rightarrow> ('p, 'q, 'b) world \<Rightarrow> ('p, 'q, 'b) world" where
  "fix_log env dir sid message w =
     (let w = (if fix_debug (e_settings env) then emit (Fix_log_info dir sid message) w else w)
      in if e_fix_file env then emit (Fix_log_file dir sid message) w else w)"

section \<open>Elementary facts\<close>

lemma emit_simps [simp]:
  "w_trace (emit e w) = w_trace w @ [e]"
  "w_sessions (emit e w) = w_sessions w"
  "w_shared (emit e w) = w_shared w"
  "w_zombies (emit e w) = w_zombies w"
  "w_next_session_id (emit e w) = w_next_session_id w"
  "w_next_cleanup (emit e w) = w_next_cleanup w"
  "w_bridge (emit e w) = w_bridge w"
  "find_session sid (emit e w) = find_session sid w"
  by (simp_all add: emit_def find_session_def)

lemma update_session_simps [simp]:
  "w_trace (update_session sid f w) = w_trace w"
  "w_shared (update_session sid f w) = w_shared w"
  "w_zombies (update_session sid f w) = w_zombies w"
  "w_next_session_id (update_session sid f w) = w_next_session_id w"
  "w_next_cleanup (update_session sid f w) = w_next_cleanup w"
  "w_bridge (update_session sid f w) = w_bridge w"
  by (simp_all add: update_session_def split: option.splits)

lemma find_update_session:
  "find_session sid2 (update_session sid f w) =
     (if sid2 = sid then map_option f (find_session sid w) else find_session sid2 w)"
  by (auto simp: update_session_def find_session_def split: option.splits)

lemma update_session_keys [simp]:
  "map fst (w_sessions (update_session sid f w)) = map fst (w_sessions w)"
proof (cases "find_session sid w")
  case (Some s)
  then have "sid \<in> set (map fst (w_sessions w))"
    by (force simp: find_session_def dest: map_of_SomeD)
  with Some show ?thesis by (simp add: update_session_def umap_assign_keys del: set_map)
qed (simp add: update_session_def)

lemma update_shared_simps [simp]:
  "w_trace (update_shared f w) = w_trace w"
  "w_sessions (update_shared f w) = w_sessions w"
  "w_shared (update_shared f w) = f (w_shared w)"
  "w_zombies (update_shared f w) = w_zombies w"
  "w_next_session_id (update_shared f w) = w_next_session_id w"
  "w_next_cleanup (update_shared f w) = w_next_cleanup w"
  "w_bridge (update_shared f w) = w_bridge w"
  "find_session sid (update_shared f w) = find_session sid w"
  by (simp_all add: update_shared_def find_session_def)

end
