(* ===== verification/Session_Ops.thy ===== *)
theory Session_Ops
  imports Bridge_World
begin

text \<open>
  The operations of one session that do not call the bridge library: sending, closing, and
  becoming a zombie (\<open>session.cpp\<close>, lines 71-76 and 469-725), with the handler of
  \<open>Session::Disconnect\<close> in the session manager. The end of the theory states the interface
  \<open>session_contract\<close>: what a relation between states has to satisfy for these operations, and
  with them every handler of the program, to respect it.
\<close>

section \<open>Sending\<close>

definition outbound_header :: "('p, 'q, 'b) env \<Rightarrow> session \<Rightarrow> 'q out_msg \<Rightarrow> nanos \<Rightarrow> fix_header" where
  "outbound_header env s value sending_time =
     \<lparr>h_version = FIX_VERSION, h_msg_type = e_msg_type env value,
      h_sender_comp_id = fix_comp_id (e_settings env), h_target_comp_id = s_comp_id s,
      h_msg_seq_num = s_outbound_msg_seq_num s + 1, h_sending_time = sending_time\<rparr>"

text \<open>The number is counted up, then \<open>Connection::send\<close> is called, whatever comes of it.\<close>

definition send_step ::
  "u64 \<Rightarrow> fix_header \<Rightarrow> 'q out_msg \<Rightarrow> bool \<Rightarrow> exn + bool \<Rightarrow> ('p, 'q, 'b) world \<Rightarrow> ('p, 'q, 'b) world" where
  "send_step sid header value runs answer w =
     emit (Sent sid header value runs answer)
       (update_session sid (\<lambda>s. s\<lparr>s_outbound_msg_seq_num := h_msg_seq_num header\<rparr>) w)"

definition send_helper ::
  "('p, 'q, 'b) env \<Rightarrow> u64 \<Rightarrow> 'q out_msg \<Rightarrow> nanos \<Rightarrow> nanos \<Rightarrow> ('p, 'q, 'b) world \<Rightarrow> ('p, 'q, 'b) world outcome" where
  "send_helper env sid value sending_time origin_create_time w =
     with_session sid w (\<lambda>s.
       seq (cassert (e_asserts env) (s_comp_id s \<noteq> []) w) (\<lambda>w.
         let header = outbound_header env s value sending_time;
             runs = fst (e_connection_send env (w_trace w) sid);
             encoded = e_encode env header value;
             answer = (case (runs, encoded) of
                 (True, Inl e) \<Rightarrow> Inl e
               | _ \<Rightarrow> snd (e_connection_send env (w_trace w) sid));
             w = send_step sid header value runs answer w;
             w = (case (runs, encoded) of
                 (True, Inr message) \<Rightarrow> fix_log env OUT sid message w
               | _ \<Rightarrow> w)
         in case answer of
              Inl e \<Rightarrow> Thrown e w
            | Inr _ \<Rightarrow>
                Normal (if origin_create_time = 0 then w
                  else emit (Latency (e_system_time env (w_trace w) - origin_create_time)) w)))"

definition send ::
  "('p, 'q, 'b) env \<Rightarrow> u64 \<Rightarrow> 'q out_msg \<Rightarrow> ('p, 'q, 'b) world \<Rightarrow> ('p, 'q, 'b) world outcome" where
  "send env sid value w = send_helper env sid value (e_realtime env (w_trace w)) 0 w"

definition send_with_info ::
  "('p, 'q, 'b) env \<Rightarrow> u64 \<Rightarrow> 'q out_msg \<Rightarrow> nanos \<Rightarrow> ('p, 'q, 'b) world \<Rightarrow> ('p, 'q, 'b) world outcome" where
  "send_with_info env sid value origin_create_time w =
     send_helper env sid value (e_realtime env (w_trace w)) origin_create_time w"

definition send_maybe_override_sending_time ::
  "('p, 'q, 'b) env \<Rightarrow> u64 \<Rightarrow> 'q out_msg \<Rightarrow> nanos \<Rightarrow> ('p, 'q, 'b) world \<Rightarrow> ('p, 'q, 'b) world outcome" where
  "send_maybe_override_sending_time env sid value exchange_time_utc w =
     (if exchange_time_utc \<noteq> 0 \<and> exchange_time_as_sending_time (e_settings env)
      then send_helper env sid value exchange_time_utc 0 w
      else send env sid value w)"

definition send_maybe_override_with_info ::
  "('p, 'q, 'b) env \<Rightarrow> u64 \<Rightarrow> 'q out_msg \<Rightarrow> nanos \<Rightarrow> nanos \<Rightarrow> ('p, 'q, 'b) world \<Rightarrow> ('p, 'q, 'b) world outcome" where
  "send_maybe_override_with_info env sid value origin_create_time exchange_time_utc w =
     (if exchange_time_utc \<noteq> 0 \<and> exchange_time_as_sending_time (e_settings env)
      then send_helper env sid value exchange_time_utc origin_create_time w
      else send_with_info env sid value origin_create_time w)"

section \<open>Becoming a zombie\<close>

text \<open>\<open>Shared::session_logout\<close> only notes the end of the session.\<close>

definition session_logout_note :: "u64 \<Rightarrow> ('p, 'q, 'b) world \<Rightarrow> ('p, 'q, 'b) world" where
  [simp]: "session_logout_note sid w = emit (Session_logout sid) w"

text \<open>\<open>SessionManager::operator()(Session::Disconnect const &)\<close>.\<close>

definition on_session_disconnect :: "u64 \<Rightarrow> ('p, 'q, 'b) world \<Rightarrow> ('p, 'q, 'b) world" where
  "on_session_disconnect sid w =
     (let w = session_logout_note sid w
      in w\<lparr>w_zombies := fst (uset_emplace sid (w_zombies w))\<rparr>)"

text \<open>The body of \<open>unsubscribe_all\<close> is commented out.\<close>

definition unsubscribe_all :: "u64 \<Rightarrow> ('p, 'q, 'b) world \<Rightarrow> ('p, 'q, 'b) world" where
  "unsubscribe_all sid w = w"

definition dispatcher_send :: "('p, 'q, 'b) env \<Rightarrow> 'q request \<Rightarrow> ('p, 'q, 'b) world \<Rightarrow> ('p, 'q, 'b) world outcome" where
  "dispatcher_send env req w =
     (let answer = e_dispatcher env (w_trace w) req;
          w = emit (Request req answer) w
      in case answer of None \<Rightarrow> Normal w | Some e \<Rightarrow> Thrown e w)"

definition cancel_all_orders_at ::
  "('p, 'q, 'b) env \<Rightarrow> string \<Rightarrow> u8 \<times> string \<times> bool \<Rightarrow> ('p, 'q, 'b) world \<Rightarrow> ('p, 'q, 'b) world outcome" where
  "cancel_all_orders_at env acct = (\<lambda>(source_id, source_name, ready) w.
     if ready then
       then_do (dispatcher_send env
           (Send_cancel_all \<lparr>ca_account = acct, ca_order_id = 0, ca_exchange = [], ca_symbol = [],
              ca_strategy_id = 0, ca_side = SIDE_UNDEFINED\<rparr> source_id) w)
         Normal (\<lambda>e w. if e = Not_connected then Normal w else Thrown e w)
     else Normal w)"

definition cancel_all_orders :: "('p, 'q, 'b) env \<Rightarrow> u64 \<Rightarrow> ('p, 'q, 'b) world \<Rightarrow> ('p, 'q, 'b) world outcome" where
  "cancel_all_orders env sid w =
     with_session sid w (\<lambda>s.
       if s_account s = [] then Normal w
       else for_each (cancel_all_orders_at env (s_account s)) (fst (get_sources (w_shared w))) w)"

definition make_zombie :: "('p, 'q, 'b) env \<Rightarrow> u64 \<Rightarrow> ('p, 'q, 'b) world \<Rightarrow> ('p, 'q, 'b) world outcome" where
  "make_zombie env sid w =
     with_session sid w (\<lambda>s.
       seq (if s_state s = READY then
              let w = unsubscribe_all sid w
              in seq (if cancel_on_disconnect (e_settings env) then cancel_all_orders env sid w else Normal w)
                   (\<lambda>w. Normal (update_shared (remove_all_routes sid) w))
            else Normal w) (\<lambda>w.
         with_session sid w (\<lambda>s.
           if s_state s \<noteq> ZOMBIE
           then Normal (on_session_disconnect sid (update_session sid (\<lambda>s. s\<lparr>s_state := ZOMBIE\<rparr>) w))
           else Normal w)))"

definition close :: "('p, 'q, 'b) env \<Rightarrow> u64 \<Rightarrow> ('p, 'q, 'b) world \<Rightarrow> ('p, 'q, 'b) world outcome" where
  "close env sid w =
     with_session sid w (\<lambda>s.
       if s_state s \<noteq> ZOMBIE then make_zombie env sid (emit (Connection_close sid) w) else Normal w)"

definition send_and_close ::
  "('p, 'q, 'b) env \<Rightarrow> u64 \<Rightarrow> 'q out_msg \<Rightarrow> ('p, 'q, 'b) world \<Rightarrow> ('p, 'q, 'b) world outcome" where
  "send_and_close env sid value w =
     with_session sid w (\<lambda>s.
       seq (cassert (e_asserts env) (s_state s \<noteq> ZOMBIE) w) (\<lambda>w.
         seq (send_helper env sid value (e_realtime env (w_trace w)) 0 w) (close env sid)))"

definition logout :: "('p, 'q, 'b) env \<Rightarrow> u64 \<Rightarrow> codec_error \<Rightarrow> ('p, 'q, 'b) world \<Rightarrow> ('p, 'q, 'b) world outcome" where
  "logout env sid error w = send_and_close env sid (Logout_msg (get_text error)) w"

text \<open>The handlers of what the bridge library sends, one per kind of message, and of its request to disconnect.\<close>

definition session_outbound ::
  "('p, 'q, 'b) env \<Rightarrow> out_codec \<Rightarrow> 'q \<Rightarrow> u64 \<Rightarrow> ('p, 'q, 'b) world \<Rightarrow> ('p, 'q, 'b) world outcome" where
  "session_outbound env codec value sid w = send env sid (Bridge_msg codec value) w"

definition on_bridge_disconnect :: "('p, 'q, 'b) env \<Rightarrow> u64 \<Rightarrow> ('p, 'q, 'b) world \<Rightarrow> ('p, 'q, 'b) world outcome" where
  "on_bridge_disconnect env sid w = close env sid w"

section \<open>What every operation keeps\<close>

text \<open>
  No assignment in the sources makes a session \<open>READY\<close>, so no session ever is; \<open>calm\<close> says so
  of a state, and is an invariant. The other thing operations of a session never change is which
  sessions exist.
\<close>

definition calm :: "('p, 'q, 'b) world \<Rightarrow> bool" where
  "calm w \<longleftrightarrow> (\<forall>sid s. find_session sid w = Some s \<longrightarrow> s_state s \<noteq> READY)"

definition session_ids :: "('p, 'q, 'b) world \<Rightarrow> u64 list" where
  "session_ids w = map fst (w_sessions w)"

lemma live_iff: "sid \<in> set (session_ids w) \<longleftrightarrow> (\<exists>s. find_session sid w = Some s)"
  using map_of_eq_None_iff [of "w_sessions w" sid]
  by (cases "map_of (w_sessions w) sid") (simp_all add: session_ids_def find_session_def del: map_of_eq_None_iff)

text \<open>
  The faults that are possible at all: a failed assertion where assertions are compiled in, the
  call of \<open>terminate\<close> for an exception of unknown type, and whatever the libraries cause when they
  are not used safely: a reader that returns more bytes than it was given, or the timestamped
  authentication method, whose arithmetic may overflow.
\<close>

definition safe_libraries :: "('p, 'q, 'b) env \<Rightarrow> bool" where
  "safe_libraries env \<longleftrightarrow>
     (\<forall>buf calls n. e_reader env buf = (calls, Inr n) \<longrightarrow> n \<le> length buf) \<and>
     c_method (e_crypto env) \<noteq> HMAC_SHA256_TS"

definition fault_allowed :: "('p, 'q, 'b) env \<Rightarrow> fault \<Rightarrow> bool" where
  "fault_allowed env x \<longleftrightarrow> x = Assertion_failed \<and> e_asserts env \<or> x = Terminated \<or> \<not> safe_libraries env"

definition kept :: "(('p, 'q, 'b) world \<Rightarrow> ('p, 'q, 'b) world \<Rightarrow> bool) \<Rightarrow> ('p, 'q, 'b) world \<Rightarrow> ('p, 'q, 'b) world \<Rightarrow> bool" where
  "kept R w w' \<longleftrightarrow> calm w' \<and> session_ids w' = session_ids w \<and> R w w'"

fun preserves ::
  "('p, 'q, 'b) env \<Rightarrow> (('p, 'q, 'b) world \<Rightarrow> ('p, 'q, 'b) world \<Rightarrow> bool) \<Rightarrow>
   ('p, 'q, 'b) world \<Rightarrow> ('p, 'q, 'b) world outcome \<Rightarrow> bool" where
  "preserves env R w (Normal w') \<longleftrightarrow> kept R w w'"
| "preserves env R w (Thrown e w') \<longleftrightarrow> kept R w w'"
| "preserves env R w (Aborted x) \<longleftrightarrow> fault_allowed env x"

lemma fault_allowed_assert [simp]: "e_asserts env \<Longrightarrow> fault_allowed env Assertion_failed"
  by (simp add: fault_allowed_def)

lemma fault_allowed_Terminated [simp]: "fault_allowed env Terminated"
  by (simp add: fault_allowed_def)

lemma calm_emit [simp]: "calm (emit e w) = calm w"
  by (simp add: calm_def)

lemma calm_update_shared [simp]: "calm (update_shared f w) = calm w"
  by (simp add: calm_def)

lemma calm_bridge [simp]: "calm (w\<lparr>w_bridge := b\<rparr>) = calm w"
  by (simp add: calm_def find_session_def)

lemma calm_zombies [simp]: "calm (w\<lparr>w_zombies := z\<rparr>) = calm w"
  by (simp add: calm_def find_session_def)

lemma calm_update_session:
  "calm w \<Longrightarrow> (\<And>s. find_session sid w = Some s \<Longrightarrow> s_state (f s) \<noteq> READY) \<Longrightarrow> calm (update_session sid f w)"
  by (auto simp: calm_def find_update_session split: if_splits)

lemma session_ids_simps [simp]:
  "session_ids (emit e w) = session_ids w"
  "session_ids (update_session sid f w) = session_ids w"
  "session_ids (update_shared g w) = session_ids w"
  "session_ids (w\<lparr>w_bridge := b\<rparr>) = session_ids w"
  "session_ids (w\<lparr>w_zombies := z\<rparr>) = session_ids w"
  by (simp_all add: session_ids_def)

lemma find_session_fields [simp]:
  "find_session sid (w\<lparr>w_bridge := b\<rparr>) = find_session sid w"
  "find_session sid (w\<lparr>w_zombies := z\<rparr>) = find_session sid w"
  "find_session sid (w\<lparr>w_next_cleanup := t\<rparr>) = find_session sid w"
  "find_session sid (w\<lparr>w_next_session_id := n\<rparr>) = find_session sid w"
  by (simp_all add: find_session_def)

section \<open>The interface of a respected relation\<close>

text \<open>
  The effects other than sending, connecting and retiring a session, and other than the
  cancellation of a session's orders, which no calm session asks for.
\<close>

fun plain :: "('p, 'q) effect \<Rightarrow> bool" where
  "plain (Sent _ _ _ _ _) \<longleftrightarrow> False"
| "plain (Connection_close _) \<longleftrightarrow> False"
| "plain (Session_connected _) \<longleftrightarrow> False"
| "plain (Session_logout _) \<longleftrightarrow> False"
| "plain (Request (Send_cancel_all _ _) _) \<longleftrightarrow> False"
| "plain _ \<longleftrightarrow> True"

text \<open>
  Two kinds of steps only occur while client input is handled, and are kept apart: telling the
  bridge library something, and answering a user request.
\<close>

fun user_reply :: "'q out_msg \<Rightarrow> bool" where
  "user_reply (User_response_msg _ _ _ _) \<longleftrightarrow> True"
| "user_reply _ \<longleftrightarrow> False"

fun tells :: "('p, 'q) effect \<Rightarrow> bool" where
  "tells (To_bridge _) \<longleftrightarrow> True"
| "tells _ \<longleftrightarrow> False"

definition retire :: "u64 \<Rightarrow> ('p, 'q, 'b) world \<Rightarrow> ('p, 'q, 'b) world" where
  "retire sid w = on_session_disconnect sid (update_session sid (\<lambda>s. s\<lparr>s_state := ZOMBIE\<rparr>) w)"

text \<open>
  A reflexive, transitive relation respected by the elementary steps: an effect, a send, a
  session that becomes a zombie on its own or by closing its connection, and a change of the
  bridge library's state. Every operation that the bridge library can cause respects it then,
  and with it a run of that library.
\<close>

locale session_contract =
  fixes env :: "('p, 'q, 'b) env"
    and R :: "('p, 'q, 'b) world \<Rightarrow> ('p, 'q, 'b) world \<Rightarrow> bool"
  assumes rel_refl: "R w w"
    and rel_trans: "R u v \<Longrightarrow> R v w \<Longrightarrow> R u w"
    and rel_emit: "plain e \<Longrightarrow> \<not> tells e \<Longrightarrow> R w (emit e w)"
    and rel_send: "find_session sid w = Some s \<Longrightarrow> \<not> user_reply value \<Longrightarrow>
      R w (send_step sid (outbound_header env s value t) value runs answer w)"
    and rel_retire: "find_session sid w = Some s \<Longrightarrow> s_state s = WAITING_LOGON \<Longrightarrow> R w (retire sid w)"
    and rel_close: "find_session sid w = Some s \<Longrightarrow> s_state s = WAITING_LOGON \<Longrightarrow>
      R w (retire sid (emit (Connection_close sid) w))"
    and rel_bridge: "R w (w\<lparr>w_bridge := b\<rparr>)"
begin

lemma kept_refl: "calm w \<Longrightarrow> kept R w w"
  by (simp add: kept_def rel_refl)

lemma kept_trans: "kept R u v \<Longrightarrow> kept R v w \<Longrightarrow> kept R u w"
  by (auto simp: kept_def intro: rel_trans)

lemma preserves_trans: "kept R u v \<Longrightarrow> preserves env R v r \<Longrightarrow> preserves env R u r"
  by (cases r) (auto intro: kept_trans)

lemma preserves_then_do:
  assumes "preserves env R w r"
    and "\<And>v. calm v \<Longrightarrow> session_ids v = session_ids w \<Longrightarrow> preserves env R v (f v)"
    and "\<And>e v. calm v \<Longrightarrow> session_ids v = session_ids w \<Longrightarrow> preserves env R v (h e v)"
  shows "preserves env R w (then_do r f h)"
  using assms by (cases r) (auto intro: preserves_trans simp: kept_def)

lemma preserves_seq:
  assumes "preserves env R w r"
    and "\<And>v. calm v \<Longrightarrow> session_ids v = session_ids w \<Longrightarrow> preserves env R v (f v)"
  shows "preserves env R w (seq r f)"
  using assms by (cases r) (auto intro: preserves_trans simp: kept_def)

lemma preserves_for_each:
  assumes "calm w"
    and "\<And>x v. x \<in> set xs \<Longrightarrow> calm v \<Longrightarrow> session_ids v = session_ids w \<Longrightarrow> preserves env R v (f x v)"
  shows "preserves env R w (for_each f xs w)"
  using assms
proof (induction xs arbitrary: w)
  case (Cons x xs)
  show ?case
    unfolding for_each.simps
    by (rule preserves_seq) (auto intro!: Cons.IH Cons.prems)
qed (simp add: kept_refl)

lemma preserves_cassert:
  "calm w \<Longrightarrow> preserves env R w (cassert (e_asserts env) c w)"
  by (simp add: cassert_def kept_refl)

lemma preserves_with_session:
  assumes "sid \<in> set (session_ids w)"
    and "\<And>s. find_session sid w = Some s \<Longrightarrow> preserves env R w (f s)"
  shows "preserves env R w (with_session sid w f)"
  using assms by (auto simp: live_iff with_session_def)

lemma kept_emit: "plain e \<Longrightarrow> \<not> tells e \<Longrightarrow> calm w \<Longrightarrow> kept R w (emit e w)"
  by (simp add: kept_def rel_emit)

lemma kept_emit_after: "kept R u w \<Longrightarrow> plain e \<Longrightarrow> \<not> tells e \<Longrightarrow> kept R u (emit e w)"
  using kept_trans [of u w "emit e w"] kept_emit [of e w] by (simp add: kept_def)

lemma kept_bridge: "calm w \<Longrightarrow> kept R w (w\<lparr>w_bridge := b\<rparr>)"
  by (simp add: kept_def rel_bridge)

lemma kept_fix_log: "kept R u w \<Longrightarrow> kept R u (fix_log env dir sid message w)"
  by (simp add: fix_log_def Let_def kept_emit_after)

end

section \<open>The operations respect the contract\<close>

lemma calm_send_step [simp]: "calm w \<Longrightarrow> calm (send_step sid header value runs answer w)"
  by (auto simp: send_step_def calm_def find_update_session split: if_splits)

lemma session_ids_send_step [simp]: "session_ids (send_step sid header value runs answer w) = session_ids w"
  by (simp add: send_step_def)

lemma calm_retire: "calm w \<Longrightarrow> calm (retire sid w)"
  by (simp add: retire_def on_session_disconnect_def Let_def calm_update_session)

lemma session_ids_retire [simp]: "session_ids (retire sid w) = session_ids w"
  by (simp add: retire_def on_session_disconnect_def Let_def)

text \<open>A calm session has nothing to cancel, so it is retired at once, or it is a zombie already.\<close>

lemma make_zombie_calm:
  "calm w \<Longrightarrow> find_session sid w = Some s \<Longrightarrow>
   make_zombie env sid w = Normal (if s_state s = ZOMBIE then w else retire sid w)"
  by (auto simp: make_zombie_def with_session_def calm_def retire_def)

lemma close_calm:
  "calm w \<Longrightarrow> find_session sid w = Some s \<Longrightarrow>
   close env sid w = Normal (if s_state s = ZOMBIE then w else retire sid (emit (Connection_close sid) w))"
  by (simp add: close_def with_session_def make_zombie_calm)

lemma calm_waiting:
  "calm w \<Longrightarrow> find_session sid w = Some s \<Longrightarrow> s_state s \<noteq> ZOMBIE \<Longrightarrow> s_state s = WAITING_LOGON"
  by (cases "s_state s") (auto simp: calm_def)

context session_contract
begin

lemma kept_send:
  "calm w \<Longrightarrow> find_session sid w = Some s \<Longrightarrow> \<not> user_reply value \<Longrightarrow>
   kept R w (send_step sid (outbound_header env s value t) value runs answer w)"
  by (simp add: kept_def rel_send)

text \<open>Sending after a change: it is enough that the change and the step of sending are respected together.\<close>

lemma preserves_send_helper_after:
  assumes "find_session sid v = Some s"
    and "\<And>runs answer. kept R w (send_step sid (outbound_header env s value t) value runs answer v)"
  shows "preserves env R w (send_helper env sid value t origin v)"
  using assms
  by (auto simp: send_helper_def with_session_def cassert_def Let_def kept_fix_log kept_emit_after
      split: sum.splits bool.splits)

lemma preserves_send_after:
  assumes "find_session sid v = Some s"
    and "\<And>t runs answer. kept R w (send_step sid (outbound_header env s value t) value runs answer v)"
  shows "preserves env R w (send env sid value v)"
  unfolding send_def by (rule preserves_send_helper_after [OF assms])

lemma preserves_send_helper:
  assumes "calm w" and "sid \<in> set (session_ids w)" and "\<not> user_reply value"
  shows "preserves env R w (send_helper env sid value t origin w)"
  using assms by (auto simp: live_iff intro!: preserves_send_helper_after kept_send)

lemma preserves_send:
  "calm w \<Longrightarrow> sid \<in> set (session_ids w) \<Longrightarrow> \<not> user_reply value \<Longrightarrow> preserves env R w (send env sid value w)"
  by (simp add: send_def preserves_send_helper)

lemma preserves_session_outbound:
  "calm w \<Longrightarrow> sid \<in> set (session_ids w) \<Longrightarrow> preserves env R w (session_outbound env codec value sid w)"
  by (simp add: session_outbound_def preserves_send)

lemma preserves_make_zombie:
  assumes "calm w" and "sid \<in> set (session_ids w)"
  shows "preserves env R w (make_zombie env sid w)"
proof -
  from assms(2) obtain s where s: "find_session sid w = Some s" by (auto simp: live_iff)
  show ?thesis
    using assms(1) rel_retire [OF s] calm_waiting [OF assms(1) s]
    by (auto simp: make_zombie_calm [OF assms(1) s] kept_refl kept_def rel_refl calm_retire)
qed

lemma preserves_close:
  assumes "calm w" and "sid \<in> set (session_ids w)"
  shows "preserves env R w (close env sid w)"
proof -
  from assms(2) obtain s where s: "find_session sid w = Some s" by (auto simp: live_iff)
  show ?thesis
    using assms(1) rel_close [OF s] calm_waiting [OF assms(1) s]
    by (auto simp: close_calm [OF assms(1) s] kept_def rel_refl calm_retire)
qed

lemma preserves_send_and_close:
  assumes "calm w" and "sid \<in> set (session_ids w)" and "\<not> user_reply value"
  shows "preserves env R w (send_and_close env sid value w)"
  unfolding send_and_close_def
proof (rule preserves_with_session [OF assms(2)])
  fix s
  show "preserves env R w (seq (cassert (e_asserts env) (s_state s \<noteq> ZOMBIE) w) (\<lambda>w.
      seq (send_helper env sid value (e_realtime env (w_trace w)) 0 w) (close env sid)))"
    by (intro preserves_seq preserves_cassert preserves_send_helper preserves_close)
      (simp_all add: assms)
qed

lemma preserves_logout:
  "calm w \<Longrightarrow> sid \<in> set (session_ids w) \<Longrightarrow> preserves env R w (logout env sid error w)"
  by (simp add: logout_def preserves_send_and_close)

lemma preserves_on_bridge_disconnect:
  "calm w \<Longrightarrow> sid \<in> set (session_ids w) \<Longrightarrow> preserves env R w (on_bridge_disconnect env sid w)"
  by (simp add: on_bridge_disconnect_def preserves_close)

lemma preserves_dispatcher_send:
  assumes "calm w" and "\<And>ca source. req \<noteq> Send_cancel_all ca source"
  shows "preserves env R w (dispatcher_send env req w)"
proof -
  have "plain (Request req answer :: ('p, 'q) effect)" for answer
    using assms(2) by (cases req) auto
  then show ?thesis
    by (auto simp: dispatcher_send_def Let_def kept_emit assms(1) split: option.splits)
qed

end

end
