(* ===== verification/Controller_Calls.thy ===== *)
theory Controller_Calls
  imports Session_Ops
begin

text \<open>
  \<open>controller.cpp\<close>, lines 227-381: what the controller does when the bridge library calls it
  (checks of credentials, orders to the gateways, messages to sessions), and the run of a tree
  of such calls.
\<close>

section \<open>Credentials\<close>

text \<open>
  The pair that is returned: an error, undefined when there is none, and the strategy of the
  user. The directory and the authentication are members of the controller that never change.
\<close>

definition check_credentials ::
  "('p, 'q, 'b) env \<Rightarrow> nanos \<Rightarrow> credentials \<Rightarrow> (codec_error \<times> u32) result" where
  "check_credentials env now cr =
     (case umap_find (e_username_to_user env) (cr_username cr) of
        None \<Rightarrow> Inr (INVALID_USERNAME, 0)
      | Some user \<Rightarrow>
          if cr_component cr \<noteq> u_component user then Inr (INVALID_COMPONENT, 0)
          else bind_result (validate (e_crypto_lib env) (e_crypto env) now (cr_password cr)
              (u_password user) (cr_raw_data cr)) (\<lambda>ok.
            if \<not> ok then Inr (INVALID_PASSWORD, 0)
            else Inr (ERROR_UNDEFINED, u_strategy_id user)))"

section \<open>Requests\<close>

definition forward_order :: "('p, 'q, 'b) env \<Rightarrow> 'q order \<Rightarrow> u8 \<Rightarrow> ('p, 'q, 'b) world \<Rightarrow> ('p, 'q, 'b) world outcome" where
  "forward_order env ord source w = dispatcher_send env (Send_order ord source) w"

definition forward_cancel_all_orders ::
  "('p, 'q, 'b) env \<Rightarrow> cancel_all_orders \<Rightarrow> ('p, 'q, 'b) world \<Rightarrow> ('p, 'q, 'b) world outcome" where
  "forward_cancel_all_orders env req w = dispatcher_send env (Broadcast_cancel_all req) w"

section \<open>Messages to sessions\<close>

text \<open>\<open>SessionManager::get_session\<close> calls back if the session exists; the answer is not used.\<close>

definition get_session ::
  "u64 \<Rightarrow> (u64 \<Rightarrow> ('p, 'q, 'b) world \<Rightarrow> ('p, 'q, 'b) world outcome) \<Rightarrow> ('p, 'q, 'b) world \<Rightarrow> ('p, 'q, 'b) world outcome" where
  "get_session sid callback w = (case find_session sid w of None \<Rightarrow> Normal w | Some _ \<Rightarrow> callback sid w)"

definition get_all_sessions ::
  "(u64 \<Rightarrow> ('p, 'q, 'b) world \<Rightarrow> ('p, 'q, 'b) world outcome) \<Rightarrow> ('p, 'q, 'b) world \<Rightarrow> ('p, 'q, 'b) world outcome" where
  "get_all_sessions callback w = for_each callback (session_ids w) w"

definition controller_dispatch ::
  "('p, 'q, 'b) env \<Rightarrow> out_codec \<Rightarrow> 'q \<Rightarrow> u64 \<Rightarrow> ('p, 'q, 'b) world \<Rightarrow> ('p, 'q, 'b) world outcome" where
  "controller_dispatch env codec value sid w = get_session sid (session_outbound env codec value) w"

definition controller_disconnect :: "('p, 'q, 'b) env \<Rightarrow> u64 \<Rightarrow> ('p, 'q, 'b) world \<Rightarrow> ('p, 'q, 'b) world outcome" where
  "controller_disconnect env sid w = get_session sid (on_bridge_disconnect env) w"

text \<open>
  An execution report without a session goes to every session; the two branches on the flag
  \<open>oms_route_by_strategy\<close> that precede the loop hold only comments.
\<close>

definition broadcast_execution_report ::
  "('p, 'q, 'b) env \<Rightarrow> 'q \<Rightarrow> ('p, 'q, 'b) world \<Rightarrow> ('p, 'q, 'b) world outcome" where
  "broadcast_execution_report env value w =
     get_all_sessions (session_outbound env Out_ExecutionReport value) w"

section \<open>Runs of the bridge library\<close>

text \<open>
  One call: what the controller does, and the answer the library goes on with. An exception of
  the controller is handed to the library, which sees it as an answer.
\<close>

definition run_call ::
  "('p, 'q, 'b) env \<Rightarrow> 'q bridge_call \<Rightarrow> (call_result \<Rightarrow> ('p, 'q, 'b) world \<Rightarrow> ('p, 'q, 'b) world outcome) \<Rightarrow>
   ('p, 'q, 'b) world \<Rightarrow> ('p, 'q, 'b) world outcome" where
  "run_call env c k w =
     (let finish = (\<lambda>r. then_do r (k Call_ok) (\<lambda>e. k (Call_threw e)))
      in case c of
           Credentials_call cr \<Rightarrow>
             (case check_credentials env (e_realtime env (w_trace w)) cr of
                Inr (error, strategy_id) \<Rightarrow> k (Credentials_result error strategy_id) w
              | Inl (Exn e) \<Rightarrow> k (Call_threw e) w
              | Inl (Fault x) \<Rightarrow> Aborted x)
         | Order_call ord source \<Rightarrow> finish (forward_order env ord source w)
         | Cancel_all_call req \<Rightarrow> finish (forward_cancel_all_orders env req w)
         | Disconnect_call sid \<Rightarrow> finish (controller_disconnect env sid w)
         | Send_call codec value sid \<Rightarrow> finish (controller_dispatch env codec value sid w)
         | Send_execution_report_call value \<Rightarrow> finish (broadcast_execution_report env value w))"

primrec run_bridge ::
  "('p, 'q, 'b) env \<Rightarrow> ('q, 'b) bridge_run \<Rightarrow> ('p, 'q, 'b) world \<Rightarrow> ('p, 'q, 'b) world outcome" where
  "run_bridge env (Return b) = (\<lambda>w. Normal (w\<lparr>w_bridge := b\<rparr>))"
| "run_bridge env (Throw e b) = (\<lambda>w. Thrown e (w\<lparr>w_bridge := b\<rparr>))"
| "run_bridge env (Call c k) = run_call env c (\<lambda>r. run_bridge env (k r))"

text \<open>Telling the bridge library something: the call is noted, and the library runs.\<close>

definition tell_bridge ::
  "('p, 'q, 'b) env \<Rightarrow> 'p bridge_input \<Rightarrow> ('p, 'q, 'b) world \<Rightarrow> ('p, 'q, 'b) world outcome" where
  "tell_bridge env input w = run_bridge env (e_bridge env input (w_bridge w)) (emit (To_bridge input) w)"

section \<open>Runs respect the contract\<close>

lemma check_credentials_faults:
  assumes "check_credentials env now cr = Inl (Fault x)"
  shows "fault_allowed env x"
proof -
  have "c_method (e_crypto env) = HMAC_SHA256_TS"
    using assms
    by (auto simp: check_credentials_def validate_def split: option.splits if_splits crypto_method.splits)
  then show ?thesis by (simp add: fault_allowed_def safe_libraries_def)
qed

context session_contract
begin

lemma preserves_get_session:
  assumes "calm w" and "\<And>s. find_session sid w = Some s \<Longrightarrow> preserves env R w (callback sid w)"
  shows "preserves env R w (get_session sid callback w)"
  using assms by (auto simp: get_session_def kept_refl split: option.splits)

lemma preserves_controller_dispatch:
  "calm w \<Longrightarrow> preserves env R w (controller_dispatch env codec value sid w)"
  unfolding controller_dispatch_def
  by (intro preserves_get_session preserves_session_outbound) (auto simp: live_iff)

lemma preserves_controller_disconnect:
  "calm w \<Longrightarrow> preserves env R w (controller_disconnect env sid w)"
  unfolding controller_disconnect_def
  by (intro preserves_get_session preserves_on_bridge_disconnect) (auto simp: live_iff)

lemma preserves_broadcast_execution_report:
  "calm w \<Longrightarrow> preserves env R w (broadcast_execution_report env value w)"
  unfolding broadcast_execution_report_def get_all_sessions_def
  by (intro preserves_for_each preserves_session_outbound) auto

lemma preserves_run_call:
  assumes "calm w" and k: "\<And>r v. calm v \<Longrightarrow> preserves env R v (k r v)"
  shows "preserves env R w (run_call env c k w)"
proof -
  have finish: "preserves env R w (then_do r (k Call_ok) (\<lambda>e. k (Call_threw e)))"
    if "preserves env R w r" for r
    by (rule preserves_then_do [OF that]) (simp_all add: k)
  show ?thesis
  proof (cases c)
    case (Credentials_call cr)
    then show ?thesis
      using check_credentials_faults
      by (auto simp: run_call_def Let_def k assms(1) split: sum.splits failure.splits)
  qed (simp_all add: run_call_def Let_def finish assms(1) forward_order_def forward_cancel_all_orders_def
      preserves_dispatcher_send preserves_controller_disconnect preserves_controller_dispatch
      preserves_broadcast_execution_report)
qed

lemma preserves_run_bridge: "calm w \<Longrightarrow> preserves env R w (run_bridge env run w)"
  by (induction run arbitrary: w) (simp_all add: kept_bridge preserves_run_call)

lemma preserves_tell_bridge_if:
  "calm w \<Longrightarrow> R w (emit (To_bridge input) w) \<Longrightarrow> preserves env R w (tell_bridge env input w)"
  unfolding tell_bridge_def
  by (rule preserves_trans [of _ "emit (To_bridge input) w"]) (simp_all add: kept_def preserves_run_bridge)

end

text \<open>
  Every handler outside the library may also tell it something: of a session only while the
  session exists, and of a new connection only when the session is created.
\<close>

fun tellable :: "('p, 'q, 'b) world \<Rightarrow> 'p bridge_input \<Rightarrow> bool" where
  "tellable w (Client_message _ _ _ sid) \<longleftrightarrow> sid \<in> set (session_ids w)"
| "tellable w (Client_user_request _ _ sid) \<longleftrightarrow> sid \<in> set (session_ids w)"
| "tellable w (Bridge_disconnected sid) \<longleftrightarrow> sid \<in> set (session_ids w)"
| "tellable w (Bridge_connected _) \<longleftrightarrow> False"
| "tellable w (Gateway_event _ _) \<longleftrightarrow> True"

locale tell_contract = session_contract +
  assumes rel_tell: "tellable w input \<Longrightarrow> R w (emit (To_bridge input) w)"
begin

lemma preserves_tell_bridge:
  "calm w \<Longrightarrow> tellable w input \<Longrightarrow> preserves env R w (tell_bridge env input w)"
  by (simp add: preserves_tell_bridge_if rel_tell)

end

end
