(* ===== verification/Session_Input.thy ===== *)
theory Session_Input
  imports Controller_Calls
begin

text \<open>
  What a session does with bytes from its client (\<open>session.cpp\<close>, lines 78-465): the loop that
  hands the buffer to the FIX reader, the check of each header, the switch on the message type,
  the decoding, and the handlers of the decoded messages.
\<close>

section \<open>Handlers of decoded messages\<close>

text \<open>\<open>Session::dispatch\<close>, which the handlers of all messages but one consist of.\<close>

definition session_dispatch ::
  "('p, 'q, 'b) env \<Rightarrow> u64 \<Rightarrow> in_codec \<Rightarrow> 'p \<Rightarrow> fix_header \<Rightarrow> ('p, 'q, 'b) world \<Rightarrow> ('p, 'q, 'b) world outcome" where
  "session_dispatch env sid codec value header w = tell_bridge env (Client_message codec value header sid) w"

text \<open>
  The overloads that take the decoded messages of the session and of market data, those that take
  orders and the like, and the choice between them, which the compiler makes by the type.
\<close>

definition on_session_message ::
  "('p, 'q, 'b) env \<Rightarrow> u64 \<Rightarrow> in_codec \<Rightarrow> 'p \<Rightarrow> fix_header \<Rightarrow> ('p, 'q, 'b) world \<Rightarrow> ('p, 'q, 'b) world outcome" where
  "on_session_message env sid codec value header w = session_dispatch env sid codec value header w"

definition on_order_message ::
  "('p, 'q, 'b) env \<Rightarrow> u64 \<Rightarrow> in_codec \<Rightarrow> 'p \<Rightarrow> fix_header \<Rightarrow> ('p, 'q, 'b) world \<Rightarrow> ('p, 'q, 'b) world outcome" where
  "on_order_message env sid codec value header w = session_dispatch env sid codec value header w"

definition order_codec :: "in_codec \<Rightarrow> bool" where
  "order_codec codec \<longleftrightarrow> codec \<in> {In_OrderStatusRequest, In_OrderMassStatusRequest, In_NewOrderSingle,
     In_OrderCancelRequest, In_OrderCancelReplaceRequest, In_OrderMassCancelRequest,
     In_TradeCaptureReportRequest, In_RequestForPositions, In_MassQuote, In_QuoteCancel}"

definition on_message ::
  "('p, 'q, 'b) env \<Rightarrow> u64 \<Rightarrow> in_codec \<Rightarrow> 'p \<Rightarrow> fix_header \<Rightarrow> ('p, 'q, 'b) world \<Rightarrow> ('p, 'q, 'b) world outcome" where
  "on_message env sid codec value header w =
     (if order_codec codec then on_order_message env sid codec value header w
      else on_session_message env sid codec value header w)"

lemma on_message_tells [simp]:
  "on_message env sid codec decoded header w = tell_bridge env (Client_message codec decoded header sid) w"
  by (simp add: on_message_def on_order_message_def on_session_message_def session_dispatch_def)

definition user_response :: "user_request \<Rightarrow> user_status \<Rightarrow> string \<Rightarrow> 'q out_msg" where
  "user_response ur status status_text =
     User_response_msg (ur_user_request_id ur) (ur_username ur) status status_text"

definition on_user_request ::
  "('p, 'q, 'b) env \<Rightarrow> u64 \<Rightarrow> user_request \<Rightarrow> fix_header \<Rightarrow> ('p, 'q, 'b) world \<Rightarrow> ('p, 'q, 'b) world outcome" where
  "on_user_request env sid ur header w =
     seq (tell_bridge env (Client_user_request ur header sid) w) (\<lambda>w.
       case e_strategy_id env (ur_username ur) of
         Inl e \<Rightarrow> Thrown e w
       | Inr strategy_id \<Rightarrow>
           (case ur_user_request_type ur of
              CHANGE_PASSWORD_FOR_USER \<Rightarrow>
                send env sid (user_response ur OTHER_USER_STATUS (get_text UNSUPPORTED_USER_REQUEST_TYPE)) w
            | REQUEST_INDIVIDUAL_USER_STATUS \<Rightarrow>
                send env sid (user_response ur OTHER_USER_STATUS (get_text UNSUPPORTED_USER_REQUEST_TYPE)) w
            | LOG_OFF_USER \<Rightarrow>
                (let success = snd (remove_route sid strategy_id (w_shared w));
                     w = update_shared (\<lambda>sh. fst (remove_route sid strategy_id sh)) w
                 in send env sid (user_response ur (if success then NOT_LOGGED_IN else OTHER_USER_STATUS) []) w)
            | _ \<Rightarrow>
                (let success = snd (add_route sid strategy_id (w_shared w));
                     w = update_shared (\<lambda>sh. fst (add_route sid strategy_id sh)) w
                 in send env sid (user_response ur (if success then LOGGED_IN else OTHER_USER_STATUS) []) w)))"

text \<open>What a request does to the shared state, and the status and text of the answer.\<close>

definition request_route :: "u64 \<Rightarrow> u32 \<Rightarrow> user_request_type \<Rightarrow> shared \<Rightarrow> shared \<times> user_status \<times> string" where
  "request_route sid k t sh =
     (if t \<in> {UR_UNDEFINED, UR_UNKNOWN, LOG_ON_USER} then
        (fst (add_route sid k sh), if snd (add_route sid k sh) then LOGGED_IN else OTHER_USER_STATUS, [])
      else if t = LOG_OFF_USER then
        (fst (remove_route sid k sh), if snd (remove_route sid k sh) then NOT_LOGGED_IN else OTHER_USER_STATUS, [])
      else (sh, OTHER_USER_STATUS, get_text UNSUPPORTED_USER_REQUEST_TYPE))"

lemma on_user_request_split:
  "on_user_request env sid ur header w =
     seq (tell_bridge env (Client_user_request ur header sid) w) (\<lambda>w.
       case e_strategy_id env (ur_username ur) of
         Inl e \<Rightarrow> Thrown e w
       | Inr k \<Rightarrow>
           (case request_route sid k (ur_user_request_type ur) (w_shared w) of
              (sh, status, status_text) \<Rightarrow>
                send env sid (user_response ur status status_text) (update_shared (\<lambda>_. sh) w)))"
  unfolding on_user_request_def
  by (rule arg_cong [where f = "seq _"])
    (auto simp: request_route_def update_shared_def fun_eq_iff split: sum.splits user_request_type.splits)

text \<open>
  What a user request means on the abstract route table: the new table and what is answered.
\<close>

definition user_request_spec ::
  "user_request_type \<Rightarrow> u64 \<Rightarrow> u32 \<Rightarrow> (u32 \<rightharpoonup> u64) \<Rightarrow> (u32 \<rightharpoonup> u64) \<times> user_status \<times> string" where
  "user_request_spec t sid k table =
     (if t \<in> {UR_UNDEFINED, UR_UNKNOWN, LOG_ON_USER} then
        (case route_spec (Add_route sid k) table of
           (table, ok) \<Rightarrow> (table, if ok then LOGGED_IN else OTHER_USER_STATUS, []))
      else if t = LOG_OFF_USER then
        (case route_spec (Remove_route sid k) table of
           (table, ok) \<Rightarrow> (table, if ok then NOT_LOGGED_IN else OTHER_USER_STATUS, []))
      else (table, OTHER_USER_STATUS, ''UNSUPPORTED_USER_REQUEST_TYPE''))"

lemma request_route_spec:
  "request_route sid k t sh = (sh', status, status_text) \<Longrightarrow>
   user_request_spec t sid k (route_owner sh) = (route_owner sh', status, status_text)"
  by (auto simp: request_route_def user_request_spec_def add_route_owner remove_route_owner get_text_def
      split: if_splits)

lemma request_route_wf: "request_route sid k t sh = (sh', r) \<Longrightarrow> routes_wf sh \<Longrightarrow> routes_wf sh'"
  by (auto simp: request_route_def add_route_wf remove_route_wf split: if_splits)

section \<open>Checking and parsing a message\<close>

definition session_check :: "('p, 'q, 'b) env \<Rightarrow> u64 \<Rightarrow> fix_header \<Rightarrow> ('p, 'q, 'b) world \<Rightarrow> ('p, 'q, 'b) world outcome" where
  "session_check env sid header w =
     with_session sid w (\<lambda>s.
       case check_header (e_asserts env) header s of
         (Normal s', verdict) \<Rightarrow> Normal (emit (Header_checked sid verdict) (update_session sid (\<lambda>_. s') w))
       | (Thrown e s', _) \<Rightarrow> Thrown e (update_session sid (\<lambda>_. s') w)
       | (Aborted x, _) \<Rightarrow> Aborted x)"

text \<open>The decoder of each case of the switch; user requests and the default have none here.\<close>

fun codec_of :: "msg_type \<Rightarrow> in_codec option" where
  "codec_of LOGON = Some In_Logon"
| "codec_of LOGOUT = Some In_Logout"
| "codec_of TEST_REQUEST = Some In_TestRequest"
| "codec_of RESEND_REQUEST = Some In_ResendRequest"
| "codec_of REJECT = Some In_Reject"
| "codec_of HEARTBEAT = Some In_Heartbeat"
| "codec_of TRADING_SESSION_STATUS_REQUEST = Some In_TradingSessionStatusRequest"
| "codec_of SECURITY_LIST_REQUEST = Some In_SecurityListRequest"
| "codec_of SECURITY_DEFINITION_REQUEST = Some In_SecurityDefinitionRequest"
| "codec_of SECURITY_STATUS_REQUEST = Some In_SecurityStatusRequest"
| "codec_of MARKET_DATA_REQUEST = Some In_MarketDataRequest"
| "codec_of ORDER_STATUS_REQUEST = Some In_OrderStatusRequest"
| "codec_of ORDER_MASS_STATUS_REQUEST = Some In_OrderMassStatusRequest"
| "codec_of NEW_ORDER_SINGLE = Some In_NewOrderSingle"
| "codec_of ORDER_CANCEL_REQUEST = Some In_OrderCancelRequest"
| "codec_of ORDER_CANCEL_REPLACE_REQUEST = Some In_OrderCancelReplaceRequest"
| "codec_of ORDER_MASS_CANCEL_REQUEST = Some In_OrderMassCancelRequest"
| "codec_of TRADE_CAPTURE_REPORT_REQUEST = Some In_TradeCaptureReportRequest"
| "codec_of REQUEST_FOR_POSITIONS = Some In_RequestForPositions"
| "codec_of MASS_QUOTE = Some In_MassQuote"
| "codec_of QUOTE_CANCEL = Some In_QuoteCancel"
| "codec_of USER_REQUEST = None"
| "codec_of (OTHER_MSG_TYPE n) = None"

definition business_message_reject :: "fix_header \<Rightarrow> 'q out_msg" where
  "business_message_reject header =
     Business_message_reject_msg (h_msg_seq_num header) (h_msg_type header) []
       UNSUPPORTED_MESSAGE_TYPE (get_text UNEXPECTED_MSG_TYPE)"

lemma user_reply_simps [simp]:
  "\<not> user_reply (business_message_reject header)"
  "user_reply (user_response ur status status_text)"
  by (simp_all add: business_message_reject_def user_response_def)

definition parse_helper :: "('p, 'q, 'b) env \<Rightarrow> u64 \<Rightarrow> fix_message \<Rightarrow> ('p, 'q, 'b) world \<Rightarrow> ('p, 'q, 'b) world outcome" where
  "parse_helper env sid message w =
     (let header = fm_header message
      in case codec_of (h_msg_type header) of
           Some codec \<Rightarrow>
             (case e_decode env codec message of
                Inl e \<Rightarrow> Thrown e w
              | Inr value \<Rightarrow> on_message env sid codec value header w)
         | None \<Rightarrow>
             if h_msg_type header = USER_REQUEST then
               (case e_decode_user_request env message of
                  Inl e \<Rightarrow> Thrown e w
                | Inr ur \<Rightarrow> on_user_request env sid ur header w)
             else send env sid (business_message_reject header)
               (emit (Unexpected_msg_type sid (h_msg_type header)) w))"

section \<open>The read loop\<close>

text \<open>The two callbacks given to the reader, and their calls during one \<open>Reader::dispatch\<close>.\<close>

fun reader_callback :: "('p, 'q, 'b) env \<Rightarrow> u64 \<Rightarrow> reader_call \<Rightarrow> ('p, 'q, 'b) world \<Rightarrow> ('p, 'q, 'b) world outcome" where
  "reader_callback env sid (Logger_call message) w = Normal (fix_log env IN sid message w)"
| "reader_callback env sid (Parser_call message) w =
     seq (session_check env sid (fm_header message) w) (parse_helper env sid message)"

definition reader_dispatch :: "('p, 'q, 'b) env \<Rightarrow> u64 \<Rightarrow> bytes \<Rightarrow> ('p, 'q, 'b) world \<Rightarrow> ('p, 'q, 'b) world outcome" where
  "reader_dispatch env sid buffer w =
     seq (for_each (reader_callback env sid) (fst (e_reader env buffer)) w) (\<lambda>w.
       case snd (e_reader env buffer) of Inl e \<Rightarrow> Thrown e w | Inr _ \<Rightarrow> Normal w)"

text \<open>
  The loop carries the rest of the buffer and the number of bytes consumed so far, next to the
  state. Its result is the state and that number. Taking a part of a span that is shorter than
  what is cut off is undefined behaviour.
\<close>

definition bytes_of :: "exn + nat \<Rightarrow> nat" where
  "bytes_of r = (case r of Inl _ \<Rightarrow> 0 | Inr n \<Rightarrow> n)"

definition is_zombie :: "u64 \<Rightarrow> ('p, 'q, 'b) world \<Rightarrow> bool" where
  "is_zombie sid w \<longleftrightarrow> map_option s_state (find_session sid w) = Some ZOMBIE"

function (sequential) read_loop ::
  "('p, 'q, 'b) env \<Rightarrow> u64 \<Rightarrow> bytes \<Rightarrow> nat \<Rightarrow> ('p, 'q, 'b) world \<Rightarrow> (('p, 'q, 'b) world \<times> nat) outcome" where
  "read_loop env sid buffer total_bytes w =
     (if buffer = [] then Normal (w, total_bytes)
      else case reader_dispatch env sid buffer w of
          Thrown e w \<Rightarrow> Thrown e (w, total_bytes)
        | Aborted x \<Rightarrow> Aborted x
        | Normal w \<Rightarrow>
            (let n = bytes_of (snd (e_reader env buffer))
             in if n = 0 then Normal (w, total_bytes)
                else if n > length buffer then
                  Aborted (if e_asserts env then Assertion_failed else Undefined_behaviour)
                else if is_zombie sid w then Normal (w, total_bytes + n)
                else read_loop env sid (drop n buffer) (total_bytes + n) w))"
  by pat_completeness auto
termination
  by (relation "measure (\<lambda>(env, sid, buffer, total_bytes, w). length buffer)") auto

declare read_loop.simps [simp del]

text \<open>\<open>Session::operator()(Connection::Read const &)\<close>, with the bytes the connection holds.\<close>

definition on_read :: "('p, 'q, 'b) env \<Rightarrow> u64 \<Rightarrow> bytes \<Rightarrow> ('p, 'q, 'b) world \<Rightarrow> ('p, 'q, 'b) world outcome" where
  "on_read env sid data w =
     with_session sid w (\<lambda>s.
       if s_state s = ZOMBIE then Normal w
       else
         let buffer = s_buffer s @ data;
             w = update_session sid (\<lambda>s. s\<lparr>s_buffer := buffer\<rparr>) w
         in case read_loop env sid buffer 0 w of
              Normal (w, total_bytes) \<Rightarrow> Normal (update_session sid (\<lambda>s. s\<lparr>s_buffer := drop total_bytes (s_buffer s)\<rparr>) w)
            | Thrown e (w, total_bytes) \<Rightarrow> if e = Foreign_exception then Aborted Terminated else close env sid w
            | Aborted x \<Rightarrow> Aborted x)"

text \<open>\<open>Session::operator()(Connection::Disconnected const &)\<close>.\<close>

definition on_connection_lost :: "('p, 'q, 'b) env \<Rightarrow> u64 \<Rightarrow> ('p, 'q, 'b) world \<Rightarrow> ('p, 'q, 'b) world outcome" where
  "on_connection_lost env sid w =
     seq (make_zombie env sid w) (tell_bridge env (Bridge_disconnected sid))"

section \<open>Input respects the contract\<close>

text \<open>
  Parsing changes a session in ways that never touch its identity, its state, its buffer and its
  outbound number, and that leave a counterparty once known as it is.
\<close>

definition edit_of :: "session \<Rightarrow> session \<Rightarrow> bool" where
  "edit_of s s' \<longleftrightarrow> s_session_id s' = s_session_id s \<and> s_name s' = s_name s \<and> s_state s' = s_state s \<and>
     s_buffer s' = s_buffer s \<and>
     s_outbound_msg_seq_num s' = s_outbound_msg_seq_num s \<and> (s_comp_id s = [] \<or> s_comp_id s' = s_comp_id s)"

lemma edit_of_check:
  "check_header asserts header s = (Normal s', verdict) \<Longrightarrow> edit_of s s'"
  by (auto simp: check_header_def check_comp_id_def cassert_def edit_of_def split: if_splits)

lemma check_header_cases:
  "fst (check_header asserts header s) = Aborted Assertion_failed \<and> asserts \<or>
   (\<exists>s'. fst (check_header asserts header s) = Normal s')"
  by (auto simp: check_header_def check_comp_id_def cassert_def)

locale parse_contract = tell_contract +
  assumes rel_edit: "find_session sid w = Some s \<Longrightarrow> edit_of s (f s) \<Longrightarrow> R w (update_session sid f w)"
    and rel_answer: "find_session sid w = Some s \<Longrightarrow> e_strategy_id env (ur_username ur) = Inr k \<Longrightarrow>
      request_route sid k (ur_user_request_type ur) (w_shared w) = (sh, status, status_text) \<Longrightarrow>
      R w (send_step sid (outbound_header env s (user_response ur status status_text) t)
        (user_response ur status status_text) runs answer (update_shared (\<lambda>_. sh) w))"
begin

lemma kept_edit:
  assumes "calm w" and "find_session sid w = Some s" and "edit_of s (f s)"
  shows "kept R w (update_session sid f w)"
  using assms rel_edit [where f = f and sid = sid and w = w]
  by (auto simp: kept_def calm_def edit_of_def find_update_session split: if_splits)

lemma preserves_session_check:
  assumes "calm w" and "sid \<in> set (session_ids w)"
  shows "preserves env R w (session_check env sid header w)"
proof -
  from assms(2) obtain s where s: "find_session sid w = Some s" by (auto simp: live_iff)
  obtain r verdict where r: "check_header (e_asserts env) header s = (r, verdict)"
    by (cases "check_header (e_asserts env) header s")
  from check_header_cases [of "e_asserts env" header s] consider
      "r = Aborted Assertion_failed" "e_asserts env" | s' where "r = Normal s'"
    by (auto simp: r)
  then show ?thesis
  proof cases
    case 2
    then have "edit_of s s'" using r edit_of_check by blast
    with 2 s r show ?thesis
      using kept_edit [OF assms(1) s, of "\<lambda>_. s'"]
      by (simp add: session_check_def with_session_def kept_emit_after)
  qed (use s r in \<open>simp add: session_check_def with_session_def\<close>)
qed

lemma preserves_answer:
  assumes "calm w" and "sid \<in> set (session_ids w)" and "e_strategy_id env (ur_username ur) = Inr k"
    and "request_route sid k (ur_user_request_type ur) (w_shared w) = (sh, status, status_text)"
  shows "preserves env R w (send env sid (user_response ur status status_text) (update_shared (\<lambda>_. sh) w))"
proof -
  from assms(2) obtain s where s: "find_session sid w = Some s" by (auto simp: live_iff)
  show ?thesis
    by (rule preserves_send_after [where s = s])
      (simp_all add: s kept_def assms(1) rel_answer [OF s assms(3,4)])
qed

lemma preserves_on_user_request:
  assumes "calm w" and "sid \<in> set (session_ids w)"
  shows "preserves env R w (on_user_request env sid ur header w)"
  unfolding on_user_request_split
  by (rule preserves_seq [OF preserves_tell_bridge [OF assms(1)]], simp add: assms(2))
    (auto simp: assms(2) kept_refl intro: preserves_answer split: sum.splits prod.splits)

lemma preserves_parse_helper:
  assumes "calm w" and "sid \<in> set (session_ids w)"
  shows "preserves env R w (parse_helper env sid message w)"
proof -
  have "preserves env R w (send env sid reply (emit (Unexpected_msg_type sid m) w))"
    if "\<not> user_reply reply" for reply m
    by (rule preserves_trans [OF kept_emit [of "Unexpected_msg_type sid m"]])
      (simp_all add: assms preserves_send that)
  with assms show ?thesis
    by (auto simp: parse_helper_def Let_def preserves_tell_bridge kept_refl
        preserves_on_user_request split: option.splits sum.splits)
qed

lemma preserves_reader_callback:
  assumes "calm w" and "sid \<in> set (session_ids w)"
  shows "preserves env R w (reader_callback env sid c w)"
proof (cases c)
  case (Parser_call message)
  show ?thesis
    unfolding Parser_call reader_callback.simps
    by (rule preserves_seq) (auto simp: assms preserves_session_check preserves_parse_helper)
qed (simp add: kept_fix_log kept_refl assms)

lemma preserves_reader_dispatch:
  assumes "calm w" and "sid \<in> set (session_ids w)"
  shows "preserves env R w (reader_dispatch env sid buffer w)"
  unfolding reader_dispatch_def
  by (rule preserves_seq [OF preserves_for_each])
    (auto simp: assms preserves_reader_callback kept_refl split: sum.splits)

text \<open>The loop returns a pair, so its result is projected.\<close>

lemma preserves_read_loop:
  "calm w \<Longrightarrow> sid \<in> set (session_ids w) \<Longrightarrow>
   preserves env R w (map_outcome fst (read_loop env sid buffer total_bytes w))"
proof (induction buffer arbitrary: total_bytes w rule: length_induct)
  case (1 buffer)
  note step = preserves_reader_dispatch [OF "1.prems", of buffer]
  show ?case
  proof (cases "reader_dispatch env sid buffer w")
    case (Normal v)
    then have v: "kept R w v" "calm v" "session_ids v = session_ids w"
      using step by (auto simp: kept_def)
    let ?n = "bytes_of (snd (e_reader env buffer))"
    have unsafe: "fault_allowed env Undefined_behaviour" if "?n > length buffer"
    proof -
      from that obtain calls n where "e_reader env buffer = (calls, Inr n)" "n > length buffer"
        by (cases "e_reader env buffer"; cases "snd (e_reader env buffer)") (auto simp: bytes_of_def)
      then show ?thesis by (force simp: fault_allowed_def safe_libraries_def)
    qed
    have rec: "preserves env R w (map_outcome fst (read_loop env sid (drop ?n buffer) t v))"
      if "?n \<noteq> 0" "buffer \<noteq> []" for t
      using that "1.IH" "1.prems"(2) v
      by (intro preserves_trans [OF v(1)]) (auto simp: v)
    show ?thesis
      using Normal v unsafe rec "1.prems"(1)
      by (subst read_loop.simps) (auto simp: Let_def kept_refl)
  qed (use step "1.prems"(1) in \<open>subst read_loop.simps, simp add: kept_refl\<close>)+
qed

end

text \<open>The buffer is filled before the loop and drained after it.\<close>

locale read_contract = parse_contract +
  assumes rel_buffer: "find_session sid w = Some s \<Longrightarrow>
      R w (update_session sid (\<lambda>s. s\<lparr>s_buffer := f (s_buffer s)\<rparr>) w)"
begin

lemma kept_buffer:
  assumes "calm w" and "sid \<in> set (session_ids w)"
  shows "kept R w (update_session sid (\<lambda>s. s\<lparr>s_buffer := f (s_buffer s)\<rparr>) w)"
  using assms by (auto simp: kept_def live_iff calm_def find_update_session rel_buffer split: if_splits)

lemma preserves_on_read:
  assumes "calm w" and "sid \<in> set (session_ids w)"
  shows "preserves env R w (on_read env sid data w)"
proof -
  from assms(2) obtain s where s: "find_session sid w = Some s" by (auto simp: live_iff)
  let ?buffer = "s_buffer s @ data"
  let ?w = "update_session sid (\<lambda>s. s\<lparr>s_buffer := ?buffer\<rparr>) w"
  have entry: "kept R w ?w" using kept_buffer [OF assms, of "\<lambda>_. ?buffer"] .
  then have "preserves env R ?w (map_outcome fst (read_loop env sid ?buffer 0 ?w))"
    by (intro preserves_read_loop) (simp_all add: assms(2) kept_def)
  then have loop: "preserves env R w (map_outcome fst (read_loop env sid ?buffer 0 ?w))"
    by (rule preserves_trans [OF entry])
  have drained: "kept R w (update_session sid (\<lambda>s. s\<lparr>s_buffer := drop n (s_buffer s)\<rparr>) v)"
    if "kept R w v" for v n
    using that assms(2) by (intro kept_trans [OF that] kept_buffer) (simp_all add: kept_def)
  have closed: "preserves env R w (close env sid v)" if "kept R w v" for v
    using that assms(2) by (intro preserves_trans [OF that] preserves_close) (simp_all add: kept_def)
  show ?thesis
    using loop s assms(1)
    by (cases "read_loop env sid ?buffer 0 ?w")
      (auto simp: on_read_def with_session_def Let_def kept_refl drained closed split: prod.splits)
qed

lemma preserves_on_connection_lost:
  "calm w \<Longrightarrow> sid \<in> set (session_ids w) \<Longrightarrow> preserves env R w (on_connection_lost env sid w)"
  unfolding on_connection_lost_def
  by (rule preserves_seq) (simp_all add: preserves_make_zombie preserves_tell_bridge)

end

end
