(* ===== verification/Session_Manager.thy ===== *)
theory Session_Manager
  imports Session_Input
begin

text \<open>
  \<open>session_manager.cpp\<close>: accepting connections, the periodic removal of zombies, and the events
  of the I/O context, which are delivered when the controller's timer drains it. A connection is
  a member of its session, so once the session is gone no event of it is delivered; that is how
  \<open>on_io_event\<close> treats the identifier of a session that does not exist.
\<close>

section \<open>Sessions\<close>

definition CLEANUP_FREQUENCY :: nanos where
  "CLEANUP_FREQUENCY = 1000000000"

definition add_session :: "('p, 'q, 'b) env \<Rightarrow> session \<Rightarrow> ('p, 'q, 'b) world \<Rightarrow> ('p, 'q, 'b) world outcome" where
  "add_session env s w =
     (let res = umap_emplace (s_session_id s) s (w_sessions w)
      in cassert (e_asserts env) (snd res) (w\<lparr>w_sessions := fst res\<rparr>))"

definition remove_session :: "('p, 'q, 'b) env \<Rightarrow> u64 \<Rightarrow> ('p, 'q, 'b) world \<Rightarrow> ('p, 'q, 'b) world outcome" where
  "remove_session env sid w =
     (let present = find_session sid w \<noteq> None
      in cassert (e_asserts env) present (w\<lparr>w_sessions := umap_erase sid (w_sessions w)\<rparr>))"

definition remove_zombies :: "('p, 'q, 'b) env \<Rightarrow> ('p, 'q, 'b) world \<Rightarrow> ('p, 'q, 'b) world outcome" where
  "remove_zombies env w =
     (if w_zombies w = [] then Normal w
      else seq (for_each (remove_session env) (w_zombies w) w) (\<lambda>w. Normal (w\<lparr>w_zombies := []\<rparr>)))"

text \<open>
  Both handlers of \<open>Listener::Handler\<close>; they differ in what they log, and share the helper.
\<close>

definition on_accept :: "('p, 'q, 'b) env \<Rightarrow> ('p, 'q, 'b) world \<Rightarrow> ('p, 'q, 'b) world outcome" where
  "on_accept env w =
     (let sid = w_next_session_id w + 1;
          w = emit (Session_connected sid) (w\<lparr>w_next_session_id := sid\<rparr>)
      in seq (add_session env (Session_create (e_settings env) sid) w)
           (tell_bridge env (Bridge_connected sid)))"

definition on_timer :: "('p, 'q, 'b) env \<Rightarrow> nanos \<Rightarrow> ('p, 'q, 'b) world \<Rightarrow> ('p, 'q, 'b) world outcome" where
  "on_timer env now w =
     (if w_next_cleanup w < now
      then remove_zombies env (w\<lparr>w_next_cleanup := now + CLEANUP_FREQUENCY\<rparr>)
      else Normal w)"

section \<open>Events of the I/O context\<close>

datatype io_event = Io_timer nanos | Io_accept | Io_read u64 bytes | Io_disconnected u64

fun on_io_event :: "('p, 'q, 'b) env \<Rightarrow> io_event \<Rightarrow> ('p, 'q, 'b) world \<Rightarrow> ('p, 'q, 'b) world outcome" where
  "on_io_event env (Io_timer now) w = on_timer env now w"
| "on_io_event env Io_accept w = on_accept env w"
| "on_io_event env (Io_read sid data) w = get_session sid (\<lambda>sid. on_read env sid data) w"
| "on_io_event env (Io_disconnected sid) w = get_session sid (on_connection_lost env) w"

text \<open>\<open>(*context_).drain()\<close>, in the order in which the context has the events.\<close>

definition drain :: "('p, 'q, 'b) env \<Rightarrow> io_event list \<Rightarrow> ('p, 'q, 'b) world \<Rightarrow> ('p, 'q, 'b) world outcome" where
  "drain env events w = for_each (on_io_event env) events w"

text \<open>
  \<open>Start\<close> sets the timer going, \<open>Stop\<close> does nothing. That the timer does not fire before is up to
  the library and is not assumed.
\<close>

definition on_start :: "('p, 'q, 'b) world \<Rightarrow> ('p, 'q, 'b) world outcome" where
  "on_start w = Normal (emit Timer_resume w)"

definition on_stop :: "('p, 'q, 'b) world \<Rightarrow> ('p, 'q, 'b) world outcome" where
  "on_stop w = Normal w"

section \<open>Where the service listens\<close>

datatype network_address = Port u16 | Path string

text \<open>
  The address is a port if the number parser of the library accepts it. The directory of a path
  is created on the way, which is left to the file system.
\<close>

definition create_network_address :: "(string \<Rightarrow> u16 option) \<Rightarrow> settings \<Rightarrow> network_address result" where
  "create_network_address try_parse cfg =
     (case try_parse (client_listen_address cfg) of
        Some port \<Rightarrow> if port = 0 then fatal else Inr (Port port)
      | None \<Rightarrow> Inr (Path (client_listen_address cfg)))"

section \<open>What the manager's steps do\<close>

definition connect_step :: "('p, 'q, 'b) env \<Rightarrow> ('p, 'q, 'b) world \<Rightarrow> ('p, 'q, 'b) world" where
  "connect_step env w =
     (let sid = w_next_session_id w + 1
      in emit (Session_connected sid)
           (w\<lparr>w_next_session_id := sid,
              w_sessions := fst (umap_emplace sid (Session_create (e_settings env) sid) (w_sessions w))\<rparr>))"

definition cleanup_step :: "nanos \<Rightarrow> ('p, 'q, 'b) world \<Rightarrow> ('p, 'q, 'b) world" where
  "cleanup_step t w =
     w\<lparr>w_next_cleanup := t, w_sessions := fold umap_erase (w_zombies w) (w_sessions w), w_zombies := []\<rparr>"

lemma Session_create_simps [simp]:
  "s_session_id (Session_create cfg sid) = sid"
  "s_name (Session_create cfg sid) = create_name sid"
  "s_state (Session_create cfg sid) = WAITING_LOGON"
  "s_outbound_msg_seq_num (Session_create cfg sid) = 0"
  "s_comp_id (Session_create cfg sid) = []"
  by (simp_all add: Session_create_def)

lemma on_accept_split:
  "on_accept env w =
     seq (cassert (e_asserts env) (find_session (w_next_session_id w + 1) w = None) (connect_step env w))
       (tell_bridge env (Bridge_connected (w_next_session_id w + 1)))"
  by (cases w) (auto simp: on_accept_def Let_def add_session_def connect_step_def emit_def
      find_session_def umap_emplace_ok cassert_def)

lemma for_each_remove:
  "for_each (remove_session env) zs w = Normal (w\<lparr>w_sessions := fold umap_erase zs (w_sessions w)\<rparr>) \<or>
   for_each (remove_session env) zs w = Aborted Assertion_failed \<and> e_asserts env"
proof (induction zs arbitrary: w)
  case (Cons z zs)
  from Cons.IH [of "w\<lparr>w_sessions := umap_erase z (w_sessions w)\<rparr>"] show ?case
    by (auto simp: remove_session_def cassert_def)
qed simp

lemma for_each_remove_present:
  assumes "distinct zs" and "\<And>z. z \<in> set zs \<Longrightarrow> find_session z w \<noteq> None"
  shows "for_each (remove_session env) zs w = Normal (w\<lparr>w_sessions := fold umap_erase zs (w_sessions w)\<rparr>)"
  using assms
proof (induction zs arbitrary: w)
  case (Cons z zs)
  from Cons.prems have "find_session y (w\<lparr>w_sessions := umap_erase z (w_sessions w)\<rparr>) \<noteq> None"
    if "y \<in> set zs" for y
    using that by (auto simp: find_session_def)
  with Cons show ?case by (simp add: remove_session_def)
qed simp

lemma on_timer_cases:
  "on_timer env now w = Normal (if w_next_cleanup w < now then cleanup_step (now + CLEANUP_FREQUENCY) w else w) \<or>
   on_timer env now w = Aborted Assertion_failed \<and> e_asserts env"
proof -
  let ?w = "w\<lparr>w_next_cleanup := now + CLEANUP_FREQUENCY\<rparr>"
  from for_each_remove [of env "w_zombies w" ?w] show ?thesis
    by (auto simp: on_timer_def remove_zombies_def cleanup_step_def)
qed

end
