(* ===== verification/Controller_Events.thy ===== *)
theory Controller_Events
  imports Session_Manager
begin

text \<open>
  \<open>controller.cpp\<close>, lines 14-225, and \<open>application.cpp\<close>: how the program is put together, and
  the events of the client library. The states that a sequence of events leads to are the
  reachable states; the interface \<open>event_contract\<close> says what a relation needs so that every
  event respects it.
\<close>

section \<open>Construction\<close>

record bridge_options =
  bo_comp_id :: string
  bo_logon_timeout :: nanos
  bo_logon_heartbeat_min :: nanos
  bo_logon_heartbeat_max :: nanos
  bo_heartbeat_freq :: nanos
  bo_top_of_book_from_market_by_price :: bool
  bo_default_values :: "(statistics_type \<times> u64) list"
  bo_statistics :: "(statistics_type \<times> md_entry_type) list"
  bo_route_by_strategy :: bool
  bo_strict_checking :: bool
  bo_disable_req_id_validation :: bool
  bo_cxl_rej_reason_mapping :: "(error_code \<times> u32) list"
  bo_test_md_entry_position_no :: bool
  bo_test_init_missing_md_entry_type_to_zero :: bool
  bo_test_request_latency :: bool
  bo_test_terminate_on_timeout :: bool
  bo_test_silence_non_final_order_ack :: bool
  bo_test_skip_order_download :: bool
  bo_test_terminate_on_disconnect :: bool
  bo_test_block_client_on_not_ready :: bool
  bo_default_decimal_digits :: u32

text \<open>The options \<open>create_bridge\<close> passes on. \<open>utils::safe_cast\<close> is a library function that may throw.\<close>

definition create_bridge :: "(nanos \<Rightarrow> nanos result) \<Rightarrow> settings \<Rightarrow> config \<Rightarrow> bridge_options result" where
  "create_bridge safe_cast cfg c =
     bind_result (safe_cast (fix_logon_timeout cfg)) (\<lambda>logon_timeout.
     bind_result (safe_cast (fix_logon_heartbeat_min cfg)) (\<lambda>heartbeat_min.
     bind_result (safe_cast (fix_logon_heartbeat_max cfg)) (\<lambda>heartbeat_max.
     bind_result (safe_cast (fix_heartbeat_freq cfg)) (\<lambda>heartbeat_freq.
       Inr \<lparr>bo_comp_id = fix_comp_id cfg, bo_logon_timeout = logon_timeout,
            bo_logon_heartbeat_min = heartbeat_min, bo_logon_heartbeat_max = heartbeat_max,
            bo_heartbeat_freq = heartbeat_freq,
            bo_top_of_book_from_market_by_price = top_of_book_from_market_by_price cfg,
            bo_default_values = cfg_default_values c, bo_statistics = cfg_statistics c,
            bo_route_by_strategy = oms_route_by_strategy cfg, bo_strict_checking = strict_checking cfg,
            bo_disable_req_id_validation = fix_disable_req_id_validation cfg,
            bo_cxl_rej_reason_mapping = cfg_cxl_rej_reason c,
            bo_test_md_entry_position_no = test_md_entry_position_no cfg,
            bo_test_init_missing_md_entry_type_to_zero = init_missing_md_entry_type_to_zero cfg,
            bo_test_request_latency = test_request_latency cfg,
            bo_test_terminate_on_timeout = terminate_on_timeout cfg,
            bo_test_silence_non_final_order_ack = silence_non_final_order_ack cfg,
            bo_test_skip_order_download = skip_order_download cfg,
            bo_test_terminate_on_disconnect = terminate_on_disconnect cfg,
            bo_test_block_client_on_not_ready = block_client_on_not_ready cfg,
            bo_default_decimal_digits = test_default_decimal_digits cfg\<rparr>))))"

record controller =
  co_options :: bridge_options
  co_shared :: shared
  co_address :: network_address
  co_username_to_user :: directory
  co_crypto :: crypto
  co_fix_file :: bool

record start_lib =
  st_safe_cast :: "nanos \<Rightarrow> nanos result"
  st_compile :: "string \<Rightarrow> pattern"
  st_try_parse_port :: "string \<Rightarrow> u16 option"
  st_open_file :: "string \<Rightarrow> int result"
  st_fdopen :: "int \<Rightarrow> bool"

text \<open>
  The file of the FIX log: \<open>create_file\<close> opens it, which may throw, and gives the descriptor if
  a path is set; \<open>fdopen\<close> says whether it gives a stream, or the null pointer.
\<close>

definition create_file :: "start_lib \<Rightarrow> string \<Rightarrow> int option result" where
  "create_file lib path =
     (if path = [] then Inr None else bind_result (st_open_file lib path) (\<lambda>fd. Inr (Some fd)))"

definition FIXLog_create :: "start_lib \<Rightarrow> settings \<Rightarrow> bool result" where
  "FIXLog_create lib cfg =
     bind_result (create_file lib (fix_log_path cfg)) (\<lambda>raw_file.
       Inr (case raw_file of None \<Rightarrow> False | Some fd \<Rightarrow> st_fdopen lib fd))"

text \<open>
  The members in the order of their declaration, which is the order of construction; the FIX log is
  the first member of the shared state whose construction can fail.
\<close>

definition Controller_create :: "start_lib \<Rightarrow> settings \<Rightarrow> config \<Rightarrow> nat \<Rightarrow> controller result" where
  "Controller_create lib cfg c source_count =
     bind_result (create_bridge (st_safe_cast lib) cfg c) (\<lambda>options.
     bind_result (FIXLog_create lib cfg) (\<lambda>fix_file.
     bind_result (Shared_create (st_compile lib) cfg c source_count) (\<lambda>sh.
     bind_result (create_network_address (st_try_parse_port lib) cfg) (\<lambda>address.
     bind_result (create_username_to_user cfg (cfg_users c)) (\<lambda>dir.
     bind_result (Crypto_create (fix_auth_method cfg) (fix_auth_timestamp_tolerance cfg)) (\<lambda>crypto.
       Inr \<lparr>co_options = options, co_shared = sh, co_address = address, co_username_to_user = dir,
            co_crypto = crypto, co_fix_file = fix_file\<rparr>))))))"

text \<open>
  \<open>Application::main\<close> up to the event loop of the client library: the settings and the table of
  the configuration file are given, since libraries read them.
\<close>

definition application_main ::
  "start_lib \<Rightarrow> config_lib \<Rightarrow> settings \<Rightarrow> toml result \<Rightarrow> string list \<Rightarrow> (client_setup list \<times> controller) result" where
  "application_main lib clib cfg parsed_file params =
     (if params = [] then fatal
      else bind_result parsed_file (\<lambda>tab.
        bind_result (Config_create clib cfg tab) (\<lambda>c.
        bind_result (Controller_create lib cfg c (length params)) (\<lambda>ctl.
          Inr (Config_dispatch c, ctl)))))"

section \<open>Events of the client library\<close>

datatype action = ACTION_UNDEFINED | ACTION_ENABLE | ACTION_DISABLE

definition state_of_action :: "action \<Rightarrow> service_state" where
  "state_of_action a =
     (case a of ACTION_UNDEFINED \<Rightarrow> STATE_UNDEFINED | ACTION_ENABLE \<Rightarrow> ENABLED | ACTION_DISABLE \<Rightarrow> DISABLED)"

definition on_control :: "('p, 'q, 'b) env \<Rightarrow> action \<Rightarrow> u32 \<Rightarrow> ('p, 'q, 'b) world \<Rightarrow> ('p, 'q, 'b) world outcome" where
  "on_control env a strategy w =
     (let state = state_of_action a
      in if strategy \<noteq> 0 then dispatcher_send env (Strategy_update strategy state) w
         else dispatcher_send env (Service_update state) w)"

text \<open>The events that are only passed on to the bridge library, and the four others.\<close>

datatype 'p event =
    Start | Stop
  | Timer_event 'p "io_event list"
  | Control_event action u32
  | Passed_on client_event 'p

fun handle :: "('p, 'q, 'b) env \<Rightarrow> 'p event \<Rightarrow> ('p, 'q, 'b) world \<Rightarrow> ('p, 'q, 'b) world outcome" where
  "handle env Start w = on_start w"
| "handle env Stop w = on_stop w"
| "handle env (Timer_event p ios) w =
     seq (tell_bridge env (Gateway_event Ev_Timer p) w) (drain env ios)"
| "handle env (Control_event a strategy) w = on_control env a strategy w"
| "handle env (Passed_on ce p) w = tell_bridge env (Gateway_event ce p) w"

section \<open>Reachable states\<close>

text \<open>
  A step handles one event. An exception that leaves a handler is the business of the client
  library; whether it goes on or stops, the state it finds is the one after the step.
\<close>

inductive step :: "('p, 'q, 'b) env \<Rightarrow> ('p, 'q, 'b) world \<Rightarrow> 'p event \<Rightarrow> ('p, 'q, 'b) world \<Rightarrow> bool"
  for env where
  step_normal: "handle env ev w = Normal w' \<Longrightarrow> step env w ev w'"
| step_thrown: "handle env ev w = Thrown e w' \<Longrightarrow> step env w ev w'"

inductive_cases stepE: "step env w ev w'"

inductive reachable :: "('p, 'q, 'b) env \<Rightarrow> ('p, 'q, 'b) world \<Rightarrow> ('p, 'q, 'b) world \<Rightarrow> bool"
  for env w0 where
  reach_init: "reachable env w0 w0"
| reach_step: "reachable env w0 w \<Longrightarrow> step env w ev w' \<Longrightarrow> reachable env w0 w'"

section \<open>Events respect the contract\<close>

text \<open>Between events sessions come and go, so here only calmness and the relation are left.\<close>

fun allows ::
  "('p, 'q, 'b) env \<Rightarrow> (('p, 'q, 'b) world \<Rightarrow> ('p, 'q, 'b) world \<Rightarrow> bool) \<Rightarrow>
   ('p, 'q, 'b) world \<Rightarrow> ('p, 'q, 'b) world outcome \<Rightarrow> bool" where
  "allows env R w (Normal w') \<longleftrightarrow> calm w' \<and> R w w'"
| "allows env R w (Thrown e w') \<longleftrightarrow> calm w' \<and> R w w'"
| "allows env R w (Aborted x) \<longleftrightarrow> fault_allowed env x"

lemma preserves_allows: "preserves env R w r \<Longrightarrow> allows env R w r"
  by (cases r) (simp_all add: kept_def)

lemma calm_connect_step: "calm w \<Longrightarrow> calm (connect_step env w)"
  by (auto simp: calm_def connect_step_def Let_def find_session_def umap_find_emplace split: if_splits)

lemma find_cleanup_step:
  "find_session sid (cleanup_step t w) = (if sid \<in> set (w_zombies w) then None else find_session sid w)"
  by (simp add: cleanup_step_def find_session_def find_erase_list)

lemma calm_cleanup_step: "calm w \<Longrightarrow> calm (cleanup_step t w)"
  by (auto simp: calm_def find_cleanup_step split: if_splits)

locale event_contract = read_contract +
  assumes rel_connect: "R w (emit (To_bridge (Bridge_connected (w_next_session_id w + 1))) (connect_step env w))"
    and rel_cleanup: "R w (cleanup_step t w)"
begin

lemma allows_trans: "R u v \<Longrightarrow> allows env R v r \<Longrightarrow> allows env R u r"
  by (cases r) (auto intro: rel_trans)

lemma allows_seq:
  assumes "allows env R w r" and "\<And>v. calm v \<Longrightarrow> allows env R v (f v)"
  shows "allows env R w (seq r f)"
  using assms by (cases r) (auto intro: allows_trans)

lemma allows_for_each:
  "calm w \<Longrightarrow> (\<And>x v. calm v \<Longrightarrow> allows env R v (f x v)) \<Longrightarrow> allows env R w (for_each f xs w)"
  by (induction xs arbitrary: w) (auto simp: rel_refl intro: allows_seq)

lemma allows_on_timer: "calm w \<Longrightarrow> allows env R w (on_timer env now w)"
  using on_timer_cases [of env now w] by (auto simp: calm_cleanup_step rel_cleanup rel_refl)

lemma allows_on_accept:
  assumes "calm w"
  shows "allows env R w (on_accept env w)"
proof -
  let ?sid = "w_next_session_id w + 1"
  have "allows env R w (tell_bridge env (Bridge_connected ?sid) (connect_step env w))"
    unfolding tell_bridge_def
    by (rule allows_trans [OF rel_connect], rule preserves_allows [OF preserves_run_bridge])
      (simp add: calm_connect_step assms)
  then show ?thesis by (simp add: on_accept_split cassert_def)
qed

lemma allows_on_io_event: "calm w \<Longrightarrow> allows env R w (on_io_event env x w)"
proof (cases x)
  case (Io_read sid data)
  assume "calm w"
  then show ?thesis
    unfolding Io_read on_io_event.simps
    by (intro preserves_allows preserves_get_session preserves_on_read) (auto simp: live_iff)
next
  case (Io_disconnected sid)
  assume "calm w"
  then show ?thesis
    unfolding Io_disconnected on_io_event.simps
    by (intro preserves_allows preserves_get_session preserves_on_connection_lost) (auto simp: live_iff)
qed (simp_all add: allows_on_timer allows_on_accept)

lemma allows_handle: "calm w \<Longrightarrow> allows env R w (handle env ev w)"
proof (cases ev)
  case (Timer_event p ios)
  assume calm: "calm w"
  show ?thesis
    unfolding Timer_event handle.simps drain_def
    by (rule allows_seq [OF preserves_allows [OF preserves_tell_bridge [OF calm]]], simp)
      (rule allows_for_each, simp, rule allows_on_io_event)
qed (auto simp: rel_refl rel_emit on_start_def on_stop_def on_control_def Let_def intro!: preserves_allows preserves_tell_bridge preserves_dispatcher_send)

lemma step_related: "step env w ev w' \<Longrightarrow> calm w \<Longrightarrow> calm w' \<and> R w w'"
  using allows_handle [of w ev] by (auto elim: stepE)

lemma reachable_related: "reachable env w0 w \<Longrightarrow> calm w0 \<Longrightarrow> calm w \<and> R w0 w"
  by (induction rule: reachable.induct) (auto simp: rel_refl dest: step_related intro: rel_trans)

end

end
