(* ===== verification/Bridge_Invariants.thy ===== *)
theory Bridge_Invariants
  imports Controller_Events
begin

text \<open>
  Invariants of the reachable states: session identifiers are given out once, outbound messages
  are numbered consecutively, the set of zombies is exact, and what is told about a session's
  end is told once. Each is shown for the elementary steps; interpreting \<open>event_contract\<close>
  gives it for every event.
\<close>

section \<open>Reading the trace\<close>

fun header_sent :: "u64 \<Rightarrow> ('p, 'q) effect \<Rightarrow> fix_header list" where
  "header_sent sid (Sent sid2 header value runs answer) = (if sid2 = sid then [header] else [])"
| "header_sent sid _ = []"

definition sent_to :: "u64 \<Rightarrow> ('p, 'q) effect list \<Rightarrow> fix_header list" where
  "sent_to sid tr = concat (map (header_sent sid) tr)"

fun is_connected :: "('p, 'q) effect \<Rightarrow> bool" where
  "is_connected (Session_connected _) \<longleftrightarrow> True"
| "is_connected _ \<longleftrightarrow> False"

definition accepted :: "('p, 'q) effect list \<Rightarrow> nat" where
  "accepted tr = length (filter is_connected tr)"

definition logouts :: "u64 \<Rightarrow> ('p, 'q) effect list \<Rightarrow> nat" where
  "logouts sid tr = count_list tr (Session_logout sid)"

definition closes :: "u64 \<Rightarrow> ('p, 'q) effect list \<Rightarrow> nat" where
  "closes sid tr = count_list tr (Connection_close sid)"

lemma trace_Nil [simp]:
  "sent_to sid [] = []" "accepted [] = 0" "logouts sid [] = 0" "closes sid [] = 0"
  by (simp_all add: sent_to_def accepted_def logouts_def closes_def)

lemma trace_snoc [simp]:
  "sent_to sid (tr @ [e]) = sent_to sid tr @ header_sent sid e"
  "accepted (tr @ [e]) = accepted tr + (if is_connected e then 1 else 0)"
  "logouts sid (tr @ [e]) = logouts sid tr + (if e = Session_logout sid then 1 else 0)"
  "closes sid (tr @ [e]) = closes sid tr + (if e = Connection_close sid then 1 else 0)"
  by (simp_all add: sent_to_def accepted_def logouts_def closes_def)

lemma plain_silent:
  "plain e \<Longrightarrow> header_sent sid e = [] \<and> \<not> is_connected e \<and> e \<noteq> Session_logout sid \<and> e \<noteq> Connection_close sid"
  by (cases e) simp_all

section \<open>Invariants\<close>

text \<open>Identifiers: the counter counts, and the sessions have distinct numbers below it.\<close>

definition session_ok :: "('p, 'q, 'b) world \<Rightarrow> u64 \<Rightarrow> session \<Rightarrow> bool" where
  "session_ok w sid s \<longleftrightarrow> 1 \<le> unat sid \<and> unat sid \<le> accepted (w_trace w) \<and>
     s_session_id s = sid \<and> s_name s = create_name sid"

definition ids_ok :: "('p, 'q, 'b) world \<Rightarrow> bool" where
  "ids_ok w \<longleftrightarrow> unat (w_next_session_id w) = accepted (w_trace w) \<and> distinct (session_ids w) \<and>
     (\<forall>sid s. find_session sid w = Some s \<longrightarrow> session_ok w sid s)"

lemma ids_okD: "ids_ok w \<Longrightarrow> find_session sid w = Some s \<Longrightarrow> session_ok w sid s"
  by (simp add: ids_ok_def)

text \<open>Numbers: what was sent to a session is numbered from one, and its counter stands at the last.\<close>

definition consecutive :: "fix_header list \<Rightarrow> bool" where
  "consecutive hs \<longleftrightarrow> map h_msg_seq_num hs = map word_of_nat [1..<Suc (length hs)]"

definition numbered :: "('p, 'q, 'b) world \<Rightarrow> u64 \<Rightarrow> bool" where
  "numbered w sid \<longleftrightarrow> consecutive (sent_to sid (w_trace w)) \<and>
     (accepted (w_trace w) < unat sid \<longrightarrow> sent_to sid (w_trace w) = []) \<and>
     (\<forall>s. find_session sid w = Some s \<longrightarrow>
        s_outbound_msg_seq_num s = word_of_nat (length (sent_to sid (w_trace w))))"

text \<open>Ends: a session is listed as a zombie exactly when it is one, and was logged out exactly if so or gone.\<close>

definition ended :: "('p, 'q, 'b) world \<Rightarrow> u64 \<Rightarrow> bool" where
  "ended w sid \<longleftrightarrow> 1 \<le> unat sid \<and> unat sid \<le> accepted (w_trace w) \<and> (find_session sid w = None \<or> is_zombie sid w)"

definition told_once :: "('p, 'q, 'b) world \<Rightarrow> u64 \<Rightarrow> bool" where
  "told_once w sid \<longleftrightarrow> (sid \<in> set (w_zombies w) \<longleftrightarrow> is_zombie sid w) \<and>
     logouts sid (w_trace w) = (if ended w sid then 1 else 0) \<and>
     closes sid (w_trace w) \<le> (if ended w sid then 1 else 0)"

text \<open>The counter of sessions has 64 bits; the invariants hold until it wraps around.\<close>

definition world_ok :: "('p, 'q, 'b) world \<Rightarrow> bool" where
  "world_ok w \<longleftrightarrow>
     (accepted (w_trace w) < 2 ^ 64 \<longrightarrow>
        ids_ok w \<and> (\<forall>sid. numbered w sid) \<and> distinct (w_zombies w) \<and> (\<forall>sid. told_once w sid)) \<and>
     routes_wf (w_shared w)"

lemma world_okD:
  assumes "world_ok w" and "accepted (w_trace w) < 2 ^ 64"
  shows "ids_ok w" and "numbered w sid" and "distinct (w_zombies w)" and "told_once w sid"
  using assms by (simp_all add: world_ok_def)

text \<open>What has to be shown of a step, each part on its own.\<close>

lemma world_ok_step:
  assumes "world_ok w" and "accepted (w_trace w) \<le> accepted (w_trace w')"
    and "routes_wf (w_shared w) \<Longrightarrow> routes_wf (w_shared w')"
    and "accepted (w_trace w') < 2 ^ 64 \<Longrightarrow> ids_ok w \<Longrightarrow> ids_ok w'"
    and "\<And>sid. accepted (w_trace w') < 2 ^ 64 \<Longrightarrow> ids_ok w \<Longrightarrow> numbered w sid \<Longrightarrow> numbered w' sid"
    and "distinct (w_zombies w) \<Longrightarrow> distinct (w_zombies w')"
    and "\<And>sid. accepted (w_trace w') < 2 ^ 64 \<Longrightarrow> ids_ok w \<Longrightarrow> told_once w sid \<Longrightarrow> told_once w' sid"
  shows "world_ok w'"
proof -
  have "accepted (w_trace w) < 2 ^ 64" if "accepted (w_trace w') < 2 ^ 64"
    using that assms(2) by linarith
  with assms(1) assms(3-7) show ?thesis unfolding world_ok_def by blast
qed

section \<open>The elementary steps keep the invariants\<close>

lemma is_zombie_simps [simp]:
  "is_zombie sid (emit e w) = is_zombie sid w"
  "is_zombie sid (update_shared f w) = is_zombie sid w"
  "is_zombie sid (w\<lparr>w_bridge := b\<rparr>) = is_zombie sid w"
  "is_zombie sid (w\<lparr>w_zombies := z\<rparr>) = is_zombie sid w"
  by (simp_all add: is_zombie_def)

lemma consecutive_snoc:
  "consecutive hs \<Longrightarrow> h_msg_seq_num h = word_of_nat (length hs) + 1 \<Longrightarrow> consecutive (hs @ [h])"
  by (simp add: consecutive_def)

lemmas part_defs = ids_ok_def session_ok_def numbered_def told_once_def ended_def

lemma world_ok_emit: "world_ok w \<Longrightarrow> plain e \<Longrightarrow> world_ok (emit e w)"
  using plain_silent [of e] by (simp add: world_ok_def part_defs)

lemma world_ok_bridge: "world_ok w \<Longrightarrow> world_ok (w\<lparr>w_bridge := b\<rparr>)"
  by (simp add: world_ok_def part_defs)

lemma world_ok_shared: "world_ok w \<Longrightarrow> routes_wf (f (w_shared w)) \<Longrightarrow> world_ok (update_shared f w)"
  by (simp add: world_ok_def part_defs)

lemma is_zombie_edit:
  "find_session sid w = Some s \<Longrightarrow> s_state (f s) = s_state s \<Longrightarrow>
   is_zombie sid2 (update_session sid f w) = is_zombie sid2 w"
  by (auto simp: is_zombie_def find_update_session)

lemma ended_edit:
  "find_session sid w = Some s \<Longrightarrow> s_state (f s) = s_state s \<Longrightarrow>
   ended (update_session sid f w) sid2 = ended w sid2"
  by (auto simp: ended_def is_zombie_edit find_update_session)

lemma ended_emit: "\<not> is_connected e \<Longrightarrow> ended (emit e w) sid = ended w sid"
  by (simp add: ended_def)

lemma world_ok_edit:
  assumes ok: "world_ok w" and s: "find_session sid w = Some s" and f: "edit_of s (f s)"
  shows "world_ok (update_session sid f w)"
proof (rule world_ok_step [OF ok])
  have st: "s_state (f s) = s_state s" using f by (simp add: edit_of_def)
  show "told_once (update_session sid f w) sid2" if "told_once w sid2" for sid2
    using that by (simp add: told_once_def is_zombie_edit [of sid w s f, OF s st] ended_edit [of sid w s f, OF s st])
qed (use s f in \<open>auto simp: ids_ok_def session_ok_def numbered_def edit_of_def find_update_session\<close>)

lemma world_ok_buffer:
  assumes ok: "world_ok w" and s: "find_session sid w = Some s"
  shows "world_ok (update_session sid (\<lambda>s. s\<lparr>s_buffer := f (s_buffer s)\<rparr>) w)"
proof (rule world_ok_step [OF ok])
  let ?f = "\<lambda>s. s\<lparr>s_buffer := f (s_buffer s)\<rparr>"
  show "told_once (update_session sid ?f w) sid2" if "told_once w sid2" for sid2
    using that is_zombie_edit [OF s, of ?f] ended_edit [OF s, of ?f] by (simp add: told_once_def)
qed (use s in \<open>auto simp: ids_ok_def session_ok_def numbered_def find_update_session\<close>)

lemma world_ok_send:
  assumes ok: "world_ok w" and s: "find_session sid w = Some s"
    and h: "h_msg_seq_num header = s_outbound_msg_seq_num s + 1"
  shows "world_ok (send_step sid header reply runs answer w)"
proof (rule world_ok_step [OF ok])
  let ?f = "\<lambda>s. s\<lparr>s_outbound_msg_seq_num := h_msg_seq_num header\<rparr>"
  show "told_once (send_step sid header reply runs answer w) sid2" if "told_once w sid2" for sid2
    using that is_zombie_edit [OF s, of ?f] ended_edit [OF s, of ?f]
    by (simp add: told_once_def send_step_def ended_emit)
  show "numbered (send_step sid header reply runs answer w) sid2" if "ids_ok w" "numbered w sid2" for sid2
  proof (cases "sid2 = sid")
    case True
    have num: "s_outbound_msg_seq_num s = word_of_nat (length (sent_to sid (w_trace w)))"
      and con: "consecutive (sent_to sid (w_trace w))"
      using that(2) s by (simp_all add: numbered_def True)
    have "\<not> accepted (w_trace w) < unat sid"
      using ids_okD [OF that(1) s] by (simp add: session_ok_def)
    with True s h consecutive_snoc [OF con, of header] num show ?thesis
      by (simp add: numbered_def send_step_def find_update_session)
  qed (use that(2) in \<open>simp add: numbered_def send_step_def find_update_session\<close>)
qed (use s in \<open>auto simp: ids_ok_def session_ok_def send_step_def find_update_session\<close>)

lemma find_retire:
  "find_session sid2 (retire sid w) =
     (if sid2 = sid then map_option (\<lambda>s. s\<lparr>s_state := ZOMBIE\<rparr>) (find_session sid w) else find_session sid2 w)"
  by (simp add: retire_def on_session_disconnect_def Let_def find_update_session)

lemma retire_simps [simp]:
  "w_trace (retire sid w) = w_trace w @ [Session_logout sid]"
  "w_shared (retire sid w) = w_shared w"
  "w_next_session_id (retire sid w) = w_next_session_id w"
  "w_zombies (retire sid w) = fst (uset_emplace sid (w_zombies w))"
  by (simp_all add: retire_def on_session_disconnect_def Let_def)

text \<open>Retiring a session, with what was emitted just before.\<close>

lemma world_ok_retire_after:
  assumes ok: "world_ok w" and s: "find_session sid w = Some s" "s_state s = WAITING_LOGON"
    and e: "e = [] \<or> e = [Connection_close sid]"
    and w': "w' = retire sid (w\<lparr>w_trace := w_trace w @ e\<rparr>)"
  shows "world_ok w'"
proof (rule world_ok_step [OF ok])
  have find: "find_session sid2 (w\<lparr>w_trace := tr\<rparr>) = find_session sid2 w" for sid2 tr
    by (simp add: find_session_def)
  have z: "is_zombie sid2 w' \<longleftrightarrow> sid2 = sid \<or> is_zombie sid2 w" for sid2
    using s by (auto simp: w' is_zombie_def find_retire find)
  have nz: "\<not> is_zombie sid w" using s by (simp add: is_zombie_def)
  have tr: "accepted (w_trace w') = accepted (w_trace w)"
      "sent_to sid2 (w_trace w') = sent_to sid2 (w_trace w)"
      "logouts sid2 (w_trace w') = logouts sid2 (w_trace w) + (if sid2 = sid then 1 else 0)"
      "closes sid2 (w_trace w') \<le> closes sid2 (w_trace w) + (if sid2 = sid then 1 else 0)" for sid2
    using e by (auto simp: w' simp flip: append_assoc)
  have ids: "session_ids w' = session_ids w" by (simp add: w') (simp add: session_ids_def)
  show "accepted (w_trace w) \<le> accepted (w_trace w')" by (simp add: tr)
  show "ids_ok w'" if "ids_ok w"
    using that by (auto simp: ids_ok_def session_ok_def tr ids) (auto simp: w' find_retire find split: if_splits)
  show "numbered w' sid2" if "numbered w sid2" for sid2
    using that by (auto simp: numbered_def tr) (auto simp: w' find_retire find split: if_splits)
  show "told_once w' sid2" if "ids_ok w" and "told_once w sid2" for sid2
  proof (cases "sid2 = sid")
    case True
    have "\<not> ended w sid" "ended w' sid"
      using that(1) s nz z tr(1) by (auto simp: ended_def ids_ok_def session_ok_def)
    with True that(2) tr(3,4) [of sid] z show ?thesis by (simp add: told_once_def w' uset_emplace_def)
  next
    case False
    then have "ended w' sid2 = ended w sid2"
      by (simp add: ended_def z tr) (simp add: w' find_retire find)
    with False that(2) tr(3,4) [of sid2] z show ?thesis by (auto simp: told_once_def w' uset_emplace_def)
  qed
qed (auto simp: w' uset_emplace_def)

lemma world_ok_retire:
  "world_ok w \<Longrightarrow> find_session sid w = Some s \<Longrightarrow> s_state s = WAITING_LOGON \<Longrightarrow> world_ok (retire sid w)"
  by (rule world_ok_retire_after [where e = "[]"]) simp_all

lemma world_ok_close:
  "world_ok w \<Longrightarrow> find_session sid w = Some s \<Longrightarrow> s_state s = WAITING_LOGON \<Longrightarrow>
   world_ok (retire sid (emit (Connection_close sid) w))"
  by (rule world_ok_retire_after [where e = "[Connection_close sid]"]) (simp_all add: emit_def)

lemma fresh_session:
  assumes "ids_ok w" and "accepted (w_trace w) + 1 < 2 ^ 64"
  shows "unat (w_next_session_id w + 1) = accepted (w_trace w) + 1"
    and "find_session (w_next_session_id w + 1) w = None"
proof -
  show *: "unat (w_next_session_id w + 1) = accepted (w_trace w) + 1"
    using assms by (simp add: ids_ok_def unat_word_ariths)
  show "find_session (w_next_session_id w + 1) w = None"
    using ids_okD [OF assms(1), of "w_next_session_id w + 1"] *
    by (cases "find_session (w_next_session_id w + 1) w") (auto simp: session_ok_def)
qed

lemma connect_step_simps [simp]:
  "w_trace (connect_step env w) = w_trace w @ [Session_connected (w_next_session_id w + 1)]"
  "w_shared (connect_step env w) = w_shared w"
  "w_next_session_id (connect_step env w) = w_next_session_id w + 1"
  "w_zombies (connect_step env w) = w_zombies w"
  by (simp_all add: connect_step_def Let_def)

lemma find_connect_step:
  "find_session sid (connect_step env w) =
     (if sid = w_next_session_id w + 1 \<and> find_session sid w = None
      then Some (Session_create (e_settings env) sid) else find_session sid w)"
  by (auto simp: connect_step_def Let_def find_session_def umap_find_emplace)

lemma session_ids_connect_step:
  "find_session (w_next_session_id w + 1) w = None \<Longrightarrow>
   session_ids (connect_step env w) = session_ids w @ [w_next_session_id w + 1]"
  by (simp add: connect_step_def Let_def session_ids_def find_session_def umap_emplace_def)

lemma cleanup_step_simps [simp]:
  "w_trace (cleanup_step t w) = w_trace w"
  "w_shared (cleanup_step t w) = w_shared w"
  "w_next_session_id (cleanup_step t w) = w_next_session_id w"
  "w_zombies (cleanup_step t w) = []"
  "w_next_cleanup (cleanup_step t w) = t"
  by (simp_all add: cleanup_step_def)

lemma session_ids_cleanup_step:
  "session_ids (cleanup_step t w) = filter (\<lambda>sid. sid \<notin> set (w_zombies w)) (session_ids w)"
proof -
  have "map fst (fold umap_erase zs m) = filter (\<lambda>k. k \<notin> set zs) (map fst m)" for zs and m :: "(u64, session) umap"
    by (induction zs arbitrary: m) (auto simp: conj_commute intro: filter_cong)
  then show ?thesis by (simp add: cleanup_step_def session_ids_def)
qed

lemma is_zombie_connect:
  "is_zombie sid (connect_step env w) = is_zombie sid w"
  by (cases "find_session sid w") (auto simp: is_zombie_def find_connect_step)

lemma world_ok_connect:
  assumes ok: "world_ok w"
  shows "world_ok (connect_step env w)"
proof (rule world_ok_step [OF ok])
  let ?sid = "w_next_session_id w + 1" and ?w = "connect_step env w"
  assume bound: "accepted (w_trace ?w) < 2 ^ 64" and ids: "ids_ok w"
  then have "accepted (w_trace w) + 1 < 2 ^ 64" by simp
  note fresh = fresh_session [OF ids this]
  have new: "find_session sid ?w = (if sid = ?sid then Some (Session_create (e_settings env) sid) else find_session sid w)" for sid
    using fresh(2) by (simp add: find_connect_step)
  have old: "ended ?w sid = ended w sid" for sid
  proof (cases "sid = ?sid")
    case True
    then show ?thesis using fresh(1) new by (auto simp: ended_def is_zombie_def)
  next
    case False
    then have "unat sid \<noteq> accepted (w_trace w) + 1" using fresh(1) by (metis word_eq_iff_unsigned)
    with False show ?thesis by (auto simp: ended_def new is_zombie_connect)
  qed
  have "?sid \<notin> set (session_ids w)" using fresh(2) by (simp add: live_iff)
  with ids show "ids_ok ?w"
    by (auto simp: ids_ok_def session_ok_def session_ids_connect_step fresh new le_Suc_eq)
  fix sid
  show "numbered ?w sid" if "numbered w sid"
    using that fresh(1) by (auto simp: numbered_def new)
  show "told_once ?w sid" if "told_once w sid"
    using that by (simp add: told_once_def old is_zombie_connect)
qed simp_all

lemma world_ok_cleanup:
  assumes ok: "world_ok w"
  shows "world_ok (cleanup_step t w)"
proof (rule world_ok_step [OF ok])
  assume bound: "accepted (w_trace (cleanup_step t w)) < 2 ^ 64" and ids: "ids_ok w"
  from ids show "ids_ok (cleanup_step t w)"
    by (auto simp: ids_ok_def session_ok_def find_cleanup_step session_ids_cleanup_step)
  fix sid
  have z: "sid \<in> set (w_zombies w) \<longleftrightarrow> is_zombie sid w"
    using world_okD(4) [OF ok, of sid] bound by (simp add: told_once_def)
  have nz: "\<not> is_zombie sid (cleanup_step t w)"
    using z by (auto simp: is_zombie_def find_cleanup_step)
  have "ended (cleanup_step t w) sid = ended w sid"
    using z nz by (auto simp: ended_def find_cleanup_step)
  then show "told_once (cleanup_step t w) sid" if "told_once w sid"
    using that nz by (simp add: told_once_def)
  show "numbered (cleanup_step t w) sid" if "numbered w sid"
    using that by (auto simp: numbered_def find_cleanup_step split: if_splits)
qed simp_all

section \<open>The invariants of every reachable state\<close>

definition keeps :: "(('p, 'q, 'b) world \<Rightarrow> bool) \<Rightarrow> ('p, 'q, 'b) world \<Rightarrow> ('p, 'q, 'b) world \<Rightarrow> bool" where
  "keeps P w w' \<longleftrightarrow> (P w \<longrightarrow> P w')"

lemma world_ok_answer:
  assumes "world_ok w" and "find_session sid w = Some s"
    and "request_route sid k t (w_shared w) = (sh, r)"
  shows "world_ok (send_step sid (outbound_header env s reply time) reply runs answer (update_shared (\<lambda>_. sh) w))"
proof (rule world_ok_send)
  have "routes_wf sh" using assms request_route_wf by (auto simp: world_ok_def)
  then show "world_ok (update_shared (\<lambda>_. sh) w)" using assms(1) by (simp add: world_ok_shared)
qed (simp_all add: assms(2) outbound_header_def)

interpretation invariants: event_contract env "keeps world_ok" for env
proof unfold_locales
  show "keeps world_ok w (send_step sid (outbound_header env s reply t) reply runs answer (update_shared (\<lambda>_. sh) w))"
    if "find_session sid w = Some s" "request_route sid k (ur_user_request_type ur) (w_shared w) = (sh, status, status_text)"
    for sid s k sh status status_text reply t runs answer and ur :: user_request and w :: "('a, 'b, 'c) world"
    using that by (simp add: keeps_def world_ok_answer)
qed (auto simp: keeps_def outbound_header_def world_ok_def [THEN iffD1]
      intro: world_ok_emit world_ok_send world_ok_retire world_ok_close world_ok_bridge world_ok_edit
        world_ok_connect world_ok_cleanup world_ok_shared world_ok_buffer)

lemma world_ok_init:
  "routes_wf sh \<Longrightarrow> world_ok (initial_world b sh)" and calm_init: "calm (initial_world b sh)"
  by (simp_all add: world_ok_def part_defs initial_world_def session_ids_def find_session_def
      is_zombie_def consecutive_def calm_def)

end
