(* ===== verification/Bridge_Example.thy ===== *)
theory Bridge_Example
  imports Bridge_Invariants
begin

text \<open>
  One concrete choice for everything the model takes as a parameter, on which the properties are
  applied: a reader of two-byte frames (a type and a sequence number), a bridge library that
  answers a logon, disconnects on a logout, forwards an order and spreads an execution report,
  and a network and gateways that never fail.
\<close>

definition frame_type :: "u8 \<Rightarrow> msg_type" where
  "frame_type b = (if b = 1 then LOGON else if b = 2 then LOGOUT else if b = 3 then USER_REQUEST
     else if b = 4 then NEW_ORDER_SINGLE else OTHER_MSG_TYPE (unat b))"

definition frame_message :: "u8 \<Rightarrow> u8 \<Rightarrow> fix_message" where
  "frame_message a b =
     \<lparr>fm_header = \<lparr>h_version = FIX_44, h_msg_type = frame_type a, h_sender_comp_id = ''client'',
        h_target_comp_id = ''roq'', h_msg_seq_num = ucast b, h_sending_time = 0\<rparr>,
      fm_bytes = [a, b]\<rparr>"

fun frame_reader :: "bytes \<Rightarrow> reader_call list \<times> (exn + nat)" where
  "frame_reader (a # b # rest) = ([Logger_call [a, b], Parser_call (frame_message a b)], Inr 2)"
| "frame_reader _ = ([], Inr 0)"

fun example_bridge :: "unit bridge_input \<Rightarrow> nat \<Rightarrow> (unit, nat) bridge_run" where
  "example_bridge (Client_message In_Logon _ _ sid) n =
     Call (Send_call Out_Logon () sid) (\<lambda>_. Return (n + 1))"
| "example_bridge (Client_message In_Logout _ _ sid) n =
     Call (Disconnect_call sid) (\<lambda>_. Return n)"
| "example_bridge (Client_message In_NewOrderSingle _ _ sid) n =
     Call (Order_call (CreateOrder ()) 0) (\<lambda>_. Call (Send_execution_report_call ()) (\<lambda>_. Return n))"
| "example_bridge _ n = Return n"

definition example_env :: "(unit, unit, nat) env" where
  "example_env =
     \<lparr>e_settings = example_settings, e_asserts = False, e_fix_file = False,
      e_username_to_user = sh_username_to_user example_shared, e_crypto = sh_crypto example_shared,
      e_crypto_lib = example_lib, e_reader = frame_reader, e_decode = (\<lambda>_ _. Inr ()),
      e_decode_user_request = (\<lambda>m. Inr \<lparr>ur_user_request_id = ''r1'', ur_username = ''7'',
         ur_user_request_type = LOG_ON_USER\<rparr>),
      e_encode = (\<lambda>_ _. Inr []), e_msg_type = (\<lambda>_. LOGON),
      e_strategy_id = (\<lambda>s. Inr (word_of_nat (read_nat s))), e_bridge = example_bridge,
      e_connection_send = (\<lambda>_ _. (True, Inr True)), e_dispatcher = (\<lambda>_ _. None),
      e_realtime = (\<lambda>_. 0), e_system_time = (\<lambda>_. 0)\<rparr>"

definition example_init :: "(unit, unit, nat) world" where
  "example_init = initial_world 0 example_shared"

text \<open>Two connections; the first logs on, takes the route of strategy 7, sends an order, and logs out.\<close>

definition example_event :: "unit event" where
  "example_event = Timer_event () [Io_accept, Io_accept, Io_read 1 [1, 1, 3], Io_read 1 [2, 4, 3, 2, 4, 4, 5]]"

definition is_normal :: "'s outcome \<Rightarrow> bool" where
  "is_normal r = (case r of Normal _ \<Rightarrow> True | _ \<Rightarrow> False)"

definition result_of :: "('p, 'q, 'b) world outcome \<Rightarrow> ('p, 'q, 'b) world \<Rightarrow> ('p, 'q, 'b) world" where
  "result_of r w = (case r of Normal w \<Rightarrow> w | _ \<Rightarrow> w)"

lemma result_of: "is_normal r \<Longrightarrow> r = Normal (result_of r w)"
  by (cases r) (simp_all add: is_normal_def result_of_def)

definition example_world :: "(unit, unit, nat) world" where
  "example_world = result_of (handle example_env example_event example_init) example_init"

lemma example_normal: "is_normal (handle example_env example_event example_init)"
  by code_simp

lemma example_handled: "handle example_env example_event example_init = Normal example_world"
  unfolding example_world_def by (rule result_of [OF example_normal])

lemma example_reachable: "reachable example_env example_init example_world"
  by (rule reach_step [OF reach_init step_normal [OF example_handled]])

text \<open>What the run has led to: what was sent to whom, and in which states the sessions are.\<close>

lemma example_world_facts:
  "accepted (w_trace example_world) = 2"
  "map h_msg_seq_num (sent_to 1 (w_trace example_world)) = [1, 2, 3]"
  "map h_msg_seq_num (sent_to 2 (w_trace example_world)) = [1]"
  "map (\<lambda>(sid, s). (sid, s_state s)) (w_sessions example_world) = [(1, ZOMBIE), (2, WAITING_LOGON)]"
  "w_zombies example_world = [1]"
  "sh_strategy_to_session (w_shared example_world) = [(7, 1)]"
  by code_simp+

end
