(* ===== verification/Session_Properties.thy ===== *)
theory Session_Properties
  imports Bridge_Example
begin

text \<open>
  Properties of one session, of the checks the controller makes, and of the data a session is
  made of. The theorems about all reachable states are in the root theory.
\<close>

section \<open>Names, formats and headers\<close>


text \<open>
  The printed form of a user does not depend on the password, and it does
  not depend on the symbols either: the field labelled with them shows the accounts.
\<close>

theorem format_user_masks:
  "format_user (u\<lparr>u_password := p, u_symbols_regex := symbols\<rparr>) = format_user u"
  by (simp add: format_user_def)

lemma seq_verdict_exact:
  assumes "previous \<noteq> - 1"
  shows "seq_verdict current previous =
    (if unat current = unat previous + 1 then In_sequence
     else if unat current > unat previous + 1
       then Sequence_gap current previous (word_of_nat (unat current - unat previous))
     else Sequence_replay current previous (word_of_nat (unat previous - unat current)))"
proof -
  have next_num: "unat (previous + 1) = unat previous + 1"
    using assms by (metis Suc_eq_plus1 add.commute unatSuc word_neq_0_conv add_eq_0_iff)
  have eq: "current = previous + 1 \<longleftrightarrow> unat current = unat previous + 1"
    by (metis next_num word_eq_iff_unsigned)
  have less: "previous + 1 < current \<longleftrightarrow> unat previous + 1 < unat current"
    by (simp only: word_less_nat_alt next_num)
  have diff: "a - b = word_of_nat (unat a - unat b)" if "unat b \<le> unat a" for a b :: u64
    using of_nat_diff [OF that, where 'a = "64 word"] by simp
  consider "unat current = unat previous + 1" | "unat current > unat previous + 1" | "unat current \<le> unat previous"
    by linarith
  then show ?thesis
  proof cases
    case 2
    with diff [of previous current] show ?thesis by (simp add: seq_verdict_def eq less)
  next
    case 3
    with diff [of current previous] show ?thesis by (simp add: seq_verdict_def eq less)
  qed (simp add: seq_verdict_def eq)
qed


text \<open>The session that accepting a first connection creates, after one message.\<close>

definition example_session :: session where
  "example_session = (Session_create example_settings 1)\<lparr>s_inbound_msg_seq_num := 5, s_comp_id := ''client''\<rparr>"


section \<open>Relations that the handlers respect\<close>

text \<open>Sessions only move forward, keep their name, and keep the counterparty they have.\<close>

definition session_evolves :: "session \<Rightarrow> session \<Rightarrow> bool" where
  "session_evolves s s' \<longleftrightarrow> s_session_id s' = s_session_id s \<and> s_name s' = s_name s \<and>
     s_state s \<le> s_state s' \<and> (s_comp_id s = [] \<or> s_comp_id s' = s_comp_id s)"

definition evolves :: "('p, 'q, 'b) world \<Rightarrow> ('p, 'q, 'b) world \<Rightarrow> bool" where
  "evolves w w' \<longleftrightarrow> (\<forall>sid s. find_session sid w = Some s \<longrightarrow>
     (\<exists>s'. find_session sid w' = Some s' \<and> session_evolves s s'))"

lemma session_evolves_trans: "session_evolves a b \<Longrightarrow> session_evolves b c \<Longrightarrow> session_evolves a c"
  by (auto simp: session_evolves_def)

lemma evolves_update:
  "find_session sid w = Some s \<Longrightarrow> session_evolves s (f s) \<Longrightarrow> evolves w (update_session sid f w)"
  by (auto simp: evolves_def find_update_session session_evolves_def)

lemma evolves_same: "(\<And>sid. find_session sid w' = find_session sid w) \<Longrightarrow> evolves w w'"
  by (simp add: evolves_def session_evolves_def)

lemma evolves_trans: "evolves u v \<Longrightarrow> evolves v w \<Longrightarrow> evolves u w"
  unfolding evolves_def by (blast intro: session_evolves_trans)

lemma evolves_retire: "evolves w (retire sid w)"
  by (auto simp: evolves_def find_retire session_evolves_def)

lemma evolves_send: "evolves w (send_step sid header reply runs answer w)"
  by (auto simp: evolves_def send_step_def find_update_session session_evolves_def)

interpretation progress: read_contract env evolves for env
proof unfold_locales
  show "evolves w (retire sid (emit (Connection_close sid) w))" for sid and w :: "('d, 'e, 'f) world"
    by (rule evolves_trans [OF evolves_same evolves_retire]) simp
  show "evolves u w" if "evolves u v" "evolves v w" for u v w :: "('d, 'e, 'f) world"
    using that by (rule evolves_trans)
  show "evolves w (send_step sid h reply runs answer (update_shared g w))"
    for sid h reply runs answer g and w :: "('d, 'e, 'f) world"
    by (rule evolves_trans [OF evolves_same evolves_send]) simp
qed (auto intro: evolves_same evolves_retire evolves_send evolves_update simp: session_evolves_def edit_of_def)

text \<open>The trivial relation: what is left is that handlers are calm and keep the sessions.\<close>

interpretation anything: read_contract env "\<lambda>_ _. True" for env
  by unfold_locales simp_all

text \<open>The bridge library cannot reach the shared state.\<close>

interpretation frozen: tell_contract env "\<lambda>w w'. w_shared w' = w_shared w" for env
  by unfold_locales (simp_all add: send_step_def)

text \<open>Parsing does not touch the buffers of the sessions.\<close>

definition same_buffers :: "('p, 'q, 'b) world \<Rightarrow> ('p, 'q, 'b) world \<Rightarrow> bool" where
  "same_buffers w w' \<longleftrightarrow>
     (\<forall>sid. map_option s_buffer (find_session sid w') = map_option s_buffer (find_session sid w))"

interpretation buffers: parse_contract env same_buffers for env
  by unfold_locales
    (auto simp: same_buffers_def send_step_def find_update_session find_retire edit_of_def option.map_comp comp_def)

lemma preservesD:
  "preserves env R w (Normal w') \<Longrightarrow> calm w' \<and> session_ids w' = session_ids w \<and> R w w'"
  "preserves env R w (Thrown e w') \<Longrightarrow> calm w' \<and> session_ids w' = session_ids w \<and> R w w'"
  by (simp_all add: kept_def)

text \<open>
  C15 (session_progress). While one message, disconnection or gateway event is handled no session
  disappears and none moves backward: the state only advances towards \<open>ZOMBIE\<close>, the name stays,
  and a counterparty once known stays.
\<close>

theorem session_progress:
  assumes "calm w" and "r = on_read env sid data w \<or> r = on_connection_lost env sid w \<or> r = tell_bridge env input w"
    and "sid \<in> set (session_ids w)" and "r = Normal w' \<or> r = Thrown e w'"
    and "find_session sid2 w = Some s"
  shows "\<exists>s'. find_session sid2 w' = Some s' \<and> s_state s \<le> s_state s' \<and> s_name s' = s_name s \<and>
    (s_comp_id s = [] \<or> s_comp_id s' = s_comp_id s)"
proof -
  have "preserves env evolves w r"
    using assms(1-3) progress.preserves_on_read progress.preserves_on_connection_lost
      progress.preserves_tell_bridge_if [OF assms(1) evolves_same] by fastforce
  with assms(4) have "evolves w w'" by (auto simp: kept_def)
  with assms(5) show ?thesis by (auto simp: evolves_def session_evolves_def)
qed

lemma example_init_calm: "calm example_init"
  by (simp add: example_init_def calm_init)

lemma example_calm: "calm example_world"
  using invariants.reachable_related [OF example_reachable example_init_calm] by simp

lemma example_sessions:
  "session_ids example_world = [1, 2]"
  "map_option s_state (find_session 1 example_world) = Some ZOMBIE"
  "map_option s_state (find_session 2 example_world) = Some WAITING_LOGON"
proof -
  note states = example_world_facts(4)
  have "map fst (map (\<lambda>(sid, s). (sid, s_state s)) (w_sessions example_world)) = [1, 2]"
    by (simp only: states) simp
  then show "session_ids example_world = [1, 2]" by (simp add: session_ids_def comp_def case_prod_unfold)
  have "map_option s_state (find_session sid example_world) = map_of [(1, ZOMBIE), (2, WAITING_LOGON)] sid" for sid
    by (simp only: find_session_def states [symmetric] map_of_map comp_def)
  then show "map_option s_state (find_session 1 example_world) = Some ZOMBIE"
    "map_option s_state (find_session 2 example_world) = Some WAITING_LOGON"
    by simp_all
qed

theorem session_progress_witness:
  "\<exists>s'. find_session 1 (example_world\<lparr>w_bridge := 5\<rparr>) = Some s' \<and> s_state s' = ZOMBIE"
proof -
  obtain s where s: "find_session 1 example_world = Some s" "s_state s = ZOMBIE"
    using example_sessions(2) by auto
  have run: "on_connection_lost (example_env\<lparr>e_bridge := \<lambda>_ _. Return 5\<rparr>) 1 example_world =
      Normal (emit (To_bridge (Bridge_disconnected 1)) example_world\<lparr>w_bridge := 5\<rparr>)"
    using s by (simp add: on_connection_lost_def make_zombie_calm [OF example_calm s(1)] tell_bridge_def)
  have "\<exists>s'. find_session 1 (emit (To_bridge (Bridge_disconnected 1)) example_world\<lparr>w_bridge := 5\<rparr>) = Some s' \<and>
      s_state s \<le> s_state s' \<and> s_name s' = s_name s \<and> (s_comp_id s = [] \<or> s_comp_id s' = s_comp_id s)"
    by (rule session_progress [where input = "Bridge_connected 1" and data = "[]", OF example_calm _ _ _ s(1)])
      (use run in \<open>auto simp: example_sessions\<close>)
  with s(2) show ?thesis by auto
qed

section \<open>Credentials\<close>

text \<open>
  C1 (credentials_accepted). For a configuration that loads, the controller accepts credentials
  exactly when some configured user has that name and component, the raw text is fresh, and the
  password is the one the authentication method expects for the user's secret; the strategy it
  returns is that user's.
\<close>

theorem credentials_accepted:
  assumes "Config_create clib cfg tab = Inr c"
    and "create_username_to_user cfg (cfg_users c) = Inr (e_username_to_user env)"
  shows "check_credentials env now cr = Inr (ERROR_UNDEFINED, strategy) \<longleftrightarrow>
    (\<exists>key user. (key, user) \<in> set (cfg_users c) \<and> u_username user = cr_username cr \<and>
       u_component user = cr_component cr \<and>
       auth_freshness (e_crypto_lib env) (e_crypto env) now (cr_raw_data cr) = Inr True \<and>
       cr_password cr = auth_token (e_crypto_lib env) (e_crypto env) (u_password user) (cr_raw_data cr) \<and>
       strategy = u_strategy_id user)"
proof -
  from config_directory [OF assms(1)] assms(2)
  have dir: "umap_find (e_username_to_user env) = map_of (map (\<lambda>(_, u). (u_username u, u)) (cfg_users c))"
    and named: "\<And>k u. (k, u) \<in> set (cfg_users c) \<Longrightarrow> umap_find (e_username_to_user env) (u_username u) = Some u"
    by auto
  have found: "umap_find (e_username_to_user env) uname = Some user \<longleftrightarrow>
      (\<exists>key. (key, user) \<in> set (cfg_users c) \<and> u_username user = uname)" for uname user
  proof
    assume "umap_find (e_username_to_user env) uname = Some user"
    then have "(uname, user) \<in> set (map (\<lambda>(_, u). (u_username u, u)) (cfg_users c))"
      unfolding dir by (rule map_of_SomeD)
    then show "\<exists>key. (key, user) \<in> set (cfg_users c) \<and> u_username user = uname" by force
  qed (use named in blast)
  have "check_credentials env now cr = Inr (ERROR_UNDEFINED, strategy) \<longleftrightarrow>
      (\<exists>user. umap_find (e_username_to_user env) (cr_username cr) = Some user \<and>
         u_component user = cr_component cr \<and>
         validate (e_crypto_lib env) (e_crypto env) now (cr_password cr) (u_password user) (cr_raw_data cr) = Inr True \<and>
         strategy = u_strategy_id user)"
    by (auto simp: check_credentials_def bind_result_eq_Inr split: option.splits if_splits)
  then show ?thesis
    unfolding found auth.check_accepts by blast
qed

theorem credentials_accepted_witness:
  "check_credentials example_env 0
     \<lparr>cr_component = ''fix-client'', cr_username = ''trader'', cr_password = ''secret'', cr_raw_data = []\<rparr> =
     Inr (ERROR_UNDEFINED, u_strategy_id example_user)"
proof -
  have dir: "create_username_to_user example_settings (cfg_users example_config) =
      Inr (e_username_to_user example_env)"
    by (simp add: create_username_to_user_def example_config_def add_to_directory_def example_settings_def
        default_settings_def example_user_def example_user_2_def umap_emplace_def insert_or_fatal_def
        example_env_def example_shared_def)
  show ?thesis
    unfolding credentials_accepted [OF example_config_loads dir]
    by (rule exI [of _ "''OM1''"], rule exI [of _ example_user])
      (simp add: example_config_def example_user_def example_env_def example_shared_def auth_freshness_def
        auth_token_def)
qed

text \<open>
  C27 (credentials_refused). A refusal names the first check that fails, in the order user name,
  component, password, and carries no strategy; a check that fails with an exception or a fault
  does so only for a known user with the right component.
\<close>

theorem credentials_refused:
  "(check_credentials env now cr = Inr (INVALID_USERNAME, k)) =
     (k = 0 \<and> umap_find (e_username_to_user env) (cr_username cr) = None) \<and>
   (check_credentials env now cr = Inr (INVALID_COMPONENT, k)) =
     (k = 0 \<and> (\<exists>user. umap_find (e_username_to_user env) (cr_username cr) = Some user \<and>
        cr_component cr \<noteq> u_component user)) \<and>
   (check_credentials env now cr = Inr (INVALID_PASSWORD, k)) =
     (k = 0 \<and> (\<exists>user fresh. umap_find (e_username_to_user env) (cr_username cr) = Some user \<and>
        cr_component cr = u_component user \<and>
        auth_freshness (e_crypto_lib env) (e_crypto env) now (cr_raw_data cr) = Inr fresh \<and>
        \<not> (fresh \<and> cr_password cr =
          auth_token (e_crypto_lib env) (e_crypto env) (u_password user) (cr_raw_data cr)))) \<and>
   (check_credentials env now cr = Inl f) =
     (\<exists>user. umap_find (e_username_to_user env) (cr_username cr) = Some user \<and>
        cr_component cr = u_component user \<and>
        auth_freshness (e_crypto_lib env) (e_crypto env) now (cr_raw_data cr) = Inl f)"
  by (cases "auth_freshness (e_crypto_lib env) (e_crypto env) now (cr_raw_data cr)")
    (auto simp: check_credentials_def auth.check_eq split: option.splits)

end
