(* ===== verification/Input_Properties.thy ===== *)
theory Input_Properties
  imports Session_Properties
begin

text \<open>
  What becomes of client input: which messages reach the bridge library, what is answered, how
  routes change, what is left in the buffer, and how errors end a session. The statements about
  answers assume a network that takes messages and encoders that do not throw
  (\<open>reliable\<close>), and a build without assertions.
\<close>

section \<open>A network that works\<close>

definition reliable :: "('p, 'q, 'b) env \<Rightarrow> bool" where
  "reliable env \<longleftrightarrow> \<not> e_asserts env \<and>
     (\<forall>tr sid. \<exists>ok. snd (e_connection_send env tr sid) = Inr ok) \<and>
     (\<forall>header reply. \<exists>message. e_encode env header reply = Inr message)"

lemma example_reliable: "reliable example_env"
  by (auto simp: reliable_def example_env_def)

text \<open>The messages that were handed to the connection of a session.\<close>

fun value_sent :: "u64 \<Rightarrow> ('p, 'q) effect \<Rightarrow> 'q out_msg list" where
  "value_sent sid (Sent sid2 header reply runs answer) = (if sid2 = sid then [reply] else [])"
| "value_sent sid _ = []"

definition values_to :: "u64 \<Rightarrow> ('p, 'q) effect list \<Rightarrow> 'q out_msg list" where
  "values_to sid tr = concat (map (value_sent sid) tr)"

text \<open>What the bridge library was told.\<close>

fun told :: "('p, 'q) effect \<Rightarrow> 'p bridge_input list" where
  "told (To_bridge input) = [input]"
| "told _ = []"

definition inputs :: "('p, 'q) effect list \<Rightarrow> 'p bridge_input list" where
  "inputs tr = concat (map told tr)"

lemma values_to_snoc [simp]: "values_to sid (tr @ [e]) = values_to sid tr @ value_sent sid e"
  by (simp add: values_to_def)

lemma inputs_snoc [simp]: "inputs (tr @ [e]) = inputs tr @ told e"
  by (simp add: inputs_def)

lemma fix_log_simps [simp]:
  "find_session sid2 (fix_log env dir sid message w) = find_session sid2 w"
  "w_shared (fix_log env dir sid message w) = w_shared w"
  "session_ids (fix_log env dir sid message w) = session_ids w"
  "w_bridge (fix_log env dir sid message w) = w_bridge w"
  "sent_to sid2 (w_trace (fix_log env dir sid message w)) = sent_to sid2 (w_trace w)"
  "values_to sid2 (w_trace (fix_log env dir sid message w)) = values_to sid2 (w_trace w)"
  "inputs (w_trace (fix_log env dir sid message w)) = inputs (w_trace w)"
  by (simp_all add: fix_log_def Let_def)

text \<open>A message is then sent under the next number, and nothing else changes.\<close>

lemma send_reliable:
  assumes rel: "reliable env" and s: "find_session sid w = Some s"
  shows "\<exists>w'. send env sid reply w = Normal w' \<and> session_ids w' = session_ids w \<and>
    w_shared w' = w_shared w \<and> w_bridge w' = w_bridge w \<and>
    (\<forall>sid2. find_session sid2 w' =
       (if sid2 = sid then Some (s\<lparr>s_outbound_msg_seq_num := s_outbound_msg_seq_num s + 1\<rparr>)
        else find_session sid2 w)) \<and>
    (\<forall>sid2. sent_to sid2 (w_trace w') = sent_to sid2 (w_trace w) @
       (if sid2 = sid then [outbound_header env s reply (e_realtime env (w_trace w))] else [])) \<and>
    (\<forall>sid2. values_to sid2 (w_trace w') = values_to sid2 (w_trace w) @ (if sid2 = sid then [reply] else [])) \<and>
    inputs (w_trace w') = inputs (w_trace w)"
proof -
  let ?h = "outbound_header env s reply (e_realtime env (w_trace w))"
  from rel obtain ok where ok: "snd (e_connection_send env (w_trace w) sid) = Inr ok"
    unfolding reliable_def by blast
  from rel obtain message where enc: "e_encode env ?h reply = Inr message"
    unfolding reliable_def by blast
  have "\<not> e_asserts env" using rel by (simp add: reliable_def)
  with s ok enc show ?thesis
    by (cases "fst (e_connection_send env (w_trace w) sid)")
      (simp_all add: send_def send_helper_def with_session_def cassert_def Let_def send_step_def
        find_update_session outbound_header_def)
qed

section \<open>Which messages reach the bridge library\<close>

text \<open>
  Every decoder belongs to exactly one message type, and a message of that
  type is decoded by it and handed to the bridge library once, with its header and the session;
  when the decoder throws, the exception goes on and nothing has happened.
\<close>

theorem switch_complete:
  "(\<exists>!t. codec_of t = Some codec) \<and>
   (codec_of (h_msg_type (fm_header message)) = Some codec \<longrightarrow>
      parse_helper env sid message w =
        (case e_decode env codec message of
           Inl e \<Rightarrow> Thrown e w
         | Inr decoded \<Rightarrow> tell_bridge env (Client_message codec decoded (fm_header message) sid) w))"
proof
  have inj: "codec_of t = Some codec \<Longrightarrow> codec_of t2 = Some codec \<Longrightarrow> t = t2" for t t2
    by (cases t; cases t2) auto
  have "\<exists>t. codec_of t = Some codec"
    by (cases codec) (blast intro: codec_of.simps)+
  with inj show "\<exists>!t. codec_of t = Some codec" by blast
qed (simp add: parse_helper_def split: sum.splits)

theorem switch_complete_witness:
  "parse_helper example_env 1 (frame_message 1 9) example_world =
     tell_bridge example_env (Client_message In_Logon () (fm_header (frame_message 1 9)) 1) example_world"
  using switch_complete [of In_Logon "frame_message 1 9" example_env 1 example_world]
  by (simp add: frame_message_def frame_type_def example_env_def)

text \<open>
  C28 (unknown_type_rejected). A message of a type the switch does not name is answered with one
  business message reject that quotes its number and type; the bridge library is not told, and
  neither routes nor any other session are touched.
\<close>

theorem unknown_type_rejected:
  assumes "reliable env" and "find_session sid w = Some s"
    and "codec_of (h_msg_type (fm_header message)) = None" and "h_msg_type (fm_header message) \<noteq> USER_REQUEST"
  shows "\<exists>w'. parse_helper env sid message w = Normal w' \<and>
    values_to sid (w_trace w') = values_to sid (w_trace w) @
      [Business_message_reject_msg (h_msg_seq_num (fm_header message)) (h_msg_type (fm_header message)) []
         UNSUPPORTED_MESSAGE_TYPE ''UNEXPECTED_MSG_TYPE''] \<and>
    inputs (w_trace w') = inputs (w_trace w) \<and> w_shared w' = w_shared w \<and>
    (\<forall>sid2. sid2 \<noteq> sid \<longrightarrow> find_session sid2 w' = find_session sid2 w \<and>
       sent_to sid2 (w_trace w') = sent_to sid2 (w_trace w))"
  using send_reliable [OF assms(1), of sid "emit (Unexpected_msg_type sid (h_msg_type (fm_header message))) w" s
      "business_message_reject (fm_header message)"] assms(2-4)
  by (auto simp: parse_helper_def Let_def business_message_reject_def get_text_def)

theorem unknown_type_rejected_witness:
  "\<exists>w'. parse_helper example_env 2 (frame_message 77 9) example_world = Normal w' \<and>
     values_to 2 (w_trace w') = values_to 2 (w_trace example_world) @
       [Business_message_reject_msg 9 (OTHER_MSG_TYPE 77) [] UNSUPPORTED_MESSAGE_TYPE ''UNEXPECTED_MSG_TYPE'']"
proof -
  obtain s where s: "find_session 2 example_world = Some s" using example_sessions(3) by auto
  have "codec_of (h_msg_type (fm_header (frame_message 77 9))) = None"
    "h_msg_type (fm_header (frame_message 77 9)) \<noteq> USER_REQUEST"
    by (simp_all add: frame_message_def frame_type_def)
  from unknown_type_rejected [OF example_reliable s this] show ?thesis
    by (auto simp: frame_message_def frame_type_def)
qed

section \<open>Zombies, errors and the rest of the buffer\<close>

text \<open>
  Whatever still arrives for a session that is a zombie is dropped unread, in
  any number of chunks: nothing is parsed, logged, answered or stored.
\<close>

theorem zombie_deaf:
  assumes "is_zombie sid w"
  shows "drain env (map (Io_read sid) chunks) w = Normal w"
proof -
  obtain s where s: "find_session sid w = Some s" "s_state s = ZOMBIE"
    using assms by (auto simp: is_zombie_def)
  have "on_io_event env (Io_read sid data) w = Normal w" for data
    using s by (simp add: get_session_def on_read_def with_session_def)
  then have "for_each (on_io_event env) (map (Io_read sid) chunks) w = Normal w"
    by (induction chunks) (simp_all del: on_io_event.simps)
  then show ?thesis by (simp add: drain_def)
qed

theorem zombie_deaf_witness:
  "drain example_env [Io_read 1 [1, 1], Io_read 1 [4, 2, 4]] example_world = Normal example_world"
  using zombie_deaf [of 1 example_world example_env "[[1, 1], [4, 2, 4]]"] example_sessions(2)
  by (simp add: is_zombie_def)

text \<open>The state and the buffer with which the loop starts.\<close>

definition read_start :: "u64 \<Rightarrow> session \<Rightarrow> bytes \<Rightarrow> ('p, 'q, 'b) world \<Rightarrow> ('p, 'q, 'b) world" where
  "read_start sid s data w = update_session sid (\<lambda>s'. s'\<lparr>s_buffer := s_buffer s @ data\<rparr>) w"

lemma kept_read_start:
  assumes "calm w" and "find_session sid w = Some s"
  shows "calm (read_start sid s data w)" and "session_ids (read_start sid s data w) = session_ids w"
    and "find_session sid (read_start sid s data w) = Some (s\<lparr>s_buffer := s_buffer s @ data\<rparr>)"
  using assms by (auto simp: read_start_def calm_def find_update_session split: if_splits)

lemma on_read_start:
  assumes "find_session sid w = Some s" and "s_state s \<noteq> ZOMBIE"
  shows "on_read env sid data w =
    (case read_loop env sid (s_buffer s @ data) 0 (read_start sid s data w) of
       Normal (w, n) \<Rightarrow> Normal (update_session sid (\<lambda>s. s\<lparr>s_buffer := drop n (s_buffer s)\<rparr>) w)
     | Thrown e (w, n) \<Rightarrow> if e = Foreign_exception then Aborted Terminated else close env sid w
     | Aborted x \<Rightarrow> Aborted x)"
  using assms by (simp add: on_read_def with_session_def read_start_def Let_def)

text \<open>Closing a calm session ends in a zombie and never throws.\<close>

lemma close_zombie:
  assumes "calm w" and "sid \<in> set (session_ids w)"
  shows "\<exists>w'. close env sid w = Normal w' \<and> is_zombie sid w' \<and> w_shared w' = w_shared w"
proof -
  obtain s where s: "find_session sid w = Some s" using assms(2) by (auto simp: live_iff)
  show ?thesis
    using close_calm [OF assms(1) s, of env] s
    by (auto simp: is_zombie_def find_retire)
qed



text \<open>
  What is left after the loop: the bytes consumed are a prefix, and the reader stopped because
  there was nothing left, because it found no complete message in the rest, or because the
  session had become a zombie.
\<close>

lemma read_loop_rest:
  "read_loop env sid buffer t w = Normal (w', n) \<Longrightarrow>
   t \<le> n \<and> n - t \<le> length buffer \<and>
   (drop (n - t) buffer = [] \<or> snd (e_reader env (drop (n - t) buffer)) = Inr 0 \<or> is_zombie sid w')"
proof (induction buffer arbitrary: t w rule: length_induct)
  case (1 buffer)
  let ?m = "bytes_of (snd (e_reader env buffer))"
  show ?case
  proof (cases "buffer = []")
    case True
    with "1.prems" show ?thesis by (simp add: read_loop.simps)
  next
    case False
    with "1.prems" obtain v where v: "reader_dispatch env sid buffer w = Normal v"
      and loop: "(if ?m = 0 then Normal (v, t)
        else if ?m > length buffer then Aborted (if e_asserts env then Assertion_failed else Undefined_behaviour)
        else if is_zombie sid v then Normal (v, t + ?m)
        else read_loop env sid (drop ?m buffer) (t + ?m) v) = Normal (w', n)"
      by (subst (asm) read_loop.simps) (auto simp: Let_def split: outcome.splits)
    have ret: "\<exists>k. snd (e_reader env buffer) = Inr k"
      using v by (auto simp: reader_dispatch_def seq_def split: sum.splits elim!: then_do.elims)
    show ?thesis
    proof (cases "?m = 0 \<or> is_zombie sid v \<or> ?m > length buffer")
      case True
      with loop ret show ?thesis by (auto simp: bytes_of_def split: if_splits)
    next
      case rec: False
      then have "read_loop env sid (drop ?m buffer) (t + ?m) v = Normal (w', n)" using loop by simp
      moreover have "length (drop ?m buffer) < length buffer" using rec False by simp
      ultimately have "t + ?m \<le> n \<and> n - (t + ?m) \<le> length (drop ?m buffer) \<and>
          (drop (n - (t + ?m)) (drop ?m buffer) = [] \<or>
           snd (e_reader env (drop (n - (t + ?m)) (drop ?m buffer))) = Inr 0 \<or> is_zombie sid w')"
        using "1.IH" by blast
      with rec show ?thesis by (auto simp: algebra_simps)
    qed
  qed
qed


definition example_read :: "(unit, unit, nat) world" where
  "example_read = result_of (on_read example_env 2 [1, 1, 4] example_world) example_world"

lemma example_read_facts:
  "is_normal (on_read example_env 2 [1, 1, 4] example_world)" "\<not> is_zombie 2 example_read"
  "map_option s_buffer (find_session 2 example_world) = Some []"
  by code_simp+

lemma e_reader_example: "e_reader example_env = frame_reader"
  by (simp add: example_env_def)


section \<open>Routes on request\<close>

text \<open>
  C12 (user_request_routes). A user request is carried out on the route table and answered
  with one user response, exactly as on the abstract table, once the bridge library has returned
  from being told. Nothing of what the library did matters, and neither does the state of
  the session, whether it has logged on, the flag for routing by strategy, or whether the
  strategy is zero.
\<close>

theorem user_request_routes:
  assumes "reliable env" and "calm w" and "sid \<in> set (session_ids w)" and "routes_wf (w_shared w)"
    and "tell_bridge env (Client_user_request ur header sid) w = Normal v"
    and "e_strategy_id env (ur_username ur) = Inr k"
  shows "\<exists>w'. on_user_request env sid ur header w = Normal w' \<and>
    (route_owner (w_shared w'), values_to sid (w_trace w')) =
      (case user_request_spec (ur_user_request_type ur) sid k (route_owner (w_shared w)) of
         (table, status, status_text) \<Rightarrow> (table, values_to sid (w_trace v) @
           [User_response_msg (ur_user_request_id ur) (ur_username ur) status status_text]))"
proof -
  have "session_ids v = session_ids w" "w_shared v = w_shared w"
    using anything.preserves_tell_bridge [OF assms(2), of "Client_user_request ur header sid" env]
      frozen.preserves_tell_bridge [OF assms(2), of "Client_user_request ur header sid" env]
    by (simp_all add: assms(3,5) kept_def)
  then have live: "sid \<in> set (session_ids v)" and sh: "w_shared v = w_shared w"
    using assms(3) by simp_all
  from live obtain s where s: "find_session sid v = Some s" by (auto simp: live_iff)
  have answered: "\<exists>w'. send env sid reply (update_shared g v) = Normal w' \<and>
      w_shared w' = g (w_shared w) \<and> values_to sid (w_trace w') = values_to sid (w_trace v) @ [reply]" for reply g
    using send_reliable [OF assms(1), of sid "update_shared g v" s reply] s by (auto simp: sh)
  have plain: "\<exists>w'. send env sid reply v = Normal w' \<and>
      w_shared w' = w_shared w \<and> values_to sid (w_trace w') = values_to sid (w_trace v) @ [reply]" for reply
    using send_reliable [OF assms(1) s, of reply] by (auto simp: sh)
  note add = add_route_owner [of sid k "w_shared w"] and remove = remove_route_owner [of sid k "w_shared w"]
  show ?thesis
  proof (cases "ur_user_request_type ur")
    case LOG_OFF_USER
    then show ?thesis
      using answered [of _ "\<lambda>sh. fst (remove_route sid k sh)"] remove
      by (fastforce simp: on_user_request_def assms(5,6) user_request_spec_def user_response_def Let_def sh)
  qed (use answered [of _ "\<lambda>sh. fst (add_route sid k sh)"] plain add in
      \<open>fastforce simp: on_user_request_def assms(5,6) user_request_spec_def user_response_def Let_def sh
        get_text_def\<close>)+
qed

lemma example_world_ok: "world_ok example_world"
proof -
  have "routes_wf example_shared"
    using example_shared_created by (rule Shared_create_routes)
  then have "world_ok example_init" by (simp add: example_init_def world_ok_init)
  with invariants.reachable_related [OF example_reachable example_init_calm] show ?thesis
    by (simp add: keeps_def)
qed

text \<open>The first session owns strategy 7 and is a zombie; the second asks for the same strategy.\<close>

theorem user_request_routes_witness:
  "\<exists>w'. on_user_request example_env 2 \<lparr>ur_user_request_id = ''r2'', ur_username = ''7'',
       ur_user_request_type = LOG_ON_USER\<rparr> (fm_header (frame_message 3 2)) example_world = Normal w' \<and>
     route_owner (w_shared w') 7 = Some 1 \<and>
     last (values_to 2 (w_trace w')) = User_response_msg ''r2'' ''7'' OTHER_USER_STATUS []"
proof -
  let ?ur = "\<lparr>ur_user_request_id = ''r2'', ur_username = ''7'', ur_user_request_type = LOG_ON_USER\<rparr>"
  have live: "2 \<in> set (session_ids example_world)" by (simp add: example_sessions)
  have wf: "routes_wf (w_shared example_world)" using example_world_ok by (simp add: world_ok_def)
  have run: "tell_bridge example_env (Client_user_request ?ur (fm_header (frame_message 3 2)) 2) example_world =
      Normal (emit (To_bridge (Client_user_request ?ur (fm_header (frame_message 3 2)) 2)) example_world
        \<lparr>w_bridge := w_bridge example_world\<rparr>)"
    by (simp add: tell_bridge_def example_env_def)
  have k: "e_strategy_id example_env (ur_username ?ur) = Inr 7"
    by (simp add: example_env_def read_nat_def)
  have owner: "route_owner (w_shared example_world) 7 = Some 1"
    by (simp add: route_owner_def example_world_facts)
  show ?thesis
    using user_request_routes [OF example_reliable example_calm live wf run k] owner
    by (auto simp: user_request_spec_def)
qed

end
