(* ===== verification/Bridge_Safety.thy ===== *)
theory Bridge_Safety
  imports Input_Properties
begin

text \<open>
  Properties of every reachable state and of every event: numbering, the ends of sessions, the
  cleanup, what a disconnect does and does not do, and which faults are possible.
\<close>

section \<open>Reachable states\<close>

lemma reachable_ok:
  assumes "Shared_create compile cfg c n = Inr sh" and "reachable env (initial_world b sh) w"
  shows "calm w" and "world_ok w"
  using invariants.reachable_related [OF assms(2) calm_init] Shared_create_routes(1) [OF assms(1)]
  by (simp_all add: keeps_def world_ok_init)

lemma example_reachable_init: "reachable example_env (initial_world 0 example_shared) example_world"
  using example_reachable by (simp add: example_init_def)

text \<open>
  C2 (sequence_numbers). In every reachable state, until the counter of sessions wraps around,
  the messages that were handed to the connection of a session carry the numbers 1, 2, 3 and so
  on without gap or repetition (modulo 2^64), whether or not the connection took them, and the
  session's counter stands at the last of them.
\<close>

theorem sequence_numbers:
  assumes "Shared_create compile cfg c n = Inr sh" and "reachable env (initial_world b sh) w"
    and "accepted (w_trace w) < 2 ^ 64"
  shows "map h_msg_seq_num (sent_to sid (w_trace w)) = map word_of_nat [1..<Suc (length (sent_to sid (w_trace w)))] \<and>
    (\<forall>s. find_session sid w = Some s \<longrightarrow> s_outbound_msg_seq_num s = word_of_nat (length (sent_to sid (w_trace w))))"
  using world_okD(2) [OF reachable_ok(2) [OF assms(1,2)] assms(3), of sid]
  by (simp only: numbered_def consecutive_def) blast

theorem sequence_numbers_witness:
  "map h_msg_seq_num (sent_to 1 (w_trace example_world)) = map word_of_nat [1..<Suc (length (sent_to 1 (w_trace example_world)))] \<and>
   length (sent_to 1 (w_trace example_world)) = 3"
proof -
  have "accepted (w_trace example_world) < 2 ^ 64" by (simp add: example_world_facts)
  moreover have "length (sent_to 1 (w_trace example_world)) = 3"
    using arg_cong [OF example_world_facts(2), of length] by simp
  ultimately show ?thesis
    using sequence_numbers [OF example_shared_created example_reachable_init, of 1] by blast
qed

text \<open>
  C7 (zombies_told_once). In every reachable state the list of zombies holds exactly the sessions
  whose state is \<open>ZOMBIE\<close>, each once; the logout of a session was told exactly once if it is
  a zombie or already removed and not at all if it is alive or was never connected; and its
  connection was closed at most once, and never without the logout.
\<close>

theorem zombies_told_once:
  assumes "Shared_create compile cfg c n = Inr sh" and "reachable env (initial_world b sh) w"
    and "accepted (w_trace w) < 2 ^ 64"
  shows "distinct (w_zombies w) \<and>
    (sid \<in> set (w_zombies w)) = (map_option s_state (find_session sid w) = Some ZOMBIE) \<and>
    logouts sid (w_trace w) =
      (if 1 \<le> unat sid \<and> unat sid \<le> accepted (w_trace w) \<and>
          (find_session sid w = None \<or> map_option s_state (find_session sid w) = Some ZOMBIE) then 1 else 0) \<and>
    closes sid (w_trace w) \<le> logouts sid (w_trace w)"
proof -
  note ok = reachable_ok(2) [OF assms(1,2)]
  from world_okD(4) [OF ok assms(3), of sid] world_okD(3) [OF ok assms(3)] show ?thesis
    by (simp add: told_once_def) (simp add: ended_def is_zombie_def)
qed

theorem zombies_told_once_witness:
  "w_zombies example_world = [1] \<and> logouts 1 (w_trace example_world) = 1 \<and> logouts 2 (w_trace example_world) = 0"
  using zombies_told_once [OF example_shared_created example_reachable_init, of 1]
    zombies_told_once [OF example_shared_created example_reachable_init, of 2] example_sessions
  by (auto simp: example_world_facts)

section \<open>Accepting and removing sessions\<close>

text \<open>
  C21 (accept_fresh). In every reachable state, as long as the counter does not wrap around, a new
  connection gets an identifier that no session has or had: nothing was ever sent to it or told
  about it. The assertion of \<open>add_session\<close> holds, the new session starts waiting for a logon
  with both numbers at zero, the others stay as they are, and then the bridge library is told.
\<close>

theorem accept_fresh:
  assumes "Shared_create compile cfg c n = Inr sh" and "reachable env (initial_world b sh) w"
    and "accepted (w_trace w) + 1 < 2 ^ 64"
  shows "let sid = w_next_session_id w + 1 in
    find_session sid w = None \<and> sent_to sid (w_trace w) = [] \<and> logouts sid (w_trace w) = 0 \<and>
    on_accept env w = tell_bridge env (Bridge_connected sid) (connect_step env w) \<and>
    find_session sid (connect_step env w) = Some (Session_create (e_settings env) sid) \<and>
    (\<forall>sid2. sid2 \<noteq> sid \<longrightarrow> find_session sid2 (connect_step env w) = find_session sid2 w)"
proof -
  let ?sid = "w_next_session_id w + 1"
  note ok = reachable_ok(2) [OF assms(1,2)]
  have bound: "accepted (w_trace w) < 2 ^ 64" using assms(3) by simp
  note fresh = fresh_session [OF world_okD(1) [OF ok bound] assms(3)]
  have "sent_to ?sid (w_trace w) = []"
    using world_okD(2) [OF ok bound, of ?sid] fresh(1) by (simp add: numbered_def)
  moreover have "logouts ?sid (w_trace w) = 0"
    using world_okD(4) [OF ok bound, of ?sid] fresh(1) by (simp add: told_once_def ended_def)
  ultimately show ?thesis
    using fresh(2) by (simp add: Let_def on_accept_split find_connect_step)
qed

theorem accept_fresh_witness:
  "find_session (w_next_session_id example_world + 1) example_world = None \<and>
   on_accept example_env example_world =
     tell_bridge example_env (Bridge_connected (w_next_session_id example_world + 1)) (connect_step example_env example_world)"
  using accept_fresh [OF example_shared_created example_reachable_init]
  by (simp add: example_world_facts Let_def)

text \<open>
  C20 (cleanup_exact). In every reachable state a timer event that is due removes exactly the
  zombies, passes the assertion of \<open>remove_session\<close> each time, empties the list, and puts the
  next cleanup one second after it; one that is not due changes nothing.
\<close>

theorem cleanup_exact:
  assumes "Shared_create compile cfg c n = Inr sh" and "reachable env (initial_world b sh) w"
    and "accepted (w_trace w) < 2 ^ 64"
  shows "\<exists>w'. on_timer env now w = Normal w' \<and> w_trace w' = w_trace w \<and> w_shared w' = w_shared w \<and>
    (if w_next_cleanup w < now
     then w_zombies w' = [] \<and> w_next_cleanup w' = now + 1000000000 \<and>
       (\<forall>sid. find_session sid w' =
          (if map_option s_state (find_session sid w) = Some ZOMBIE then None else find_session sid w))
     else w' = w)"
proof (cases "w_next_cleanup w < now")
  case True
  note ok = reachable_ok(2) [OF assms(1,2)]
  have zombie: "sid \<in> set (w_zombies w) \<longleftrightarrow> map_option s_state (find_session sid w) = Some ZOMBIE" for sid
    using world_okD(4) [OF ok assms(3), of sid] by (simp add: told_once_def is_zombie_def)
  let ?w = "w\<lparr>w_next_cleanup := now + CLEANUP_FREQUENCY\<rparr>"
  have "find_session z ?w \<noteq> None" if "z \<in> set (w_zombies w)" for z
    using that zombie by auto
  then have "on_timer env now w = Normal (cleanup_step (now + CLEANUP_FREQUENCY) w)"
    using True for_each_remove_present [OF world_okD(3) [OF ok assms(3)], of ?w env]
    by (auto simp: on_timer_def remove_zombies_def cleanup_step_def)
  then show ?thesis
    using True zombie by (auto simp: find_cleanup_step CLEANUP_FREQUENCY_def)
qed (simp add: on_timer_def)

theorem cleanup_exact_witness:
  "\<exists>w'. on_timer example_env 5 example_world = Normal w' \<and> find_session 1 w' = None \<and>
     find_session 2 w' = find_session 2 example_world"
proof -
  have "w_next_cleanup example_world = 0" by code_simp
  then show ?thesis
    using cleanup_exact [OF example_shared_created example_reachable_init, of 5] example_sessions
    by (auto simp: example_world_facts)
qed

section \<open>Faults\<close>


lemma example_safe: "safe_libraries example_env"
proof -
  have "n \<le> length buf" if "frame_reader buf = (calls, Inr n)" for buf calls n
    using that by (cases buf rule: frame_reader.cases) auto
  then show ?thesis
    by (simp add: safe_libraries_def e_reader_example) (simp add: example_env_def example_shared_def)
qed


section \<open>What a disconnect does\<close>

text \<open>No cancellation of a session's orders has been asked for.\<close>

fun cancels :: "('p, 'q) effect \<Rightarrow> bool" where
  "cancels (Request (Send_cancel_all _ _) _) \<longleftrightarrow> True"
| "cancels _ \<longleftrightarrow> False"

definition no_cancels :: "('p, 'q, 'b) world \<Rightarrow> bool" where
  "no_cancels w \<longleftrightarrow> list_all (\<lambda>e. \<not> cancels e) (w_trace w)"

lemma plain_no_cancel: "plain e \<Longrightarrow> \<not> cancels e"
  by (cases e rule: cancels.cases) simp_all

interpretation quiet: event_contract env "keeps no_cancels" for env
  by unfold_locales (auto simp: keeps_def no_cancels_def send_step_def plain_no_cancel)

text \<open>
  C14 (disconnect_cleans_nothing). In no reachable state is a session \<open>READY\<close>, since no code makes
  it so; therefore the branch of \<open>make_zombie\<close> for such sessions never runs. Whatever the
  setting \<open>cancel_on_disconnect\<close>, no session ever asks a gateway to cancel its orders (only the
  bridge library can, by a broadcast to all gateways), and when a session's connection is lost
  the routes stay as they are.
\<close>

theorem disconnect_cleans_nothing:
  assumes "Shared_create compile cfg c n = Inr sh" and "reachable env (initial_world b sh) w"
  shows "(\<forall>sid. map_option s_state (find_session sid w) \<noteq> Some READY) \<and>
    list_all (\<lambda>e. \<forall>ca source answer. e \<noteq> Request (Send_cancel_all ca source) answer) (w_trace w) \<and>
    (\<forall>sid w'. sid \<in> set (session_ids w) \<longrightarrow>
       on_connection_lost env sid w = Normal w' \<or> on_connection_lost env sid w = Thrown e w' \<longrightarrow>
       w_shared w' = w_shared w)"
proof -
  note calm = reachable_ok(1) [OF assms]
  have "no_cancels w"
    using quiet.reachable_related [OF assms(2) calm_init]
    by (simp add: keeps_def no_cancels_def initial_world_def)
  then have "list_all (\<lambda>e. \<forall>ca source answer. e \<noteq> Request (Send_cancel_all ca source) answer) (w_trace w)"
    by (auto simp: no_cancels_def list_all_iff)
  moreover have "preserves env (\<lambda>w w'. w_shared w' = w_shared w) w (on_connection_lost env sid w)"
    if "sid \<in> set (session_ids w)" for sid
    unfolding on_connection_lost_def using calm that
    by (intro frozen.preserves_seq frozen.preserves_make_zombie frozen.preserves_tell_bridge) simp_all
  ultimately show ?thesis
    using calm by (fastforce simp: calm_def kept_def)
qed

theorem disconnect_cleans_nothing_witness:
  "\<exists>w'. on_connection_lost example_env 2 example_world = Normal w' \<and> w_shared w' = w_shared example_world"
proof -
  have "is_normal (on_connection_lost example_env 2 example_world)" by code_simp
  from result_of [OF this] show ?thesis
    using disconnect_cleans_nothing [OF example_shared_created example_reachable_init]
    by (metis example_sessions(1) list.set_intros)
qed

text \<open>A removed session that owns a strategy.\<close>

definition dead_owner :: "u64 \<Rightarrow> u32 \<Rightarrow> ('p, 'q, 'b) world \<Rightarrow> bool" where
  "dead_owner sid k w \<longleftrightarrow> world_ok w \<and>
     (accepted (w_trace w) < 2 ^ 64 \<longrightarrow> find_session sid w = None \<and> 1 \<le> unat sid \<and>
        unat sid \<le> accepted (w_trace w) \<and> route_owner (w_shared w) k = Some sid)"

lemma dead_owner_step:
  assumes "dead_owner sid k w" and "world_ok w \<Longrightarrow> world_ok w'" and "accepted (w_trace w) \<le> accepted (w_trace w')"
    and "accepted (w_trace w') < 2 ^ 64 \<Longrightarrow> find_session sid w = None \<Longrightarrow>
      unat sid \<le> accepted (w_trace w) \<Longrightarrow> find_session sid w' = None"
    and "find_session sid w = None \<Longrightarrow> route_owner (w_shared w) k = Some sid \<Longrightarrow>
      route_owner (w_shared w') k = Some sid"
  shows "dead_owner sid k w'"
  using assms unfolding dead_owner_def by fastforce

lemma dead_owner_connect:
  assumes "dead_owner sid k w"
  shows "dead_owner sid k (connect_step env w)"
proof (rule dead_owner_step [OF assms])
  have ok: "world_ok w" using assms by (simp add: dead_owner_def)
  assume bound: "accepted (w_trace (connect_step env w)) < 2 ^ 64" and "unat sid \<le> accepted (w_trace w)"
    and none: "find_session sid w = None"
  then have "unat (w_next_session_id w + 1) \<noteq> unat sid"
    using fresh_session(1) [OF world_okD(1) [OF ok]] by simp
  with none show "find_session sid (connect_step env w) = None" by (auto simp: find_connect_step)
qed (simp_all add: world_ok_connect)

lemma dead_owner_told: "dead_owner sid k w \<Longrightarrow> dead_owner sid k (emit (To_bridge input) w)"
  by (simp add: dead_owner_def world_ok_emit)

text \<open>The steps keep \<open>world_ok\<close>, in the form in which the rule above asks for it.\<close>

lemmas steps_ok =
  invariants.rel_emit [unfolded keeps_def, rule_format]
  invariants.rel_tell [unfolded keeps_def, rule_format]
  invariants.rel_send [unfolded keeps_def, rule_format]
  invariants.rel_retire [unfolded keeps_def, rule_format]
  invariants.rel_close [unfolded keeps_def, rule_format]
  invariants.rel_bridge [unfolded keeps_def, rule_format]
  invariants.rel_edit [unfolded keeps_def, rule_format]
  invariants.rel_buffer [unfolded keeps_def, rule_format]
  invariants.rel_answer [unfolded keeps_def, rule_format]
  invariants.rel_cleanup [unfolded keeps_def, rule_format]

lemma accepted_two: "accepted (tr @ [e1, e2]) = accepted tr + accepted [e1, e2]"
  by (simp add: accepted_def)

lemma send_step_simps [simp]:
  "accepted (w_trace (send_step sid header reply runs answer w)) = accepted (w_trace w)"
  "w_shared (send_step sid header reply runs answer w) = w_shared w"
  by (simp_all add: send_step_def)

lemma find_send_step:
  "find_session sid2 w = None \<Longrightarrow> find_session sid2 (send_step sid header reply runs answer w) = None"
  by (auto simp: send_step_def find_update_session)

text \<open>A request of another session does not change who owns the strategy.\<close>

lemma request_route_dead:
  assumes "find_session sid2 w = Some s" and "request_route sid2 k2 t (w_shared w) = (sh, status, status_text)"
    and "find_session sid w = None" and "route_owner (w_shared w) k = Some sid"
  shows "route_owner sh k = Some sid"
proof -
  have "sid2 \<noteq> sid" using assms(1,3) by auto
  with assms(2,4) show ?thesis
    by (auto simp: request_route_def add_route_owner remove_route_owner split: if_splits)
qed

interpretation owners: event_contract env "keeps (dead_owner sid k)" for env sid k
proof unfold_locales
  show "keeps (dead_owner sid k) w (emit (To_bridge (Bridge_connected (w_next_session_id w + 1))) (connect_step env w))"
    for w :: "('a, 'b, 'c) world"
    by (simp add: keeps_def dead_owner_told dead_owner_connect)
qed (auto simp: keeps_def find_retire find_update_session find_cleanup_step find_send_step accepted_two
    plain_silent elim!: dead_owner_step intro: steps_ok request_route_dead)

text \<open>
  C10 (dead_session_keeps_route). Once a session that owns a strategy has been removed, the strategy
  is its for good: in every later state, until identifiers wrap around, it is still the owner,
  and no session can take the route or remove it.
\<close>

theorem dead_session_keeps_route:
  assumes "Shared_create compile cfg c n = Inr sh" and "reachable env (initial_world b sh) w"
    and "find_session sid w = None" and "1 \<le> unat sid" and "unat sid \<le> accepted (w_trace w)"
    and "route_owner (w_shared w) k = Some sid"
    and "reachable env w w2" and "accepted (w_trace w2) < 2 ^ 64"
  shows "route_owner (w_shared w2) k = Some sid \<and>
    (\<forall>sid2. \<not> snd (add_route sid2 k (w_shared w2))) \<and>
    (\<forall>sid2. find_session sid2 w2 \<noteq> None \<longrightarrow> \<not> snd (remove_route sid2 k (w_shared w2)))"
proof -
  have "dead_owner sid k w"
    using reachable_ok(2) [OF assms(1,2)] assms(3-6) by (simp add: dead_owner_def)
  with owners.reachable_related [OF assms(7) reachable_ok(1) [OF assms(1,2)], of sid k] assms(8)
  have "find_session sid w2 = None" "route_owner (w_shared w2) k = Some sid"
    by (simp_all add: keeps_def dead_owner_def)
  then show ?thesis by (auto simp: add_route_owner(2) remove_route_owner(2))
qed

text \<open>The first session of the example is removed; strategy 7 stays with it.\<close>

definition example_cleaned :: "(unit, unit, nat) world" where
  "example_cleaned = result_of (handle example_env (Timer_event () [Io_timer 5]) example_world) example_world"

lemma example_cleaned_facts:
  "is_normal (handle example_env (Timer_event () [Io_timer 5]) example_world)"
  "map fst (w_sessions example_cleaned) = [2]"
  "accepted (w_trace example_cleaned) = 2"
  "sh_strategy_to_session (w_shared example_cleaned) = [(7, 1)]"
  by code_simp+

lemma example_cleaned_reachable: "reachable example_env (initial_world 0 example_shared) example_cleaned"
  unfolding example_cleaned_def
  by (rule reach_step [OF example_reachable_init step_normal [OF result_of [OF example_cleaned_facts(1)]]])

theorem dead_session_keeps_route_witness:
  "route_owner (w_shared example_cleaned) 7 = Some 1 \<and> \<not> snd (add_route 2 7 (w_shared example_cleaned))"
proof -
  have "1 \<notin> set (session_ids example_cleaned)"
    by (simp only: session_ids_def example_cleaned_facts) simp
  then have "find_session 1 example_cleaned = None" by (simp add: live_iff)
  moreover have "route_owner (w_shared example_cleaned) 7 = Some 1"
    by (simp add: route_owner_def example_cleaned_facts)
  ultimately show ?thesis
    using dead_session_keeps_route [OF example_shared_created example_cleaned_reachable _ _ _ _ reach_init, of 1 7]
    by (simp add: example_cleaned_facts)
qed

section \<open>Execution reports without a session\<close>

lemma report_each:
  assumes rel: "reliable env" and "distinct sids" and "set sids \<subseteq> set (session_ids w)"
  shows "\<exists>w'. for_each (session_outbound env codec payload) sids w = Normal w' \<and>
    (\<forall>sid. values_to sid (w_trace w') =
       values_to sid (w_trace w) @ (if sid \<in> set sids then [Bridge_msg codec payload] else [])) \<and>
    (\<forall>sid s. find_session sid w = Some s \<longrightarrow>
       (if sid \<in> set sids
        then \<exists>h. sent_to sid (w_trace w') = sent_to sid (w_trace w) @ [h] \<and>
          h_target_comp_id h = s_comp_id s \<and> h_msg_seq_num h = s_outbound_msg_seq_num s + 1
        else sent_to sid (w_trace w') = sent_to sid (w_trace w)))"
  using assms(2,3)
proof (induction sids arbitrary: w)
  case (Cons x sids)
  then obtain s where s: "find_session x w = Some s" by (force simp: live_iff)
  let ?msg = "Bridge_msg codec payload"
  from send_reliable [OF rel s, of ?msg] obtain v where
    v: "send env x ?msg w = Normal v" "session_ids v = session_ids w"
    and find: "\<And>sid. find_session sid v =
      (if sid = x then Some (s\<lparr>s_outbound_msg_seq_num := s_outbound_msg_seq_num s + 1\<rparr>) else find_session sid w)"
    and sent: "\<And>sid. sent_to sid (w_trace v) = sent_to sid (w_trace w) @
      (if sid = x then [outbound_header env s ?msg (e_realtime env (w_trace w))] else [])"
    and vals: "\<And>sid. values_to sid (w_trace v) = values_to sid (w_trace w) @ (if sid = x then [?msg] else [])"
    by auto
  from Cons.IH [of v] Cons.prems obtain w' where
    w': "for_each (session_outbound env codec payload) sids v = Normal w'"
    and vals': "\<And>sid. values_to sid (w_trace w') = values_to sid (w_trace v) @ (if sid \<in> set sids then [?msg] else [])"
    and sent': "\<And>sid s. find_session sid v = Some s \<Longrightarrow>
       (if sid \<in> set sids
        then \<exists>h. sent_to sid (w_trace w') = sent_to sid (w_trace v) @ [h] \<and>
          h_target_comp_id h = s_comp_id s \<and> h_msg_seq_num h = s_outbound_msg_seq_num s + 1
        else sent_to sid (w_trace w') = sent_to sid (w_trace v))"
    by (auto simp: v(2))
  have "for_each (session_outbound env codec payload) (x # sids) w = Normal w'"
    using v(1) w' by (simp add: session_outbound_def)
  moreover have "values_to sid (w_trace w') =
      values_to sid (w_trace w) @ (if sid \<in> set (x # sids) then [?msg] else [])" for sid
    using Cons.prems(1) by (auto simp: vals vals')
  moreover have "if sid \<in> set (x # sids)
        then \<exists>h. sent_to sid (w_trace w') = sent_to sid (w_trace w) @ [h] \<and>
          h_target_comp_id h = s_comp_id s2 \<and> h_msg_seq_num h = s_outbound_msg_seq_num s2 + 1
        else sent_to sid (w_trace w') = sent_to sid (w_trace w)" if "find_session sid w = Some s2" for sid s2
  proof (cases "sid = x")
    case True
    then show ?thesis
      using sent' [of x] Cons.prems(1) that s by (simp add: find sent outbound_header_def)
  next
    case False
    then show ?thesis using sent' [of sid s2] that sent [of sid] by (auto simp: find split: if_splits)
  qed
  ultimately show ?case by blast
qed simp



end
