(* ===== verification/Segmentation.thy ===== *)
theory Segmentation
  imports Bridge_Safety
begin

text \<open>
  TCP delivers a stream in pieces of any size. Given a reader whose answer for a complete message
  does not depend on the bytes after it, the pieces do not matter: reading two pieces one after
  the other does what reading them at once does. The proof rests on the fact that nothing but
  the read handler looks at a session's buffer (\<open>buffer_blind\<close>).
\<close>

section \<open>Operations that do not look at a buffer\<close>

definition set_buffer :: "u64 \<Rightarrow> bytes \<Rightarrow> ('p, 'q, 'b) world \<Rightarrow> ('p, 'q, 'b) world" where
  "set_buffer sid buf w = update_session sid (\<lambda>s. s\<lparr>s_buffer := buf\<rparr>) w"

definition buffer_blind :: "u64 \<Rightarrow> bytes \<Rightarrow> (('p, 'q, 'b) world \<Rightarrow> ('p, 'q, 'b) world outcome) \<Rightarrow> bool" where
  "buffer_blind sid buf m \<longleftrightarrow> (\<forall>w. m (set_buffer sid buf w) = map_outcome (set_buffer sid buf) (m w))"

lemma buffer_blindD: "buffer_blind sid buf m \<Longrightarrow> m (set_buffer sid buf w) = map_outcome (set_buffer sid buf) (m w)"
  by (simp add: buffer_blind_def)

lemma update_twice:
  "AList.update k v (AList.update k v' m) = AList.update k v m"
  by (induction m) auto

lemma update_commute:
  "k \<noteq> k' \<Longrightarrow> map_of m k \<noteq> None \<Longrightarrow> map_of m k' \<noteq> None \<Longrightarrow>
   AList.update k v (AList.update k' v' m) = AList.update k' v' (AList.update k v m)"
  by (induction m) auto

lemma update_session_commute:
  assumes "\<And>s. sid = sid2 \<Longrightarrow> f (g s) = g (f s)"
  shows "update_session sid f (update_session sid2 g w) = update_session sid2 g (update_session sid f w)"
proof (cases "find_session sid w = None \<or> find_session sid2 w = None")
  case True
  then show ?thesis by (auto simp: update_session_def find_session_def split: option.splits)
next
  case False
  then obtain s s2 where s: "find_session sid w = Some s" "find_session sid2 w = Some s2" by auto
  show ?thesis
  proof (cases "sid = sid2")
    case True
    with s assms show ?thesis
      by (simp add: update_session_def find_session_def umap_assign_def update_conv' update_twice)
  next
    case False
    with s update_commute [of sid sid2 "w_sessions w"] show ?thesis
      by (simp add: update_session_def find_session_def umap_assign_def update_conv')
  qed
qed

lemma set_buffer_simps [simp]:
  "w_trace (set_buffer sid buf w) = w_trace w"
  "w_shared (set_buffer sid buf w) = w_shared w"
  "w_zombies (set_buffer sid buf w) = w_zombies w"
  "w_bridge (set_buffer sid buf w) = w_bridge w"
  "session_ids (set_buffer sid buf w) = session_ids w"
  by (simp_all add: set_buffer_def)

lemma set_buffer_out [simp]:
  "emit e (set_buffer sid buf w) = set_buffer sid buf (emit e w)"
  "update_shared f (set_buffer sid buf w) = set_buffer sid buf (update_shared f w)"
  "(set_buffer sid buf w)\<lparr>w_bridge := b\<rparr> = set_buffer sid buf (w\<lparr>w_bridge := b\<rparr>)"
  "(set_buffer sid buf w)\<lparr>w_zombies := z\<rparr> = set_buffer sid buf (w\<lparr>w_zombies := z\<rparr>)"
  by (cases w; simp add: set_buffer_def update_session_def emit_def update_shared_def find_session_def
      split: option.split)+

lemma set_buffer_update_session:
  "(\<And>s. f (s\<lparr>s_buffer := buf\<rparr>) = (f s)\<lparr>s_buffer := buf\<rparr>) \<Longrightarrow>
   update_session sid2 f (set_buffer sid buf w) = set_buffer sid buf (update_session sid2 f w)"
  unfolding set_buffer_def by (rule update_session_commute) simp

lemma find_set_buffer:
  "find_session sid2 (set_buffer sid buf w) =
     map_option (\<lambda>s. if sid2 = sid then s\<lparr>s_buffer := buf\<rparr> else s) (find_session sid2 w)"
  by (cases "find_session sid2 w") (auto simp: set_buffer_def find_update_session)

lemma set_buffer_twice [simp]: "set_buffer sid buf (set_buffer sid buf2 w) = set_buffer sid buf w"
  by (simp add: set_buffer_def update_session_def find_session_def umap_assign_def update_conv' update_twice
      split: option.splits)

lemma fix_log_set_buffer [simp]:
  "fix_log env dir sid2 message (set_buffer sid buf w) = set_buffer sid buf (fix_log env dir sid2 message w)"
  by (simp add: fix_log_def Let_def)

section \<open>Rules\<close>

lemma blind_Normal: "(\<And>w. f (set_buffer sid buf w) = set_buffer sid buf (f w)) \<Longrightarrow>
    buffer_blind sid buf (\<lambda>w. Normal (f w))"
  by (simp add: buffer_blind_def)

lemma blind_then_do:
  assumes "buffer_blind sid buf m" and "buffer_blind sid buf f" and "\<And>e. buffer_blind sid buf (h e)"
  shows "buffer_blind sid buf (\<lambda>w. then_do (m w) f h)"
  unfolding buffer_blind_def
proof
  fix w
  show "then_do (m (set_buffer sid buf w)) f h = map_outcome (set_buffer sid buf) (then_do (m w) f h)"
    using assms by (cases "m w") (simp_all add: buffer_blind_def)
qed

lemma blind_seq:
  "buffer_blind sid buf m \<Longrightarrow> buffer_blind sid buf f \<Longrightarrow> buffer_blind sid buf (\<lambda>w. seq (m w) f)"
  unfolding seq_def by (rule blind_then_do) (simp_all add: buffer_blind_def)

lemma blind_for_each:
  assumes "\<And>x. buffer_blind sid buf (f x)"
  shows "buffer_blind sid buf (for_each f xs)"
proof (induction xs)
  case (Cons x xs)
  from blind_seq [OF assms Cons.IH, of x] show ?case by (simp add: buffer_blind_def)
qed (simp add: buffer_blind_def)

lemma blind_with_session:
  assumes "\<And>s b. F (s\<lparr>s_buffer := b\<rparr>) = F s" and "\<And>s. buffer_blind sid buf (F s)"
  shows "buffer_blind sid buf (\<lambda>w. with_session sid2 w (\<lambda>s. F s w))"
  using assms by (auto simp: buffer_blind_def with_session_def find_set_buffer split: option.splits)

lemma blind_if:
  "buffer_blind sid buf f \<Longrightarrow> buffer_blind sid buf g \<Longrightarrow> buffer_blind sid buf (if c then f else g)"
  by simp

section \<open>The operations\<close>

lemma blind_send_helper: "buffer_blind sid buf (send_helper env sid2 reply t origin)"
proof -
  have hdr: "outbound_header env (s\<lparr>s_buffer := b\<rparr>) reply t = outbound_header env s reply t" for s b
    by (simp add: outbound_header_def)
  have step: "send_step sid2 h reply runs answer (set_buffer sid buf w) =
      set_buffer sid buf (send_step sid2 h reply runs answer w)" for h runs answer and w :: "('a, 'b, 'c) world"
    by (simp add: send_step_def set_buffer_update_session)
  show ?thesis
    unfolding buffer_blind_def
  proof
    fix w :: "('a, 'b, 'c) world"
    show "send_helper env sid2 reply t origin (set_buffer sid buf w) =
        map_outcome (set_buffer sid buf) (send_helper env sid2 reply t origin w)"
    proof (cases "find_session sid2 w")
      case (Some s)
      have same: "outbound_header env (if sid2 = sid then s\<lparr>s_buffer := buf\<rparr> else s) reply t = outbound_header env s reply t"
        "s_comp_id (if sid2 = sid then s\<lparr>s_buffer := buf\<rparr> else s) = s_comp_id s"
        by (simp_all add: hdr)
      show ?thesis
        by (cases "fst (e_connection_send env (w_trace w) sid2)";
            cases "e_encode env (outbound_header env s reply t) reply";
            cases "snd (e_connection_send env (w_trace w) sid2)")
          (simp_all add: send_helper_def with_session_def find_set_buffer Some same step cassert_def Let_def
            del: if_split)
    qed (simp add: send_helper_def with_session_def find_set_buffer)
  qed
qed

lemma blind_send: "buffer_blind sid buf (send env sid2 reply)"
  using blind_send_helper [of sid buf env sid2 reply] by (simp add: buffer_blind_def send_def)

lemma blind_dispatcher_send: "buffer_blind sid buf (dispatcher_send env req)"
  by (auto simp: buffer_blind_def dispatcher_send_def Let_def split: option.splits)

lemma blind_cancel_all_orders: "buffer_blind sid buf (cancel_all_orders env sid2)"
proof -
  have at: "buffer_blind sid buf (cancel_all_orders_at env acct x)" for acct x
  proof -
    have "buffer_blind sid buf (\<lambda>w. then_do (dispatcher_send env req w) Normal
        (\<lambda>e w. if e = Not_connected then Normal w else Thrown e w))" for req
      by (rule blind_then_do [OF blind_dispatcher_send]) (simp_all add: buffer_blind_def)
    then show ?thesis by (cases x) (simp add: cancel_all_orders_at_def buffer_blind_def)
  qed
  have each: "buffer_blind sid buf (for_each (cancel_all_orders_at env acct) xs)" for acct xs
    by (rule blind_for_each) (rule at)
  have "buffer_blind sid buf (\<lambda>w. with_session sid2 w (\<lambda>s. (\<lambda>s w. if s_account s = [] then Normal w
      else for_each (cancel_all_orders_at env (s_account s)) (fst (get_sources (w_shared w))) w) s w))"
    by (rule blind_with_session) (use each in \<open>auto simp: buffer_blind_def\<close>)
  then show ?thesis by (simp add: buffer_blind_def cancel_all_orders_def)
qed

lemma blind_make_zombie: "buffer_blind sid buf (make_zombie env sid2)"
proof -
  have leave: "buffer_blind sid buf (\<lambda>w. seq (if cancel_on_disconnect (e_settings env)
      then cancel_all_orders env sid2 w else Normal w) (\<lambda>w. Normal (update_shared (remove_all_routes sid2) w)))"
    by (rule blind_seq)
      (use blind_cancel_all_orders [of sid buf env sid2] in \<open>auto simp: buffer_blind_def\<close>)
  have finish: "buffer_blind sid buf (\<lambda>w. with_session sid2 w (\<lambda>s. (\<lambda>s w. if s_state s \<noteq> ZOMBIE
      then Normal (on_session_disconnect sid2 (update_session sid2 (\<lambda>s. s\<lparr>s_state := ZOMBIE\<rparr>) w)) else Normal w) s w))"
    by (rule blind_with_session) (auto simp: buffer_blind_def on_session_disconnect_def Let_def set_buffer_update_session)
  have "buffer_blind sid buf (\<lambda>w. with_session sid2 w (\<lambda>s. (\<lambda>s w. seq (if s_state s = READY then
         seq (if cancel_on_disconnect (e_settings env) then cancel_all_orders env sid2 w else Normal w)
           (\<lambda>w. Normal (update_shared (remove_all_routes sid2) w))
       else Normal w) (\<lambda>w. with_session sid2 w (\<lambda>s. if s_state s \<noteq> ZOMBIE
      then Normal (on_session_disconnect sid2 (update_session sid2 (\<lambda>s. s\<lparr>s_state := ZOMBIE\<rparr>) w)) else Normal w))) s w))"
    by (rule blind_with_session, simp, rule blind_seq [OF _ finish])
      (use leave in \<open>auto simp: buffer_blind_def\<close>)
  then show ?thesis unfolding buffer_blind_def make_zombie_def unsubscribe_all_def Let_def .
qed

lemma blind_close: "buffer_blind sid buf (close env sid2)"
proof -
  have "buffer_blind sid buf (\<lambda>w. with_session sid2 w (\<lambda>s. (\<lambda>s w. if s_state s \<noteq> ZOMBIE
      then make_zombie env sid2 (emit (Connection_close sid2) w) else Normal w) s w))"
    by (rule blind_with_session) (use blind_make_zombie [of sid buf env sid2] in \<open>auto simp: buffer_blind_def\<close>)
  then show ?thesis by (simp add: buffer_blind_def close_def)
qed

lemma blind_get_session:
  "(\<And>sid2. buffer_blind sid buf (callback sid2)) \<Longrightarrow> buffer_blind sid buf (get_session sid2 callback)"
  by (auto simp: buffer_blind_def get_session_def find_set_buffer split: option.splits)

lemma blind_session_outbound: "buffer_blind sid buf (session_outbound env codec payload sid2)"
  using blind_send [of sid buf env sid2 "Bridge_msg codec payload"]
  by (simp add: buffer_blind_def session_outbound_def)

lemma blind_controller_dispatch: "buffer_blind sid buf (controller_dispatch env codec payload sid2)"
proof -
  have "buffer_blind sid buf (get_session sid2 (session_outbound env codec payload))"
    by (rule blind_get_session) (rule blind_session_outbound)
  then show ?thesis by (simp add: buffer_blind_def controller_dispatch_def)
qed

lemma blind_controller_disconnect: "buffer_blind sid buf (controller_disconnect env sid2)"
proof -
  have "buffer_blind sid buf (on_bridge_disconnect env sid3)" for sid3
    using blind_close [of sid buf env sid3] by (simp add: buffer_blind_def on_bridge_disconnect_def)
  then have "buffer_blind sid buf (get_session sid2 (on_bridge_disconnect env))"
    by (rule blind_get_session)
  then show ?thesis by (simp add: buffer_blind_def controller_disconnect_def)
qed

lemma blind_broadcast_execution_report: "buffer_blind sid buf (broadcast_execution_report env report)"
proof -
  have "buffer_blind sid buf (for_each (session_outbound env Out_ExecutionReport report) xs)" for xs
    by (rule blind_for_each) (rule blind_session_outbound)
  then show ?thesis by (simp add: buffer_blind_def broadcast_execution_report_def get_all_sessions_def)
qed

lemma blind_run_call:
  assumes "\<And>r. buffer_blind sid buf (k r)"
  shows "buffer_blind sid buf (run_call env c k)"
proof -
  have finish: "buffer_blind sid buf (\<lambda>w. then_do (m w) (k Call_ok) (\<lambda>e. k (Call_threw e)))"
    if "buffer_blind sid buf m" for m
    using that by (rule blind_then_do) (rule assms)+
  note parts = finish [OF blind_dispatcher_send] finish [OF blind_controller_dispatch]
    finish [OF blind_controller_disconnect] finish [OF blind_broadcast_execution_report]
  show ?thesis
    using parts assms
    by (cases c) (auto simp: buffer_blind_def run_call_def Let_def forward_order_def
        forward_cancel_all_orders_def split: sum.splits failure.splits)
qed

lemma blind_run_bridge: "buffer_blind sid buf (run_bridge env run)"
proof (induction run)
  case (Call c k)
  have "buffer_blind sid buf (run_call env c (\<lambda>r. run_bridge env (k r)))"
    by (rule blind_run_call) (simp add: Call)
  then show ?case by (simp add: buffer_blind_def)
qed (simp_all add: buffer_blind_def)

lemma blind_tell_bridge: "buffer_blind sid buf (tell_bridge env input)"
  using blind_run_bridge [of sid buf env] by (simp add: buffer_blind_def tell_bridge_def)

lemma blind_on_user_request: "buffer_blind sid buf (on_user_request env sid2 ur header)"
  unfolding on_user_request_def
proof (rule blind_seq [OF blind_tell_bridge])
  show "buffer_blind sid buf (\<lambda>w. case e_strategy_id env (ur_username ur) of
        Inl e \<Rightarrow> Thrown e w
      | Inr strategy_id \<Rightarrow>
          (case ur_user_request_type ur of
             CHANGE_PASSWORD_FOR_USER \<Rightarrow>
               send env sid2 (user_response ur OTHER_USER_STATUS (get_text UNSUPPORTED_USER_REQUEST_TYPE)) w
           | REQUEST_INDIVIDUAL_USER_STATUS \<Rightarrow>
               send env sid2 (user_response ur OTHER_USER_STATUS (get_text UNSUPPORTED_USER_REQUEST_TYPE)) w
           | LOG_OFF_USER \<Rightarrow>
               (let success = snd (remove_route sid2 strategy_id (w_shared w));
                    w = update_shared (\<lambda>sh. fst (remove_route sid2 strategy_id sh)) w
                in send env sid2 (user_response ur (if success then NOT_LOGGED_IN else OTHER_USER_STATUS) []) w)
           | _ \<Rightarrow>
               (let success = snd (add_route sid2 strategy_id (w_shared w));
                    w = update_shared (\<lambda>sh. fst (add_route sid2 strategy_id sh)) w
                in send env sid2 (user_response ur (if success then LOGGED_IN else OTHER_USER_STATUS) []) w)))"
    using blind_send [of sid buf env sid2]
    by (auto simp: buffer_blind_def Let_def split: sum.splits user_request_type.splits)
qed

lemma check_header_buffer:
  "check_header asserts header (s\<lparr>s_buffer := b\<rparr>) =
     (map_outcome (\<lambda>s. s\<lparr>s_buffer := b\<rparr>) (fst (check_header asserts header s)), snd (check_header asserts header s))"
  by (simp add: check_header_def check_comp_id_def cassert_def)

text \<open>The check replaces the whole session, so it is compared state by state.\<close>

lemma update_session_const:
  "find_session sid w = Some s \<Longrightarrow> update_session sid f w = update_session sid (\<lambda>_. f s) w"
  by (simp add: update_session_def)

lemma set_buffer_replace:
  "update_session sid2 (\<lambda>_. if sid2 = sid then s\<lparr>s_buffer := buf\<rparr> else s) (set_buffer sid buf w) =
     set_buffer sid buf (update_session sid2 (\<lambda>_. s) w)"
proof (cases "sid2 = sid")
  case True
  then show ?thesis
    by (simp add: set_buffer_def update_session_def find_session_def umap_assign_def update_conv' update_twice
        split: option.splits)
next
  case False
  then show ?thesis unfolding set_buffer_def by (simp add: update_session_commute)
qed

lemma blind_session_check: "buffer_blind sid buf (session_check env sid2 header)"
  unfolding buffer_blind_def
proof
  fix w :: "('a, 'b, 'c) world"
  show "session_check env sid2 header (set_buffer sid buf w) = map_outcome (set_buffer sid buf) (session_check env sid2 header w)"
  proof (cases "find_session sid2 w")
    case (Some s)
    obtain r verdict where r: "check_header (e_asserts env) header s = (r, verdict)"
      by (cases "check_header (e_asserts env) header s")
    note replace = set_buffer_replace [where sid = sid and ?sid2.0 = sid2 and buf = buf and w = w]
    show ?thesis
    proof (cases "sid2 = sid")
      case True
      with Some have "find_session sid w = Some s" by simp
      with True r replace show ?thesis
        by (cases r) (simp_all add: session_check_def with_session_def find_set_buffer check_header_buffer)
    next
      case False
      with Some r replace show ?thesis
        by (cases r) (simp_all add: session_check_def with_session_def find_set_buffer)
    qed
  qed (simp add: session_check_def with_session_def find_set_buffer)
qed

lemma blind_parse_helper: "buffer_blind sid buf (parse_helper env sid2 message)"
  using blind_tell_bridge [of sid buf env] blind_on_user_request [of sid buf env sid2] blind_send [of sid buf env sid2]
  by (auto simp: buffer_blind_def parse_helper_def Let_def split: option.splits sum.splits)

lemma blind_reader_callback: "buffer_blind sid buf (reader_callback env sid2 c)"
proof (cases c)
  case (Parser_call message)
  have "buffer_blind sid buf (\<lambda>w. seq (session_check env sid2 (fm_header message) w) (parse_helper env sid2 message))"
    by (rule blind_seq [OF blind_session_check blind_parse_helper])
  then show ?thesis by (simp add: buffer_blind_def Parser_call)
qed (simp add: buffer_blind_def)

lemma blind_reader_dispatch: "buffer_blind sid buf (reader_dispatch env sid2 buffer)"
  unfolding reader_dispatch_def
  by (rule blind_seq [OF blind_for_each [OF blind_reader_callback]])
    (auto simp: buffer_blind_def split: sum.splits)

lemma is_zombie_set_buffer [simp]: "is_zombie sid2 (set_buffer sid buf w) = is_zombie sid2 w"
  by (cases "find_session sid2 w") (simp_all add: is_zombie_def find_set_buffer)

lemma blind_read_loop:
  "read_loop env sid2 buffer t (set_buffer sid buf w) =
     map_outcome (\<lambda>(w, n). (set_buffer sid buf w, n)) (read_loop env sid2 buffer t w)"
proof (induction buffer arbitrary: t w rule: length_induct)
  case (1 buffer)
  note step = buffer_blindD [OF blind_reader_dispatch, of env sid2 buffer sid buf w]
  show ?case
  proof (cases "reader_dispatch env sid2 buffer w")
    case (Normal v)
    then show ?thesis
      using "1.IH" step
      by (subst (1 2) read_loop.simps) (auto simp: Let_def)
  qed (use step in \<open>subst (1 2) read_loop.simps, simp\<close>)+
qed

section \<open>The loop on two pieces\<close>

text \<open>
  What is asked of the reader: a complete message at the front is handled alike whatever follows
  it, and so is a failure; an incomplete one is left alone.
\<close>

definition stable_reader :: "('p, 'q, 'b) env \<Rightarrow> bool" where
  "stable_reader env \<longleftrightarrow>
     (\<forall>buf rest calls n. e_reader env buf = (calls, Inr n) \<longrightarrow> n \<noteq> 0 \<longrightarrow>
        n \<le> length buf \<and> e_reader env (buf @ rest) = (calls, Inr n)) \<and>
     (\<forall>buf rest calls e. e_reader env buf = (calls, Inl e) \<longrightarrow> e_reader env (buf @ rest) = (calls, Inl e)) \<and>
     (\<forall>buf calls. e_reader env buf = (calls, Inr 0) \<longrightarrow> calls = [])"

lemma stable_dispatch:
  assumes "stable_reader env" and "snd (e_reader env buf) \<noteq> Inr 0"
  shows "reader_dispatch env sid (buf @ rest) = reader_dispatch env sid buf"
    and "snd (e_reader env (buf @ rest)) = snd (e_reader env buf)"
proof -
  have "e_reader env (buf @ rest) = e_reader env buf"
    using assms unfolding stable_reader_def
    by (cases "e_reader env buf"; cases "snd (e_reader env buf)") auto
  then show "reader_dispatch env sid (buf @ rest) = reader_dispatch env sid buf"
    "snd (e_reader env (buf @ rest)) = snd (e_reader env buf)"
    by (simp_all add: reader_dispatch_def fun_eq_iff)
qed

lemma stable_incomplete:
  assumes "stable_reader env" and "snd (e_reader env buf) = Inr 0"
  shows "reader_dispatch env sid buf w = Normal w"
proof -
  have "fst (e_reader env buf) = []"
    using assms unfolding stable_reader_def by (cases "e_reader env buf") auto
  with assms(2) show ?thesis by (simp add: reader_dispatch_def)
qed

lemma read_loop_total:
  "read_loop env sid buffer (t + k) w = map_outcome (\<lambda>(w, n). (w, n + k)) (read_loop env sid buffer t w)"
proof (induction buffer arbitrary: t w rule: length_induct)
  case (1 buffer)
  let ?m = "bytes_of (snd (e_reader env buffer))"
  have rec: "read_loop env sid (drop ?m buffer) (t + k + ?m) v =
      map_outcome (\<lambda>(w, n). (w, n + k)) (read_loop env sid (drop ?m buffer) (t + ?m) v)"
    if "?m \<noteq> 0" "buffer \<noteq> []" for v
    using "1.IH" [rule_format, of "drop ?m buffer" "t + ?m" v] that by (simp add: ac_simps)
  show ?case
    by (subst (1 2) read_loop.simps) (auto simp: Let_def rec split: outcome.splits)
qed

lemma read_loop_pieces:
  assumes stable: "stable_reader env"
  shows "\<not> is_zombie sid w \<Longrightarrow>
    read_loop env sid (a @ b) t w =
      (case read_loop env sid a t w of
         Normal (v, n) \<Rightarrow> if is_zombie sid v then Normal (v, n) else read_loop env sid (drop (n - t) a @ b) n v
       | Thrown e p \<Rightarrow> Thrown e p
       | Aborted x \<Rightarrow> Aborted x)"
proof (induction a arbitrary: t w rule: length_induct)
  case (1 a)
  let ?m = "bytes_of (snd (e_reader env a))"
  consider "a = []" | "a \<noteq> []" "snd (e_reader env a) = Inr 0" | "a \<noteq> []" "snd (e_reader env a) \<noteq> Inr 0" by blast
  then show ?case
  proof cases
    case 1
    with "1.prems" show ?thesis by (simp add: read_loop.simps [of env sid "[]"])
  next
    case 2
    then have "read_loop env sid a t w = Normal (w, t)"
      using stable_incomplete [OF stable] by (simp add: read_loop.simps [of env sid a] bytes_of_def)
    with "1.prems" show ?thesis by simp
  next
    case 3
    note same = stable_dispatch [OF stable 3(2), where rest = b]
    show ?thesis
    proof (cases "reader_dispatch env sid a w")
      case (Normal v)
      then obtain m where m: "snd (e_reader env a) = Inr m" "m \<noteq> 0"
        using 3(2) by (auto simp: reader_dispatch_def seq_def split: sum.splits elim!: then_do.elims)
      then have len: "m \<le> length a"
        using stable unfolding stable_reader_def by (metis prod.collapse)
      have unfold_a: "read_loop env sid a t w =
          (if is_zombie sid v then Normal (v, t + m) else read_loop env sid (drop m a) (t + m) v)"
        using 3(1) Normal m len by (simp add: read_loop.simps [of env sid a] bytes_of_def)
      have unfold_ab: "read_loop env sid (a @ b) t w =
          (if is_zombie sid v then Normal (v, t + m) else read_loop env sid (drop m a @ b) (t + m) v)"
        using 3(1) Normal m len same by (simp add: read_loop.simps [of env sid "a @ b"] bytes_of_def)
      show ?thesis
      proof (cases "is_zombie sid v")
        case False
        have IH: "read_loop env sid (drop m a @ b) (t + m) v =
          (case read_loop env sid (drop m a) (t + m) v of
             Normal (v, n) \<Rightarrow> if is_zombie sid v then Normal (v, n)
               else read_loop env sid (drop (n - (t + m)) (drop m a) @ b) n v
           | Thrown e p \<Rightarrow> Thrown e p
           | Aborted x \<Rightarrow> Aborted x)"
          using "1.IH" [rule_format, of "drop m a" v "t + m"] False m(2) 3(1) by simp
        have shift: "drop (n - (t + m)) (drop m a) = drop (n - t) a"
          if "read_loop env sid (drop m a) (t + m) v = Normal (u, n)" for u n
          using read_loop_rest [OF that] by (simp add: algebra_simps)
        show ?thesis
          unfolding unfold_a unfold_ab using False IH shift
          by (auto split: outcome.splits prod.splits)
      qed (simp add: unfold_a unfold_ab)
    qed (use 3(1) same in \<open>simp_all add: read_loop.simps [of env sid a] read_loop.simps [of env sid "a @ b"]\<close>)
  qed
qed

section \<open>Two reads\<close>

text \<open>A zombie's buffer is never looked at again; forgetting it makes states comparable.\<close>

definition forget :: "u64 \<Rightarrow> ('p, 'q, 'b) world \<Rightarrow> ('p, 'q, 'b) world" where
  "forget sid w = (if is_zombie sid w then set_buffer sid [] w else w)"

lemma forget_zombie: "is_zombie sid w \<Longrightarrow> forget sid (set_buffer sid buf w) = forget sid w"
  by (simp add: forget_def)

lemma drain_buffer:
  "update_session sid (\<lambda>s. s\<lparr>s_buffer := drop n (s_buffer s)\<rparr>) (set_buffer sid buf w) = set_buffer sid (drop n buf) w"
proof (cases "find_session sid w")
  case (Some s)
  then show ?thesis
    by (simp add: set_buffer_def update_session_def find_session_def umap_assign_def update_conv' update_twice)
qed (simp add: set_buffer_def update_session_def find_session_def)

text \<open>The read handler, in terms of a loop that starts in the state without the new buffer.\<close>

lemma on_read_loop:
  assumes "find_session sid w = Some s" and "s_state s \<noteq> ZOMBIE"
  shows "on_read env sid data w =
    (case read_loop env sid (s_buffer s @ data) 0 w of
       Normal (v, n) \<Rightarrow> Normal (set_buffer sid (drop n (s_buffer s @ data)) v)
     | Thrown e (v, n) \<Rightarrow>
         if e = Foreign_exception then Aborted Terminated
         else map_outcome (set_buffer sid (s_buffer s @ data)) (close env sid v)
     | Aborted x \<Rightarrow> Aborted x)"
proof -
  have start: "read_start sid s data w = set_buffer sid (s_buffer s @ data) w"
    by (simp add: read_start_def set_buffer_def)
  show ?thesis
    unfolding on_read_start [OF assms] start blind_read_loop
    by (auto simp: drain_buffer buffer_blindD [OF blind_close] split: outcome.splits prod.splits)
qed

lemma on_read_zombie: "is_zombie sid w \<Longrightarrow> on_read env sid data w = Normal w"
  by (auto simp: is_zombie_def on_read_def with_session_def)

lemma read_loop_calm:
  assumes "calm w" and "sid \<in> set (session_ids w)"
    and "read_loop env sid buffer t w = Normal (v, n) \<or> read_loop env sid buffer t w = Thrown e (v, n)"
  shows "calm v \<and> sid \<in> set (session_ids v)"
  using anything.preserves_read_loop [OF assms(1,2), of env buffer t] assms(2,3) by (auto simp: kept_def)

text \<open>
  C4 (read_in_pieces). With a reader that handles a complete message alike whatever follows it, it
  does not matter in which pieces the bytes of a client arrive: two reads one after the other end
  like one read of both pieces, in the same state of the whole program with the same trace (the
  buffer of a session that has become a zombie set aside), or in the same fault.
\<close>

theorem read_in_pieces:
  assumes "stable_reader env" and "calm w" and "find_session sid w = Some s" and "s_state s \<noteq> ZOMBIE"
  shows "map_outcome (forget sid) (seq (on_read env sid a w) (on_read env sid b)) =
    map_outcome (forget sid) (on_read env sid (a @ b) w)"
proof -
  let ?A = "s_buffer s @ a"
  have live: "sid \<in> set (session_ids w)" using assms(3) by (simp add: live_iff)
  have alive: "\<not> is_zombie sid w" using assms(3,4) by (simp add: is_zombie_def)
  have closed: "\<exists>u. close env sid v = Normal u \<and> is_zombie sid u" if "calm v" "sid \<in> set (session_ids v)" for v
    using close_zombie [OF that] by blast
  note one = on_read_loop [OF assms(3,4)]
  note pieces = read_loop_pieces [OF assms(1) alive, of ?A b 0, simplified]
  show ?thesis
  proof (cases "read_loop env sid ?A 0 w")
    case (Aborted x)
    then show ?thesis using pieces by (simp add: one)
  next
    case (Thrown e p)
    obtain v n where p: "p = (v, n)" by (cases p)
    have "calm v \<and> sid \<in> set (session_ids v)"
      using read_loop_calm [OF assms(2) live, of env ?A 0 v n e] Thrown p by simp
    with closed obtain u where "close env sid v = Normal u" "is_zombie sid u" by blast
    then show ?thesis
      using pieces Thrown by (auto simp: one p on_read_zombie forget_zombie)
  next
    case (Normal p)
    obtain v n where p: "p = (v, n)" by (cases p)
    have v: "calm v \<and> sid \<in> set (session_ids v)"
      using read_loop_calm [OF assms(2) live, of env ?A 0 v n] Normal p by simp
    have n: "n \<le> length ?A" using read_loop_rest [of env sid ?A 0 w v n] Normal p by simp
    have first: "on_read env sid a w = Normal (set_buffer sid (drop n ?A) v)"
      using Normal by (simp add: one p)
    show ?thesis
    proof (cases "is_zombie sid v")
      case True
      then show ?thesis
        using pieces Normal first by (simp add: one p on_read_zombie forget_zombie)
    next
      case False
      define R where "R = drop n ?A"
      from v obtain s2 where s2: "find_session sid v = Some s2" by (auto simp: live_iff)
      with False have alive2: "s_state (s2\<lparr>s_buffer := R\<rparr>) \<noteq> ZOMBIE" by (simp add: is_zombie_def)
      have s3: "find_session sid (set_buffer sid R v) = Some (s2\<lparr>s_buffer := R\<rparr>)"
        using s2 by (simp add: find_set_buffer)
      have loop: "read_loop env sid (?A @ b) 0 w = map_outcome (\<lambda>(w, k). (w, k + n)) (read_loop env sid (R @ b) 0 v)"
        using read_loop_pieces [OF assms(1) alive, of ?A b 0] Normal False read_loop_total [of env sid "R @ b" 0 n v]
        by (simp add: p R_def del: append_assoc drop_append)
      have rest: "drop (k + n) (?A @ b) = drop k (R @ b)" for k
      proof -
        have "drop (k + n) (?A @ b) = drop k (drop n (?A @ b))" by (simp only: drop_drop)
        also have "drop n (?A @ b) = R @ b" using n by (simp only: R_def drop_append) simp
        finally show ?thesis .
      qed
      have second: "on_read env sid b (set_buffer sid R v) =
        (case read_loop env sid (R @ b) 0 v of
           Normal (u, k) \<Rightarrow> Normal (set_buffer sid (drop k (R @ b)) u)
         | Thrown e (u, k) \<Rightarrow>
             if e = Foreign_exception then Aborted Terminated
             else map_outcome (set_buffer sid (R @ b)) (close env sid u)
         | Aborted x \<Rightarrow> Aborted x)"
        unfolding on_read_loop [OF s3 alive2] blind_read_loop
        by (simp add: buffer_blindD [OF blind_close] map_outcome_compose del: drop_append
            split: outcome.splits prod.splits)
      have whole: "on_read env sid (a @ b) w =
        (case read_loop env sid (R @ b) 0 v of
           Normal (u, k) \<Rightarrow> Normal (set_buffer sid (drop k (R @ b)) u)
         | Thrown e (u, k) \<Rightarrow>
             if e = Foreign_exception then Aborted Terminated
             else map_outcome (set_buffer sid (?A @ b)) (close env sid u)
         | Aborted x \<Rightarrow> Aborted x)"
        unfolding one append_assoc [symmetric] loop
        by (simp add: rest del: append_assoc drop_append split: outcome.splits prod.splits)
      have closed_loop: "\<exists>u2. close env sid u = Normal u2 \<and> is_zombie sid u2"
        if "read_loop env sid (R @ b) 0 v = Thrown e (u, k)" for e u k
        using read_loop_calm [of v sid env "R @ b" 0 u k e] v that closed by blast
      show ?thesis
        unfolding first R_def [symmetric] seq_simps second whole
        using closed_loop by (auto simp: forget_zombie split: outcome.splits prod.splits)
    qed
  qed
qed

lemma example_stable: "stable_reader example_env"
proof -
  have "n \<le> length buf \<and> frame_reader (buf @ rest) = (calls, Inr n)"
    if "frame_reader buf = (calls, Inr n)" "n \<noteq> 0" for buf rest calls n
    using that by (cases buf rule: frame_reader.cases) auto
  moreover have "frame_reader buf \<noteq> (calls, Inl e)" for buf calls e
    by (cases buf rule: frame_reader.cases) auto
  moreover have "calls = []" if "frame_reader buf = (calls, Inr 0)" for buf calls
    using that by (cases buf rule: frame_reader.cases) auto
  ultimately show ?thesis unfolding stable_reader_def e_reader_example by blast
qed

theorem read_in_pieces_witness:
  "map_outcome (forget 2) (seq (on_read example_env 2 [1] example_world) (on_read example_env 2 [1, 4])) =
    map_outcome (forget 2) (on_read example_env 2 [1, 1, 4] example_world)"
proof -
  obtain s where "find_session 2 example_world = Some s" "s_state s \<noteq> ZOMBIE"
    using example_sessions(3) by auto
  then show ?thesis
    using read_in_pieces [OF example_stable example_calm, of 2 s "[1]" "[1, 4]"] by simp
qed

end
