(* ===== verification/Message_Order.thy ===== *)
theory Message_Order
  imports Segmentation
begin

text \<open>
  In which order client messages reach the bridge library. The messages in a buffer are defined
  from the reader alone (\<open>frames\<close>); the read handler hands over exactly these, in that order,
  whatever the bridge library does while it is told.
\<close>

section \<open>The messages of a buffer\<close>

text \<open>What the bridge library is to be told of a message: nothing if its type has no handler or its decoder throws.\<close>

definition input_of :: "('p, 'q, 'b) env \<Rightarrow> u64 \<Rightarrow> fix_message \<Rightarrow> 'p bridge_input list" where
  "input_of env sid message =
     (let header = fm_header message
      in case codec_of (h_msg_type header) of
           Some codec \<Rightarrow>
             (case e_decode env codec message of
                Inl e \<Rightarrow> []
              | Inr decoded \<Rightarrow> [Client_message codec decoded header sid])
         | None \<Rightarrow>
             if h_msg_type header = USER_REQUEST then
               (case e_decode_user_request env message of
                  Inl e \<Rightarrow> []
                | Inr ur \<Rightarrow> [Client_user_request ur header sid])
             else [])"

definition inputs_of :: "('p, 'q, 'b) env \<Rightarrow> u64 \<Rightarrow> fix_message list \<Rightarrow> 'p bridge_input list" where
  "inputs_of env sid messages = concat (map (input_of env sid) messages)"

fun messages_of :: "reader_call list \<Rightarrow> fix_message list" where
  "messages_of [] = []"
| "messages_of (Parser_call message # calls) = message # messages_of calls"
| "messages_of (Logger_call _ # calls) = messages_of calls"

function (sequential) frames :: "('p, 'q, 'b) env \<Rightarrow> bytes \<Rightarrow> fix_message list" where
  "frames env buffer =
     (if buffer = [] then []
      else let n = bytes_of (snd (e_reader env buffer));
               messages = messages_of (fst (e_reader env buffer))
        in if n = 0 \<or> n > length buffer then messages else messages @ frames env (drop n buffer))"
  by pat_completeness auto
termination
  by (relation "measure (\<lambda>(env, buffer). length buffer)") auto

declare frames.simps [simp del]

lemma inputs_of_simps [simp]:
  "inputs_of env sid [] = []"
  "inputs_of env sid (m # ms) = input_of env sid m @ inputs_of env sid ms"
  "inputs_of env sid (ms @ ms2) = inputs_of env sid ms @ inputs_of env sid ms2"
  by (simp_all add: inputs_of_def)

section \<open>Nothing else tells the bridge library\<close>

lemma plain_untold: "\<not> tells e \<Longrightarrow> told e = []"
  by (cases e) simp_all

interpretation untold: session_contract env "\<lambda>w w'. inputs (w_trace w') = inputs (w_trace w)" for env
  by unfold_locales (simp_all add: plain_untold inputs_def send_step_def retire_def on_session_disconnect_def Let_def)

lemma send_step_told [simp]:
  "inputs (w_trace (send_step sid header reply runs answer w)) = inputs (w_trace w)"
  by (simp add: send_step_def)

text \<open>
  \<open>handed env sid ms w r\<close>: from \<open>w\<close> to where \<open>r\<close> ends the library was told of the messages
  \<open>ms\<close> and nothing else; if an exception ended it, of the first of them.
\<close>

fun handed :: "('p, 'q, 'b) env \<Rightarrow> u64 \<Rightarrow> fix_message list \<Rightarrow> ('p, 'q, 'b) world \<Rightarrow> ('p, 'q, 'b) world outcome \<Rightarrow> bool" where
  "handed env sid ms w (Normal v) \<longleftrightarrow> calm v \<and> session_ids v = session_ids w \<and>
     inputs (w_trace v) = inputs (w_trace w) @ inputs_of env sid ms"
| "handed env sid ms w (Thrown e v) \<longleftrightarrow> calm v \<and> session_ids v = session_ids w \<and>
     (\<exists>k. inputs (w_trace v) = inputs (w_trace w) @ inputs_of env sid (take k ms))"
| "handed env sid ms w (Aborted x) \<longleftrightarrow> True"

lemma handed_seq:
  assumes "handed env sid ms w r"
    and "\<And>v. calm v \<Longrightarrow> session_ids v = session_ids w \<Longrightarrow> handed env sid ms2 v (f v)"
  shows "handed env sid (ms @ ms2) w (seq r f)"
proof (cases r)
  case (Normal v)
  then have v: "handed env sid ms2 v (f v)" "session_ids v = session_ids w"
    "inputs (w_trace v) = inputs (w_trace w) @ inputs_of env sid ms"
    using assms by simp_all
  show ?thesis
  proof (cases "f v")
    case (Thrown e u)
    with v obtain k where "inputs (w_trace u) = inputs (w_trace v) @ inputs_of env sid (take k ms2)" by auto
    then have "inputs (w_trace u) = inputs (w_trace w) @ inputs_of env sid (take (length ms + k) (ms @ ms2))"
      by (simp add: v)
    moreover have "calm u \<and> session_ids u = session_ids w" using v Thrown by simp
    ultimately show ?thesis unfolding Normal seq_simps Thrown handed.simps by blast
  qed (use v Normal in simp_all)
next
  case (Thrown e v)
  with assms(1) obtain k where "inputs (w_trace v) = inputs (w_trace w) @ inputs_of env sid (take k ms)" by auto
  then have "inputs (w_trace v) = inputs (w_trace w) @ inputs_of env sid (take (min k (length ms)) (ms @ ms2))"
    by (simp add: min_def)
  moreover have "calm v \<and> session_ids v = session_ids w" using assms(1) Thrown by simp
  ultimately show ?thesis unfolding Thrown seq_simps handed.simps by blast
qed simp

lemma handed_untold:
  "preserves env (\<lambda>w w'. inputs (w_trace w') = inputs (w_trace w)) w r \<Longrightarrow> handed env sid [] w r"
  by (cases r) (simp_all add: kept_def)

lemma handed_tell_bridge:
  assumes "calm w" and "input_of env sid message = [input]"
  shows "handed env sid [message] w (tell_bridge env input w)"
proof -
  have "preserves env (\<lambda>w w'. inputs (w_trace w') = inputs (w_trace w)) (emit (To_bridge input) w)
      (tell_bridge env input w)"
    unfolding tell_bridge_def using assms(1) by (simp add: untold.preserves_run_bridge)
  then show ?thesis
    using assms(2) by (cases "tell_bridge env input w") (auto simp: kept_def intro: exI [of _ 1])
qed

section \<open>Parsing hands over one message\<close>

lemma input_of_undecoded [simp]:
  "codec_of (h_msg_type (fm_header m)) = Some codec \<Longrightarrow> e_decode env codec m = Inl e \<Longrightarrow> input_of env sid m = []"
  "codec_of (h_msg_type (fm_header m)) = Some codec \<Longrightarrow> e_decode env codec m = Inr x \<Longrightarrow>
     input_of env sid m = [Client_message codec x (fm_header m) sid]"
  by (simp_all add: input_of_def Let_def)

lemma handed_on_user_request:
  assumes "calm w" and "sid \<in> set (session_ids w)"
    and "input_of env sid message = [Client_user_request ur header sid]"
  shows "handed env sid [message] w (on_user_request env sid ur header w)"
proof -
  have answer: "handed env sid [] v (send env sid reply (update_shared g v))"
    if v: "calm v" "session_ids v = session_ids w" for v :: "('a, 'b, 'c) world" and g reply
  proof (rule handed_untold)
    have "sid \<in> set (session_ids v)" using v(2) assms(2) by simp
    then obtain s where s: "find_session sid v = Some s" by (auto simp: live_iff)
    show "preserves env (\<lambda>w w'. inputs (w_trace w') = inputs (w_trace w)) v (send env sid reply (update_shared g v))"
      by (rule untold.preserves_send_after [where s = s]) (simp_all add: s kept_def v)
  qed
  have "handed env sid ([message] @ []) w (on_user_request env sid ur header w)"
    unfolding on_user_request_split
    by (rule handed_seq [OF handed_tell_bridge [OF assms(1,3)]])
      (auto simp: answer split: sum.splits prod.splits)
  then show ?thesis by simp
qed

lemma handed_parse_helper:
  assumes "calm w" and "sid \<in> set (session_ids w)"
  shows "handed env sid [message] w (parse_helper env sid message w)"
proof (cases "codec_of (h_msg_type (fm_header message))")
  case (Some codec)
  with assms(1) show ?thesis
    by (cases "e_decode env codec message")
      (auto simp: parse_helper_def intro!: handed_tell_bridge exI [of _ 0])
next
  case None
  show ?thesis
  proof (cases "h_msg_type (fm_header message) = USER_REQUEST")
    case True
    with None show ?thesis
      using handed_on_user_request [OF assms, of env message]
      by (cases "e_decode_user_request env message") (auto simp: parse_helper_def input_of_def Let_def assms(1) intro: exI [of _ 0])
  next
    case False
    let ?r = "send env sid (business_message_reject (fm_header message))
        (emit (Unexpected_msg_type sid (h_msg_type (fm_header message))) w)"
    have "preserves env (\<lambda>w w'. inputs (w_trace w') = inputs (w_trace w))
        (emit (Unexpected_msg_type sid (h_msg_type (fm_header message))) w) ?r"
      using assms by (intro untold.preserves_send) simp_all
    with None False show ?thesis
      by (cases ?r) (auto simp: parse_helper_def Let_def input_of_def kept_def intro: exI [of _ 0])
  qed
qed

lemma handed_session_check:
  assumes "calm w" and "sid \<in> set (session_ids w)"
  shows "handed env sid [] w (session_check env sid header w)"
proof -
  from assms(2) obtain s where s: "find_session sid w = Some s" by (auto simp: live_iff)
  obtain r verdict where r: "check_header (e_asserts env) header s = (r, verdict)"
    by (cases "check_header (e_asserts env) header s")
  have "calm (update_session sid (\<lambda>_. s') w)" if "r = Normal s'" for s'
  proof -
    have "edit_of s s'" using r that edit_of_check by blast
    with s assms(1) show ?thesis by (intro calm_update_session) (auto simp: edit_of_def calm_def)
  qed
  then show ?thesis
    using check_header_cases [of "e_asserts env" header s] s r
    by (auto simp: session_check_def with_session_def)
qed

lemma handed_reader_callback:
  assumes "calm w" and "sid \<in> set (session_ids w)"
  shows "handed env sid (messages_of [c]) w (reader_callback env sid c w)"
proof (cases c)
  case (Parser_call message)
  have "handed env sid ([] @ [message]) w (seq (session_check env sid (fm_header message) w) (parse_helper env sid message))"
    by (rule handed_seq [OF handed_session_check [OF assms]]) (simp add: handed_parse_helper assms)
  then show ?thesis by (simp add: Parser_call)
qed (simp add: fix_log_def Let_def assms)

lemma handed_for_each:
  assumes "calm w" and "sid \<in> set (session_ids w)"
  shows "handed env sid (messages_of calls) w (for_each (reader_callback env sid) calls w)"
  using assms
proof (induction calls arbitrary: w)
  case (Cons c calls)
  have "messages_of (c # calls) = messages_of [c] @ messages_of calls" by (cases c) simp_all
  moreover have "handed env sid (messages_of [c] @ messages_of calls) w
      (seq (reader_callback env sid c w) (for_each (reader_callback env sid) calls))"
    by (rule handed_seq [OF handed_reader_callback [OF Cons.prems]]) (simp add: Cons)
  ultimately show ?case by (simp only: for_each.simps)
qed simp

lemma handed_reader_dispatch:
  assumes "calm w" and "sid \<in> set (session_ids w)"
  shows "handed env sid (messages_of (fst (e_reader env buffer))) w (reader_dispatch env sid buffer w)"
proof -
  have "handed env sid (messages_of (fst (e_reader env buffer)) @ []) w (reader_dispatch env sid buffer w)"
    unfolding reader_dispatch_def
    by (rule handed_seq [OF handed_for_each [OF assms]]) (auto split: sum.splits)
  then show ?thesis by simp
qed


section \<open>The loop hands over all messages in order\<close>

definition handed_prefix ::
  "('p, 'q, 'b) env \<Rightarrow> u64 \<Rightarrow> fix_message list \<Rightarrow> ('p, 'q, 'b) world \<Rightarrow> ('p, 'q, 'b) world \<Rightarrow> bool \<Rightarrow> bool" where
  "handed_prefix env sid ms w v full \<longleftrightarrow>
     (\<exists>k. inputs (w_trace v) = inputs (w_trace w) @ inputs_of env sid (take k ms) \<and> (full \<longrightarrow> length ms \<le> k))"

lemma handed_prefix_all: "handed env sid ms w (Normal v) \<Longrightarrow> handed_prefix env sid ms w v full"
  by (auto simp: handed_prefix_def intro: exI [of _ "length ms"])

lemma handed_prefix_left:
  assumes "handed_prefix env sid ms w v full"
  shows "handed_prefix env sid (ms @ ms2) w v False"
proof -
  from assms obtain k where "inputs (w_trace v) = inputs (w_trace w) @ inputs_of env sid (take k ms)"
    by (auto simp: handed_prefix_def)
  then have "inputs (w_trace v) = inputs (w_trace w) @ inputs_of env sid (take (min k (length ms)) (ms @ ms2))"
    by (simp add: min_def)
  then show ?thesis unfolding handed_prefix_def by blast
qed

lemma handed_prefix_right:
  assumes "handed env sid ms w (Normal u)" and "handed_prefix env sid ms2 u v full"
  shows "handed_prefix env sid (ms @ ms2) w v full"
proof -
  from assms(2) obtain k where "inputs (w_trace v) = inputs (w_trace u) @ inputs_of env sid (take k ms2)"
    "full \<longrightarrow> length ms2 \<le> k"
    by (auto simp: handed_prefix_def)
  with assms(1) have "inputs (w_trace v) = inputs (w_trace w) @ inputs_of env sid (take (length ms + k) (ms @ ms2))"
    "full \<longrightarrow> length (ms @ ms2) \<le> length ms + k"
    by simp_all
  then show ?thesis unfolding handed_prefix_def by blast
qed

text \<open>All messages of the buffer are handed over unless the session became a zombie or the loop threw.\<close>

fun loop_handed ::
  "('p, 'q, 'b) env \<Rightarrow> u64 \<Rightarrow> fix_message list \<Rightarrow> ('p, 'q, 'b) world \<Rightarrow> (('p, 'q, 'b) world \<times> nat) outcome \<Rightarrow> bool" where
  "loop_handed env sid ms w (Normal (v, n)) \<longleftrightarrow> handed_prefix env sid ms w v (\<not> is_zombie sid v)"
| "loop_handed env sid ms w (Thrown e (v, n)) \<longleftrightarrow> handed_prefix env sid ms w v False"
| "loop_handed env sid ms w (Aborted x) \<longleftrightarrow> True"

lemma loop_handed_right:
  assumes "handed env sid ms w (Normal u)" and "loop_handed env sid ms2 u r"
  shows "loop_handed env sid (ms @ ms2) w r"
  using assms(2) handed_prefix_right [OF assms(1)]
  by (cases "(env, sid, ms2, u, r)" rule: loop_handed.cases) auto

lemma read_loop_handed:
  "calm w \<Longrightarrow> sid \<in> set (session_ids w) \<Longrightarrow>
   loop_handed env sid (frames env buffer) w (read_loop env sid buffer t w)"
proof (induction buffer arbitrary: t w rule: length_induct)
  case (1 buffer)
  let ?m = "bytes_of (snd (e_reader env buffer))" and ?ms = "messages_of (fst (e_reader env buffer))"
  note step = handed_reader_dispatch [OF "1.prems", of env buffer]
  have split: "\<exists>ms2. frames env buffer = ?ms @ ms2" if "buffer \<noteq> []"
    using that by (subst frames.simps) (simp add: Let_def)
  show ?case
  proof (cases "buffer = []")
    case True
    then show ?thesis by (simp add: read_loop.simps frames.simps handed_prefix_def)
  next
    case False
    with split obtain ms2 where ms2: "frames env buffer = ?ms @ ms2" by blast
    show ?thesis
    proof (cases "reader_dispatch env sid buffer w")
      case (Normal v)
      then have here: "handed env sid ?ms w (Normal v)" using step by simp
      note all = handed_prefix_all [OF here]
      consider "?m = 0" | "?m > length buffer" | "?m \<noteq> 0" "?m \<le> length buffer" "is_zombie sid v"
        | "?m \<noteq> 0" "?m \<le> length buffer" "\<not> is_zombie sid v" by linarith
      then show ?thesis
      proof cases
        case 1
        with False Normal all show ?thesis
          by (subst read_loop.simps, subst frames.simps) simp
      next
        case 2
        with False Normal show ?thesis by (subst read_loop.simps) auto
      next
        case 3
        with False Normal handed_prefix_left [OF all [of True]] show ?thesis
          unfolding ms2 by (subst read_loop.simps) simp
      next
        case 4
        have "loop_handed env sid (frames env (drop ?m buffer)) v (read_loop env sid (drop ?m buffer) (t + ?m) v)"
          using 4 False here "1.prems" "1.IH" by simp
        from loop_handed_right [OF here this] 4 False Normal show ?thesis
          by (subst read_loop.simps, subst frames.simps) (simp add: Let_def)
      qed
    next
      case (Thrown e v)
      with step have "handed_prefix env sid ?ms w v False" by (simp add: handed_prefix_def)
      from handed_prefix_left [OF this] False Thrown show ?thesis
        unfolding ms2 by (subst read_loop.simps) simp
    qed (use False in \<open>subst read_loop.simps, simp\<close>)
  qed
qed

text \<open>
  C5 (messages_in_order). A read hands the messages of the buffer to the bridge library one by one
  in the order in which they lie there, each once and decoded by its own decoder; it leaves out
  only those that have no handler. It tells the library nothing else, whatever the library does
  meanwhile. If the session is alive afterwards they were all handed over, otherwise a first part
  of them was: nothing after the message that ended the session.
\<close>

theorem messages_in_order:
  assumes "calm w" and "find_session sid w = Some s" and "s_state s \<noteq> ZOMBIE"
    and "on_read env sid data w = Normal w'"
  shows "\<exists>k. inputs (w_trace w') =
      inputs (w_trace w) @ inputs_of env sid (take k (frames env (s_buffer s @ data))) \<and>
    (\<not> is_zombie sid w' \<longrightarrow> take k (frames env (s_buffer s @ data)) = frames env (s_buffer s @ data))"
proof -
  let ?start = "read_start sid s data w" and ?buf = "s_buffer s @ data"
  note start = kept_read_start [OF assms(1,2), of data]
  have live: "sid \<in> set (session_ids w)" using assms(2) by (simp add: live_iff)
  have trace: "w_trace ?start = w_trace w" by (simp add: read_start_def)
  have loop: "loop_handed env sid (frames env ?buf) ?start (read_loop env sid ?buf 0 ?start)"
    by (rule read_loop_handed) (simp_all add: start live)
  note run = on_read_start [OF assms(2,3), of env data]
  have "handed_prefix env sid (frames env ?buf) w w' (\<not> is_zombie sid w')"
  proof (cases "read_loop env sid ?buf 0 ?start")
    case (Normal p)
    obtain v n where p: "p = (v, n)" by (cases p)
    from run assms(4) Normal have "w' = update_session sid (\<lambda>s. s\<lparr>s_buffer := drop n (s_buffer s)\<rparr>) v"
      by (simp add: p)
    moreover from this have "is_zombie sid w' = is_zombie sid v"
      by (cases "find_session sid v") (simp_all add: is_zombie_def find_update_session)
    ultimately show ?thesis using loop by (simp add: Normal p handed_prefix_def trace)
  next
    case (Thrown e p)
    obtain v n where p: "p = (v, n)" by (cases p)
    have v: "calm v" "sid \<in> set (session_ids v)"
      using read_loop_calm [OF start(1), of sid env ?buf 0 v n e] live Thrown by (simp_all add: p start)
    with close_zombie [of v sid env] obtain u where u: "close env sid v = Normal u" "is_zombie sid u" by blast
    with run assms(4) Thrown have "w' = u" by (simp add: p split: if_splits)
    moreover have "inputs (w_trace u) = inputs (w_trace v)"
      using untold.preserves_close [OF v, of env] u by (simp add: kept_def)
    ultimately show ?thesis using loop u by (simp add: Thrown p handed_prefix_def trace)
  qed (use run assms(4) in simp)
  then show ?thesis unfolding handed_prefix_def by auto
qed


text \<open>The second session logs on and sends an order, and the rest of a third message has not come.\<close>

theorem messages_in_order_witness:
  "inputs (w_trace (result_of (on_read example_env 2 [1, 1, 4, 2, 5] example_world) example_world)) =
     inputs (w_trace example_world) @
       [Client_message In_Logon () (fm_header (frame_message 1 1)) 2,
        Client_message In_NewOrderSingle () (fm_header (frame_message 4 2)) 2]"
proof -
  let ?r = "on_read example_env 2 [1, 1, 4, 2, 5] example_world"
  have facts: "is_normal ?r" "\<not> is_zombie 2 (result_of ?r example_world)" by code_simp+
  obtain s where s: "find_session 2 example_world = Some s" "s_state s \<noteq> ZOMBIE"
    using example_sessions(3) by auto
  then have buf: "s_buffer s = []" using example_read_facts(3) by simp
  have "frames example_env [1, 1, 4, 2, 5] = [frame_message 1 1, frame_message 4 2]"
    by (simp add: frames.simps e_reader_example bytes_of_def)
  with messages_in_order [OF example_calm s result_of [OF facts(1), of example_world]] facts(2) buf
  have "inputs (w_trace (result_of ?r example_world)) =
      inputs (w_trace example_world) @ inputs_of example_env 2 [frame_message 1 1, frame_message 4 2]"
    by (simp only: append_Nil) metis
  also have "inputs_of example_env 2 [frame_message 1 1, frame_message 4 2] =
      [Client_message In_Logon () (fm_header (frame_message 1 1)) 2,
       Client_message In_NewOrderSingle () (fm_header (frame_message 4 2)) 2]"
    by (simp add: input_of_def frame_message_def frame_type_def example_env_def)
  finally show ?thesis .
qed

end
