(* ===== verification/Bridge_Protocol.thy ===== *)
theory Bridge_Protocol
  imports Message_Order
begin

text \<open>
  The protocol between the program and the bridge library: in which order the library is told
  about a session. It hears of the connection first and once, of messages and of the end of
  the connection only while the session exists, and of nothing after the session was removed.
\<close>

section \<open>What the library was told about a session\<close>

fun about :: "u64 \<Rightarrow> 'p bridge_input \<Rightarrow> bool" where
  "about sid (Client_message _ _ _ sid2) \<longleftrightarrow> sid2 = sid"
| "about sid (Client_user_request _ _ sid2) \<longleftrightarrow> sid2 = sid"
| "about sid (Bridge_connected sid2) \<longleftrightarrow> sid2 = sid"
| "about sid (Bridge_disconnected sid2) \<longleftrightarrow> sid2 = sid"
| "about sid (Gateway_event _ _) \<longleftrightarrow> False"

definition history :: "u64 \<Rightarrow> ('p, 'q) effect list \<Rightarrow> 'p bridge_input list" where
  "history sid tr = filter (about sid) (inputs tr)"

lemma history_snoc [simp]: "history sid (tr @ [e]) = history sid tr @ filter (about sid) (told e)"
  by (simp add: history_def)

lemma history_snoc2 [simp]:
  "history sid (tr @ [e, e2]) = history sid tr @ filter (about sid) (told e) @ filter (about sid) (told e2)"
  by (simp add: history_def inputs_def)

lemma tellable_about: "tellable w input \<Longrightarrow> about sid input \<Longrightarrow> sid \<in> set (session_ids w) \<and> input \<noteq> Bridge_connected sid"
  by (cases input) simp_all

section \<open>The connection comes first\<close>

definition opened :: "u64 \<Rightarrow> 'p bridge_input list \<Rightarrow> bool" where
  "opened sid xs \<longleftrightarrow> (\<exists>later. xs = Bridge_connected sid # later \<and> Bridge_connected sid \<notin> set later)"

lemma opened_snoc: "opened sid xs \<Longrightarrow> x \<noteq> Bridge_connected sid \<Longrightarrow> opened sid (xs @ [x])"
  by (auto simp: opened_def)

definition introduced :: "('p, 'q, 'b) world \<Rightarrow> u64 \<Rightarrow> bool" where
  "introduced w sid \<longleftrightarrow>
     (if 1 \<le> unat sid \<and> unat sid \<le> accepted (w_trace w) then opened sid (history sid (w_trace w))
      else history sid (w_trace w) = [])"

definition protocol_ok :: "('p, 'q, 'b) world \<Rightarrow> bool" where
  "protocol_ok w \<longleftrightarrow> world_ok w \<and> (accepted (w_trace w) < 2 ^ 64 \<longrightarrow> (\<forall>sid. introduced w sid))"

lemma protocol_ok_same:
  assumes "protocol_ok w" and "world_ok w \<Longrightarrow> world_ok w'" and "accepted (w_trace w') = accepted (w_trace w)"
    and "\<And>sid. history sid (w_trace w') = history sid (w_trace w)"
  shows "protocol_ok w'"
  using assms by (simp add: protocol_ok_def introduced_def)

lemma protocol_ok_told:
  assumes ok: "protocol_ok w" and tell: "tellable w input"
  shows "protocol_ok (emit (To_bridge input) w)"
proof -
  have "introduced (emit (To_bridge input) w) sid" if bound: "accepted (w_trace w) < 2 ^ 64" for sid
  proof (cases "about sid input")
    case True
    with tellable_about [OF tell] obtain s where s: "find_session sid w = Some s"
      and new: "input \<noteq> Bridge_connected sid" by (auto simp: live_iff)
    from ok have "world_ok w" by (simp add: protocol_ok_def)
    from ids_okD [OF world_okD(1) [OF this bound] s] have "1 \<le> unat sid" "unat sid \<le> accepted (w_trace w)"
      by (simp_all add: session_ok_def)
    moreover from this ok bound have "opened sid (history sid (w_trace w))"
      by (auto simp: protocol_ok_def introduced_def split: if_splits)
    ultimately show ?thesis using True new by (simp add: introduced_def accepted_def opened_snoc)
  next
    case False
    with ok bound show ?thesis by (simp add: protocol_ok_def introduced_def accepted_def)
  qed
  with ok show ?thesis by (simp add: protocol_ok_def world_ok_emit accepted_def)
qed

lemma protocol_ok_connect:
  assumes ok: "protocol_ok w"
  shows "protocol_ok (emit (To_bridge (Bridge_connected (w_next_session_id w + 1))) (connect_step env w))"
    (is "protocol_ok ?w")
proof -
  let ?sid = "w_next_session_id w + 1"
  have w: "world_ok w" using ok by (simp add: protocol_ok_def)
  have count: "accepted (w_trace ?w) = accepted (w_trace w) + 1" by (simp add: accepted_def)
  have "introduced ?w sid" if bound: "accepted (w_trace w) + 1 < 2 ^ 64" for sid
  proof -
    have less: "accepted (w_trace w) < 2 ^ 64" using bound by simp
    with ok have old: "introduced w sid" by (simp add: protocol_ok_def)
    note fresh = fresh_session(1) [OF world_okD(1) [OF w less] bound]
    show ?thesis
    proof (cases "sid = ?sid")
      case True
      with old fresh have "history sid (w_trace w) = []" by (simp add: introduced_def)
      with True fresh count show ?thesis by (simp add: introduced_def opened_def)
    next
      case False
      with fresh have "unat sid \<noteq> accepted (w_trace w) + 1" by (metis word_unat_eq_iff)
      with False old count show ?thesis by (auto simp: introduced_def le_Suc_eq)
    qed
  qed
  moreover have "world_ok ?w" by (simp add: world_ok_emit world_ok_connect w)
  ultimately show ?thesis unfolding protocol_ok_def count by blast
qed

lemma quiet_step [simp]:
  "history sid (w_trace (send_step sid2 header reply runs answer w)) = history sid (w_trace w)"
  "history sid (w_trace (retire sid2 w)) = history sid (w_trace w)"
  "accepted (w_trace (retire sid2 w)) = accepted (w_trace w)"
  by (simp_all add: send_step_def retire_def on_session_disconnect_def Let_def accepted_def)

lemma plain_unconnected: "plain e \<Longrightarrow> \<not> is_connected e"
  by (cases e) simp_all

lemma accepted_close: "accepted (tr @ [Connection_close sid, Session_logout sid]) = accepted tr"
  by (simp add: accepted_def)

interpretation protocol: event_contract env "keeps protocol_ok" for env
proof unfold_locales
  show "keeps protocol_ok w (emit (To_bridge (Bridge_connected (w_next_session_id w + 1))) (connect_step env w))"
    for w :: "('a, 'b, 'c) world"
    by (simp add: keeps_def protocol_ok_connect)
  show "keeps protocol_ok w (emit (To_bridge input) w)" if "tellable w input" for input and w :: "('a, 'b, 'c) world"
    using that by (simp add: keeps_def protocol_ok_told)
qed (auto simp: keeps_def plain_unconnected plain_untold accepted_close elim!: protocol_ok_same intro: steps_ok)

lemma protocol_ok_init: "routes_wf sh \<Longrightarrow> protocol_ok (initial_world b sh)"
  using world_ok_init [of sh b]
  by (auto simp: protocol_ok_def introduced_def initial_world_def accepted_def history_def inputs_def)

section \<open>Nothing after the removal\<close>

definition removed :: "u64 \<Rightarrow> 'p bridge_input list \<Rightarrow> ('p, 'q, 'b) world \<Rightarrow> bool" where
  "removed sid xs w \<longleftrightarrow> world_ok w \<and>
     (accepted (w_trace w) < 2 ^ 64 \<longrightarrow> find_session sid w = None \<and> 1 \<le> unat sid \<and>
        unat sid \<le> accepted (w_trace w) \<and> history sid (w_trace w) = xs)"

lemma removed_step:
  assumes "removed sid xs w" and "world_ok w \<Longrightarrow> world_ok w'" and "accepted (w_trace w') = accepted (w_trace w)"
    and "find_session sid w = None \<Longrightarrow> find_session sid w' = None"
    and "find_session sid w = None \<Longrightarrow> history sid (w_trace w') = history sid (w_trace w)"
  shows "removed sid xs w'"
  using assms by (auto simp: removed_def)

lemma removed_told:
  assumes "removed sid xs w" and "tellable w input"
  shows "removed sid xs (emit (To_bridge input) w)"
proof (rule removed_step [OF assms(1)])
  assume none: "find_session sid w = None"
  then have "\<not> about sid input" using tellable_about [OF assms(2), of sid] by (auto simp: live_iff)
  then show "history sid (w_trace (emit (To_bridge input) w)) = history sid (w_trace w)" by simp
qed (simp_all add: world_ok_emit accepted_def)

lemma removed_connect:
  assumes "removed sid xs w"
  shows "removed sid xs (emit (To_bridge (Bridge_connected (w_next_session_id w + 1))) (connect_step env w))"
    (is "removed sid xs ?w")
proof -
  have w: "world_ok w" using assms by (simp add: removed_def)
  have count: "accepted (w_trace ?w) = accepted (w_trace w) + 1" by (simp add: accepted_def)
  have "find_session sid ?w = None \<and> 1 \<le> unat sid \<and> unat sid \<le> accepted (w_trace w) + 1 \<and>
      history sid (w_trace ?w) = xs" if bound: "accepted (w_trace w) + 1 < 2 ^ 64"
  proof -
    have less: "accepted (w_trace w) < 2 ^ 64" using bound by simp
    with assms have old: "find_session sid w = None" "1 \<le> unat sid" "unat sid \<le> accepted (w_trace w)"
      "history sid (w_trace w) = xs" by (simp_all add: removed_def)
    with fresh_session(1) [OF world_okD(1) [OF w less] bound] have "sid \<noteq> w_next_session_id w + 1" by auto
    with old show ?thesis by (simp add: find_connect_step)
  qed
  moreover have "world_ok ?w" by (simp add: world_ok_emit world_ok_connect w)
  ultimately show ?thesis unfolding removed_def count by blast
qed

interpretation silence: event_contract env "keeps (removed sid xs)" for env sid xs
proof unfold_locales
  show "keeps (removed sid xs) w (emit (To_bridge (Bridge_connected (w_next_session_id w + 1))) (connect_step env w))"
    for w :: "('a, 'b, 'c) world"
    by (simp add: keeps_def removed_connect)
  show "keeps (removed sid xs) w (emit (To_bridge input) w)" if "tellable w input" for input and w :: "('a, 'b, 'c) world"
    using that by (simp add: keeps_def removed_told)
qed (auto simp: keeps_def plain_unconnected plain_untold accepted_close find_retire find_update_session
    find_cleanup_step find_send_step elim!: removed_step intro: steps_ok)

text \<open>
  C8 (bridge_protocol). In every reachable state, as long as identifiers do not wrap around, the
  bridge library was told about a session exactly if its connection was accepted: first of
  all, and once, that it is connected, and then only of its messages and its disconnection. About
  identifiers that were not given out it was told nothing, and once a session has been removed
  it is told nothing more about it, whatever happens later.
\<close>

theorem bridge_protocol:
  assumes "Shared_create compile cfg c n = Inr sh" and "reachable env (initial_world b sh) w"
    and "accepted (w_trace w) < 2 ^ 64"
  shows "if 1 \<le> unat sid \<and> unat sid \<le> accepted (w_trace w)
    then (\<exists>later. history sid (w_trace w) = Bridge_connected sid # later \<and> Bridge_connected sid \<notin> set later) \<and>
      (\<forall>w2. find_session sid w = None \<and> reachable env w w2 \<and> accepted (w_trace w2) < 2 ^ 64 \<longrightarrow>
         history sid (w_trace w2) = history sid (w_trace w))
    else history sid (w_trace w) = []"
proof -
  have ok: "protocol_ok w" "calm w"
    using protocol.reachable_related [OF assms(2) calm_init]
    by (simp_all add: keeps_def protocol_ok_init [OF Shared_create_routes(1) [OF assms(1)]])
  then have now: "introduced w sid" using assms(3) by (simp add: protocol_ok_def)
  have "history sid (w_trace w2) = history sid (w_trace w)"
    if "1 \<le> unat sid" "unat sid \<le> accepted (w_trace w)" "find_session sid w = None" "reachable env w w2"
      "accepted (w_trace w2) < 2 ^ 64" for w2
  proof -
    have "removed sid (history sid (w_trace w)) w" using ok that by (simp add: removed_def protocol_ok_def)
    with silence.reachable_related [OF that(4) ok(2), of sid "history sid (w_trace w)"] that(5)
    show ?thesis by (simp add: keeps_def removed_def)
  qed
  with now show ?thesis by (auto simp: introduced_def opened_def)
qed

text \<open>
  The first session of the run is removed when the timer fires; then a third connection is accepted
  and the second sends a message. Nothing more is told about the first.
\<close>

definition example_later :: "(unit, unit, nat) world" where
  "example_later = result_of (handle example_env (Timer_event () [Io_accept, Io_read 2 [1, 1]]) example_cleaned) example_cleaned"

lemma example_later_facts:
  "is_normal (handle example_env (Timer_event () [Io_accept, Io_read 2 [1, 1]]) example_cleaned)"
  "accepted (w_trace example_later) = 3"
  by code_simp+

lemma example_later_reachable: "reachable example_env example_cleaned example_later"
  unfolding example_later_def
  by (rule reach_step [OF reach_init step_normal [OF result_of [OF example_later_facts(1)]]])

theorem bridge_protocol_witness:
  "(\<exists>later. history 1 (w_trace example_cleaned) = Bridge_connected 1 # later \<and> Bridge_connected 1 \<notin> set later) \<and>
   history 1 (w_trace example_later) = history 1 (w_trace example_cleaned) \<and>
   history 3 (w_trace example_cleaned) = []"
proof -
  have "1 \<notin> set (session_ids example_cleaned)"
    by (simp only: session_ids_def example_cleaned_facts) simp
  then have "find_session 1 example_cleaned = None" by (simp add: live_iff)
  then show ?thesis
    using bridge_protocol [OF example_shared_created example_cleaned_reachable, of 1]
      bridge_protocol [OF example_shared_created example_cleaned_reachable, of 3] example_later_reachable
    by (simp add: example_cleaned_facts example_later_facts)
qed

end
