(* ===== verification/Route_Answers.thy ===== *)
theory Route_Answers
  imports Bridge_Safety
begin

text \<open>
  What clients are told about routes, and what the program does with them. Every user response
  by which a session answered a request can be read as a change of a table from strategies to
  sessions; the theory shows that the table so obtained is the one the program routes by, in
  every state it can reach.
\<close>

section \<open>The table that the answers describe\<close>

text \<open>
  An answer \<open>LOGGED_IN\<close> gives the strategy to the session that is told, \<open>NOT_LOGGED_IN\<close> takes it
  away, and any other status leaves the table as it is. The user name in the answer stands for
  the strategy, by the number parser that the program uses.
\<close>

fun route_answer :: "('p, 'q, 'b) env \<Rightarrow> ('p, 'q) effect \<Rightarrow> (u32 \<rightharpoonup> u64) \<Rightarrow> (u32 \<rightharpoonup> u64)" where
  "route_answer env (Sent sid header (User_response_msg request uname status status_text) runs answer) table =
     (case e_strategy_id env uname of
        Inl e \<Rightarrow> table
      | Inr k \<Rightarrow> if status = LOGGED_IN then table(k \<mapsto> sid)
          else if status = NOT_LOGGED_IN then table(k := None)
          else table)"
| "route_answer env e table = table"

definition answered_routes :: "('p, 'q, 'b) env \<Rightarrow> ('p, 'q) effect list \<Rightarrow> (u32 \<rightharpoonup> u64)" where
  "answered_routes env tr = fold (route_answer env) tr Map.empty"

lemma answered_routes_snoc [simp]:
  "answered_routes env [] = Map.empty"
  "answered_routes env (tr @ [e]) = route_answer env e (answered_routes env tr)"
  by (simp_all add: answered_routes_def)

lemma answered_routes_snoc2:
  "answered_routes env (tr @ [e, e2]) = route_answer env e2 (route_answer env e (answered_routes env tr))"
  by (simp add: answered_routes_def)

lemma route_answer_plain: "plain e \<Longrightarrow> route_answer env e table = table"
  by (cases e) simp_all

lemma route_answer_send:
  "\<not> user_reply reply \<Longrightarrow> route_answer env (Sent sid header reply runs answer) table = table"
  by (cases reply) simp_all

text \<open>The answer to a request describes what the request did.\<close>

lemma route_answer_request:
  assumes "e_strategy_id env (ur_username ur) = Inr k"
    and "request_route sid k (ur_user_request_type ur) sh = (sh', status, status_text)"
  shows "route_answer env (Sent sid header (user_response ur status status_text) runs answer) (route_owner sh) =
    route_owner sh'"
  using request_route_spec [OF assms(2)] assms(1)
  by (auto simp: user_response_def user_request_spec_def fun_eq_iff split: if_splits)

section \<open>It is the table in use\<close>

definition routes_answered :: "('p, 'q, 'b) env \<Rightarrow> ('p, 'q, 'b) world \<Rightarrow> bool" where
  "routes_answered env w \<longleftrightarrow> route_owner (w_shared w) = answered_routes env (w_trace w)"

lemma send_step_trace:
  "w_trace (send_step sid header reply runs answer w) = w_trace w @ [Sent sid header reply runs answer]"
  by (simp add: send_step_def)

interpretation answers: event_contract env "keeps (routes_answered env)" for env
  by unfold_locales
    (auto simp: keeps_def routes_answered_def route_answer_plain route_answer_send send_step_trace
      answered_routes_snoc2 route_answer_request dest: sym)

text \<open>
  C13 (routes_as_answered). In every reachable state the strategies are routed exactly as the
  sessions answered: the owner of a strategy is the session whose client was last answered that
  it is logged in for it, unless it has since been answered that it no longer is. No change of
  the route table goes unanswered, and no answer describes a change that was not made. (The
  bridge library can send messages of that kind as well; those have no effect on routes.)
\<close>

theorem routes_as_answered:
  assumes "Shared_create compile cfg c n = Inr sh" and "reachable env (initial_world b sh) w"
  shows "route_owner (w_shared w) = answered_routes env (w_trace w)"
proof -
  have "route_owner sh = Map.empty"
    using assms(1) by (auto simp: Shared_create_def bind_result_eq_Inr route_owner_def)
  then have "routes_answered env (initial_world b sh)"
    by (simp add: routes_answered_def initial_world_def)
  with answers.reachable_related [OF assms(2) calm_init] show ?thesis
    by (simp add: keeps_def routes_answered_def)
qed

theorem routes_as_answered_witness:
  "answered_routes example_env (w_trace example_world) 7 = Some 1"
  using fun_cong [OF routes_as_answered [OF example_shared_created example_reachable_init], of 7]
  by (simp add: route_owner_def example_world_facts)

end
