(* ===== verification/Metrics.thy ===== *)
theory Metrics
  imports Session_Input
begin

text \<open>
  The metrics of \<open>Shared\<close>: the profiles and latencies it creates (\<open>shared.cpp\<close>, lines 56-106),
  which of them the session uses for which message (\<open>session.cpp\<close>, lines 158-311), and what is
  written for the collector (\<open>shared.cpp\<close>, lines 281-313). Measuring itself is the library's:
  a metric is what it was constructed from. The name of the application is a setting of the
  client library.
\<close>

section \<open>Creation\<close>

datatype metric =
    Profile_metric string string string
  | Internal_latency string
  | External_latency string

definition create_metrics :: "string \<Rightarrow> string \<Rightarrow> metric" where
  "create_metrics app_name fname = Profile_metric app_name ''session'' fname"

definition create_internal_latency :: "string \<Rightarrow> metric" where
  "create_internal_latency app_name = Internal_latency (''source='' @ quoted app_name)"

definition create_external_latency :: "string \<Rightarrow> string \<Rightarrow> metric" where
  "create_external_latency app_name fname =
     External_latency (''source='' @ quoted app_name @ '', function='' @ quoted fname)"

text \<open>The members of the structures \<open>profile\<close> and \<open>latency\<close>.\<close>

datatype profile =
    P_parse | P_logon | P_logout | P_test_request | P_resend_request | P_reject |
    P_heartbeat | P_trading_session_status_request | P_security_list_request |
    P_security_definition_request | P_security_status_request | P_market_data_request |
    P_user_request | P_order_status_request | P_order_mass_status_request |
    P_new_order_single | P_order_cancel_request | P_order_cancel_replace_request |
    P_order_mass_cancel_request | P_trade_capture_report_request | P_request_for_positions |
    P_mass_quote | P_quote_cancel

datatype latency = L_events | L_end_to_end | L_round_trip_gateway | L_round_trip_broker | L_round_trip_exchange

fun profile_function :: "profile \<Rightarrow> string" where
  "profile_function P_parse = ''parse''"
| "profile_function P_logon = ''logon''"
| "profile_function P_logout = ''logout''"
| "profile_function P_test_request = ''test_request''"
| "profile_function P_resend_request = ''resend_request''"
| "profile_function P_reject = ''reject''"
| "profile_function P_heartbeat = ''heartbeat''"
| "profile_function P_trading_session_status_request = ''trading_session_status_request''"
| "profile_function P_security_list_request = ''security_list_request''"
| "profile_function P_security_definition_request = ''security_definition_request''"
| "profile_function P_security_status_request = ''security_status_request''"
| "profile_function P_market_data_request = ''market_data_request''"
| "profile_function P_user_request = ''user_request''"
| "profile_function P_order_status_request = ''order_status_request''"
| "profile_function P_order_mass_status_request = ''order_mass_status_request''"
| "profile_function P_new_order_single = ''new_order_single''"
| "profile_function P_order_cancel_request = ''order_cancel_request''"
| "profile_function P_order_cancel_replace_request = ''order_cancel_replace_request''"
| "profile_function P_order_mass_cancel_request = ''order_mass_cancel_request''"
| "profile_function P_trade_capture_report_request = ''trade_capture_report_request''"
| "profile_function P_request_for_positions = ''request_for_positions''"
| "profile_function P_mass_quote = ''mass_quote''"
| "profile_function P_quote_cancel = ''quote_cancel''"

definition Shared_profile :: "string \<Rightarrow> profile \<Rightarrow> metric" where
  "Shared_profile app_name p = create_metrics app_name (profile_function p)"

fun Shared_latency :: "string \<Rightarrow> latency \<Rightarrow> metric" where
  "Shared_latency app_name L_events = create_internal_latency app_name"
| "Shared_latency app_name L_end_to_end = create_internal_latency app_name"
| "Shared_latency app_name L_round_trip_gateway = create_external_latency app_name ''gateway''"
| "Shared_latency app_name L_round_trip_broker = create_external_latency app_name ''broker''"
| "Shared_latency app_name L_round_trip_exchange = create_external_latency app_name ''exchange''"

section \<open>Use\<close>

text \<open>The profile around each case of the switch in \<open>Session::parse_helper\<close>.\<close>

fun profile_of :: "msg_type \<Rightarrow> profile option" where
  "profile_of LOGON = Some P_logon"
| "profile_of LOGOUT = Some P_logout"
| "profile_of TEST_REQUEST = Some P_test_request"
| "profile_of RESEND_REQUEST = Some P_resend_request"
| "profile_of REJECT = Some P_reject"
| "profile_of HEARTBEAT = Some P_heartbeat"
| "profile_of TRADING_SESSION_STATUS_REQUEST = Some P_trading_session_status_request"
| "profile_of SECURITY_LIST_REQUEST = Some P_security_list_request"
| "profile_of SECURITY_DEFINITION_REQUEST = Some P_security_definition_request"
| "profile_of SECURITY_STATUS_REQUEST = Some P_security_status_request"
| "profile_of MARKET_DATA_REQUEST = Some P_market_data_request"
| "profile_of USER_REQUEST = Some P_user_request"
| "profile_of ORDER_STATUS_REQUEST = Some P_order_status_request"
| "profile_of ORDER_MASS_STATUS_REQUEST = Some P_order_mass_status_request"
| "profile_of NEW_ORDER_SINGLE = Some P_new_order_single"
| "profile_of ORDER_CANCEL_REQUEST = Some P_order_cancel_request"
| "profile_of ORDER_CANCEL_REPLACE_REQUEST = Some P_order_cancel_replace_request"
| "profile_of ORDER_MASS_CANCEL_REQUEST = Some P_order_mass_cancel_request"
| "profile_of TRADE_CAPTURE_REPORT_REQUEST = Some P_trade_capture_report_request"
| "profile_of REQUEST_FOR_POSITIONS = Some P_request_for_positions"
| "profile_of MASS_QUOTE = Some P_mass_quote"
| "profile_of QUOTE_CANCEL = Some P_quote_cancel"
| "profile_of (OTHER_MSG_TYPE n) = None"

section \<open>Writing\<close>

datatype metric_type = PROFILE | EVENTS | END_TO_END_LATENCY | REQUEST_LATENCY

definition profiles_written :: "profile list" where
  "profiles_written =
       [P_parse, P_logon, P_logout, P_test_request, P_resend_request, P_reject, P_heartbeat,
        P_trading_session_status_request, P_security_list_request,
        P_security_definition_request, P_security_status_request, P_market_data_request,
        P_user_request, P_order_status_request, P_order_mass_status_request,
        P_new_order_single, P_order_cancel_request, P_order_cancel_replace_request,
        P_order_mass_cancel_request, P_trade_capture_report_request, P_request_for_positions,
        P_mass_quote, P_quote_cancel]"

definition latencies_written :: "(latency \<times> metric_type) list" where
  "latencies_written =
     [(L_events, EVENTS), (L_end_to_end, END_TO_END_LATENCY), (L_round_trip_gateway, REQUEST_LATENCY),
      (L_round_trip_broker, REQUEST_LATENCY), (L_round_trip_exchange, REQUEST_LATENCY)]"

definition Shared_write :: "string \<Rightarrow> (metric \<times> metric_type) list" where
  "Shared_write app_name =
     map (\<lambda>p. (Shared_profile app_name p, PROFILE)) profiles_written @
     map (\<lambda>(l, t). (Shared_latency app_name l, t)) latencies_written"

section \<open>Every measurement is written once\<close>

lemma profile_function_inject: "profile_function p = profile_function q \<longleftrightarrow> p = q"
  by (cases p; cases q) simp_all

lemma Shared_profile_inject: "inj (Shared_profile app_name)"
  by (auto intro!: injI simp: Shared_profile_def create_metrics_def profile_function_inject)

lemma profiles_written: "set profiles_written = UNIV" "distinct profiles_written"
proof -
  have "p \<in> set profiles_written" for p by (cases p) (simp_all add: profiles_written_def)
  then show "set profiles_written = UNIV" by blast
qed (simp add: profiles_written_def)

lemma latencies_written:
  "\<exists>t. (l, t) \<in> set latencies_written" "(l, t) \<in> set latencies_written \<Longrightarrow> t \<noteq> PROFILE"
  "distinct (map (\<lambda>(l, t). (Shared_latency app_name l, t)) latencies_written)"
  by (cases l) (auto simp: latencies_written_def create_external_latency_def quoted_def)

lemma profile_of_inject: "profile_of t = Some p \<Longrightarrow> profile_of t2 = Some p \<Longrightarrow> t = t2"
  by (cases t; cases t2) auto

lemma profile_of_surj: "p = P_parse \<or> (\<exists>t. profile_of t = Some p)"
  by (cases p) (blast intro: profile_of.simps)+

lemma profile_of_parse: "profile_of t \<noteq> Some P_parse"
  by (cases t) simp_all


end
