(* ===== verification/Startup.thy ===== *)
theory Startup
  imports Bridge_Invariants
begin

text \<open>
  What the start of the program leaves behind: when it succeeds for a configuration that loads,
  and how the parts that are then in place agree with each other.
\<close>

section \<open>The parts that may fail\<close>

lemma Crypto_create_total:
  "(\<exists>crypto. Crypto_create auth_method tolerance = Inr crypto) \<longleftrightarrow>
     auth_method \<in> {[], ''hmac_sha256'', ''hmac_sha256_ts''}"
  by (simp add: Crypto_create_def parse_method_def)

lemma create_network_address_total:
  "(\<exists>address. create_network_address try_parse cfg = Inr address) \<longleftrightarrow> try_parse (client_listen_address cfg) \<noteq> Some 0"
  by (simp add: create_network_address_def split: option.split)

definition durations :: "settings \<Rightarrow> nanos list" where
  "durations cfg = [fix_logon_timeout cfg, fix_logon_heartbeat_min cfg, fix_logon_heartbeat_max cfg, fix_heartbeat_freq cfg]"

lemma create_bridge_total:
  "(\<exists>options. create_bridge safe_cast cfg c = Inr options) \<longleftrightarrow> (\<forall>t\<in>set (durations cfg). \<exists>u. safe_cast t = Inr u)"
  by (auto simp: create_bridge_def durations_def bind_result_eq_Inr)

lemma FIXLog_create_total:
  "(\<exists>fix_file. FIXLog_create lib cfg = Inr fix_file) \<longleftrightarrow>
     fix_log_path cfg = [] \<or> (\<exists>fd. st_open_file lib (fix_log_path cfg) = Inr fd)"
  by (auto simp: FIXLog_create_def create_file_def bind_result_eq_Inr)

lemma FIXLog_create_path: "FIXLog_create lib cfg = Inr True \<Longrightarrow> fix_log_path cfg \<noteq> []"
  by (auto simp: FIXLog_create_def create_file_def)

section \<open>The start as a whole\<close>


definition example_start :: start_lib where
  "example_start = \<lparr>st_safe_cast = Inr, st_compile = suffix_pattern,
     st_try_parse_port = (\<lambda>s. if s = ''9000'' then Some 9000 else None),
     st_open_file = (\<lambda>_. Inl (Exn System_error)), st_fdopen = (\<lambda>_. True)\<rparr>"


end
