(* ===== verification/Spec2Isabelle.thy ===== *)
theory Spec2Isabelle
  imports Bridge_Protocol Route_Answers Metrics Startup
begin

text \<open>
  A verification development for the FIX bridge of \<open>src/src/roq/fix_bridge\<close>: a server that
  accepts connections of FIX clients, parses what they send, hands the messages to the bridge
  library (\<open>fix::bridge::Manager\<close>), sends the library's answers to the clients, and forwards
  the library's orders to trading gateways through the client library's dispatcher.

  Parts of the program and how they interact.
  The program starts in \<open>Application::main\<close>: the configuration file is parsed into a \<open>Config\<close>,
  and the client library is started with a \<open>Controller\<close>. The controller owns the bridge library,
  the \<open>Shared\<close> object and the \<open>SessionManager\<close>; the latter owns all \<open>Session\<close> objects. The
  client library gives the controller events one at a time. Nearly all are passed on to the
  bridge library; a timer event also drains the I/O context, which calls the session manager
  (accept, timer) and the sessions (read, disconnected). A session gives client messages to the
  bridge library, which calls the controller back, at any depth, to check credentials, to
  forward orders, to send to a session and to disconnect one.

  Theories, bottom up, with what they model and what their lemmas show.
  Prelude: widths, the outcome of an operation (returned, thrown with the state left behind, or
  the process stopped by a fault) with its sequencing, and the collection of case splits.
  Containers: \<open>std::unordered_map\<close> and \<open>unordered_set\<close> as association lists in iteration
  order, with lookup after emplace, assign and erase, as interpretations of map interfaces.
  Model_Data: settings (\<open>flags/settings.hpp\<close>), \<open>user.hpp\<close>, \<open>broadcast.hpp\<close> and their formats.
  Crypto: \<open>tools/crypto.cpp\<close>; which passwords are accepted, and when the timestamp overflows.
  Broadcast_Mapping: \<open>tools/mapping.cpp\<close>; its table is the join of sources and targets by key.
  Bridge_Config: \<open>config.cpp\<close> on trees of TOML nodes; what holds of a configuration that loads.
  Shared_State: \<open>shared.cpp\<close>; the directory of users, the logon check, gateway status, and the
  route table as a refinement of one partial map.
  Fix_Session: the data of a session, the header check and the texts of errors (\<open>session.cpp\<close>).
  Bridge_World: the whole program as one state (\<open>world\<close>), the environment (\<open>env\<close>), and the
  trace of everything that leaves the process.
  Session_Ops, Session_Input: the methods of \<open>Session\<close>: sending, closing, becoming a zombie;
  the read loop, the switch on the message type, user requests.
  Controller_Calls: what the bridge library can ask of the controller (\<open>controller.cpp\<close>), and
  running the library (\<open>run_bridge\<close>, \<open>tell_bridge\<close>).
  Session_Manager: \<open>session_manager.cpp\<close>; accepting, removing zombies, draining events.
  Controller_Events: start-up (\<open>application.cpp\<close>, constructors, \<open>fix_log.cpp\<close>), the handlers of events
  (\<open>handle\<close>), the step relation and the states it reaches.
  Bridge_Invariants: the invariants of every reachable state (\<open>world_ok\<close>).
  Bridge_Example: a small concrete environment and run, at which theorems are applied.
  Session_Properties, Input_Properties, Bridge_Safety: the properties of sessions, of input, and of
  the running program.
  Segmentation, Message_Order: input that arrives in pieces, and the order in which messages
  reach the bridge library.
  Bridge_Protocol: in which order the bridge library is told about a session.
  Route_Answers: the route table as the table that the answers to clients describe.
  Startup: when the start succeeds, and how the parts then agree.
  Metrics: what \<open>Shared\<close> creates and writes for the collector of metrics.

  How the proofs are organised. An operation can change the world only in a few elementary ways,
  and each layer proves once that it keeps any relation closed under those ways: the locales
  \<open>session_contract\<close>, \<open>parse_contract\<close>, \<open>read_contract\<close> and \<open>event_contract\<close>, each extending
  the one before, with one lemma per operation (between the first two stands \<open>tell_contract\<close>,
  for handlers that tell the bridge library something). An invariant of the whole program is then an
  interpretation that checks the elementary ways (\<open>invariants\<close>, \<open>progress\<close>, \<open>frozen\<close>,
  \<open>buffers\<close>, \<open>quiet\<close>, \<open>owners\<close>, \<open>untold\<close>,
  \<open>answers\<close>, \<open>protocol\<close>, \<open>silence\<close>). Every contract assumes and keeps that no session is
  \<open>READY\<close> (\<open>calm\<close>), which is itself an invariant, since no code assigns that state.

  Integers. Session identifiers and message numbers are words of 64 bits and wrap around; times
  are integers, whose range is checked where the code may leave it. Properties of reachable states that rest on distinct identifiers say
  that fewer than \<open>2 ^ 64\<close> connections were accepted. Signed arithmetic that may overflow is
  a fault of the model where a client can cause it (\<open>nanos_of_millis\<close>). No fuel is used: the read loop
  terminates since each turn consumes bytes, the other loops run over lists, and a run of the
  bridge library is a finite tree of calls.

  What is a parameter. Code outside the repository is a function in \<open>env\<close>, \<open>crypto_lib\<close>,
  \<open>config_lib\<close> or \<open>start_lib\<close>: the FIX reader and the codecs, the bridge library (a tree of
  calls for each input and state), the dispatcher, the connection, clocks, the number parser,
  the keyed hash, base64, the regular expressions and the TOML parser. What dispatcher,
  connection and clocks answer may depend on the whole trace. Hypotheses about them appear in the
  statements (\<open>stable_reader\<close>, \<open>safe_libraries\<close>, \<open>reliable\<close>), with witnesses.
  Beyond that the model takes it that: closing a connection makes no callback before it returns;
  an exception of the reader's callbacks passes through the reader; the library delivers no
  event of a connection that was destroyed with its session; hash tables iterate in the order
  of insertion (properties do not depend on the order unless they say so).

  Not modelled: \<open>main.cpp\<close> and the parsing of flags (constants and generated code); closing
  the log file and creating the directory of a socket path (I/O); the text of log
  messages, except for the formats of users, broadcasts and the configuration; latency histograms inside the metrics
  library. The function \<open>remove_zombies\<close> iterates over a set while sessions are destroyed; a
  destructor makes no callback, so the order does not matter.
\<close>

end
